(* ===== verification/Prelude.thy ===== *)
theory Prelude
  imports Complex_Main "HOL-Library.Word" "HOL-Library.Signed_Division"
begin

unbundle bit_operations_syntax

text \<open>
  The prelude: the machine types of the C++ code, the byte order helpers it takes from the
  platform (\<open>htons\<close>, \<open>htonl\<close> followed by a \<open>memcpy\<close>, so that bytes are stored most
  significant first), the collection of invariants the component theories fill, the word
  facts several components share and the simulation argument of the refinements.
\<close>

section \<open>Machine types\<close>

type_synonym u8 = "8 word"
type_synonym u16 = "16 word"
type_synonym u32 = "32 word"
type_synonym u64 = "64 word"
type_synonym bytes = "8 word list"

text \<open>The definitions of the components' invariants, which establish a state by one call of the simplifier.\<close>

named_theorems cam_inv

text \<open>
  One iteration of a worker thread's \<open>while (true)\<close> loop around a condition variable: it waits
  (the predicate of \<open>wait\<close> is false), returns from the thread function, or goes round once more
  with a new state.
\<close>

datatype 's loop = LoopWaits | LoopReturns 's | LoopContinues 's

section \<open>Byte order\<close>

definition be16 :: "u16 \<Rightarrow> bytes" where
  "be16 w = [ucast (drop_bit 8 w), ucast w]"

definition be32 :: "u32 \<Rightarrow> bytes" where
  "be32 w = [ucast (drop_bit 24 w), ucast (drop_bit 16 w), ucast (drop_bit 8 w), ucast w]"

definition read_be16 :: "bytes \<Rightarrow> u16" where
  "read_be16 bs = (push_bit 8 (ucast (bs ! 0)) OR ucast (bs ! 1))"

definition read_be32 :: "bytes \<Rightarrow> u32" where
  "read_be32 bs = (push_bit 24 (ucast (bs ! 0)) OR push_bit 16 (ucast (bs ! 1))
     OR push_bit 8 (ucast (bs ! 2)) OR ucast (bs ! 3))"

lemma length_be16 [simp]: "length (be16 w) = 2"
  by (simp add: be16_def)

lemma length_be32 [simp]: "length (be32 w) = 4"
  by (simp add: be32_def)

lemma read_be16_be16 [simp]: "read_be16 (be16 w @ rest) = w"
  unfolding read_be16_def be16_def
  by (rule bit_word_eqI) (auto simp: bit_simps)

lemma read_be32_be32 [simp]: "read_be32 (be32 w @ rest) = w"
proof (rule bit_word_eqI)
  fix n
  assume "n < LENGTH(32)"
  then consider "n < 8" | "8 \<le> n" "n < 16" | "16 \<le> n" "n < 24" | "24 \<le> n" "n < 32"
    by fastforce
  then show "bit (read_be32 (be32 w @ rest)) n = bit w n"
    by cases (auto simp: read_be32_def be32_def bit_simps)
qed

section \<open>Words that step\<close>

lemma word_plus_one_neq [simp]: "(w :: 'a::len word) + 1 \<noteq> w"
  by simp

lemma word_add_of_nat_neq:
  fixes w :: u64
  assumes "0 < k" and "k < 2 ^ 64"
  shows "w + of_nat k \<noteq> w"
proof
  assume "w + of_nat k = w"
  then have "(of_nat k :: u64) = 0" by simp
  then have "unat (of_nat k :: u64) = 0" by simp
  with assms show False by (simp add: unat_of_nat take_bit_nat_eq_self)
qed

section \<open>Simulation\<close>

text \<open>
  An implementation whose every operation commutes with an abstract one follows the abstract run.
\<close>

locale simulation =
  fixes inv :: "'s \<Rightarrow> bool" and abs :: "'s \<Rightarrow> 'a"
    and step :: "'o \<Rightarrow> 's \<Rightarrow> 's" and spec :: "'o \<Rightarrow> 'a \<Rightarrow> 'a"
  assumes keeps_inv: "inv s \<Longrightarrow> inv (step x s)"
    and commutes: "inv s \<Longrightarrow> abs (step x s) = spec x (abs s)"
begin

lemma run: "inv s \<Longrightarrow> inv (fold step xs s) \<and> abs (fold step xs s) = fold spec xs (abs s)"
  by (induction xs arbitrary: s) (simp_all add: keeps_inv commutes)

end

end
