(* ===== verification/Shared_State.thy ===== *)
theory Shared_State
  imports Prelude
begin

text \<open>
  The part of \<open>XGCMediaCameraPlugin\<close> that every other component touches: the diagnostic
  reporter (\<open>LogEncoderError\<close> and its worker) and the atomics shared between the render thread,
  the workers and the control executor. The plugin's members are one extensible record; each
  component theory extends it with its own members, so that its operations apply unchanged to the
  whole plugin state. The theorems bound the diagnostic queue and show that the console never
  repeats a message within five seconds.
\<close>

section \<open>Diagnostic reporter\<close>

text \<open>
  \<open>diagnosticMutexHeld\<close> says whether another thread holds \<open>diagnosticMutex_\<close> at the moment of a
  \<open>try_to_lock\<close>; \<open>consoleWarnings\<close> is what \<open>gzwarn\<close> printed, newest first, with the time.
\<close>

record diagnostics =
  diagnosticMutexHeld :: bool
  pendingDiagnostics :: "string list"
  diagnosticStopping :: bool
  lastEncoderError :: string
  lastEncoderErrorAt :: int
  consoleWarnings :: "(int \<times> string) list"

definition kMaximumPendingDiagnostics :: nat where "kMaximumPendingDiagnostics = 64"

definition LogEncoderError :: "string \<Rightarrow> 'z diagnostics_scheme \<Rightarrow> 'z diagnostics_scheme" where
  "LogEncoderError message s =
     (if diagnosticMutexHeld s \<or> diagnosticStopping s then s
      else (let q = (if length (pendingDiagnostics s) \<ge> kMaximumPendingDiagnostics
                     then tl (pendingDiagnostics s) else pendingDiagnostics s)
            in s\<lparr>pendingDiagnostics := q @ [message]\<rparr>))"

text \<open>\<open>threadCreated\<close> is whether the \<open>std::thread\<close> constructor returned instead of throwing.\<close>

definition StartDiagnosticReporter ::
  "bool \<Rightarrow> 'z diagnostics_scheme \<Rightarrow> bool \<times> 'z diagnostics_scheme" where
  "StartDiagnosticReporter threadCreated s = (threadCreated, s\<lparr>diagnosticStopping := False\<rparr>)"

definition StopDiagnosticReporter :: "'z diagnostics_scheme \<Rightarrow> 'z diagnostics_scheme" where
  "StopDiagnosticReporter s = s\<lparr>diagnosticStopping := True, pendingDiagnostics := []\<rparr>"

definition DiagnosticReporterLoop ::
  "int \<Rightarrow> 'z diagnostics_scheme \<Rightarrow> ('z diagnostics_scheme) loop" where
  "DiagnosticReporterLoop now s =
     (if \<not> (diagnosticStopping s \<or> pendingDiagnostics s \<noteq> []) then LoopWaits
      else if diagnosticStopping s then LoopReturns s
      else (let message = hd (pendingDiagnostics s);
                s = s\<lparr>pendingDiagnostics := tl (pendingDiagnostics s)\<rparr>
            in if message \<noteq> lastEncoderError s \<or> now - lastEncoderErrorAt s > 5000000000
               then LoopContinues (s\<lparr>consoleWarnings := (now, message) # consoleWarnings s,
                 lastEncoderError := message, lastEncoderErrorAt := now\<rparr>)
               else LoopContinues s))"

section \<open>Atomics shared by the threads\<close>

text \<open>
  \<open>controlWakeHost\<close> is \<open>controlWakeHost_ != nullptr\<close>, \<open>hostWakes\<close> counts the calls of
  \<open>CameraSourceControlHost::Wake\<close>, \<open>sensorUpdateRate\<close> is \<open>sensor_->UpdateRate()\<close>.
\<close>

record shared = diagnostics +
  forceKeyframe :: bool
  desiredActive :: bool
  rosConsumersActive :: bool
  controlWakeHost :: bool
  hostWakes :: nat
  sensorUpdateRate :: real

definition WakeControl :: "'z shared_scheme \<Rightarrow> 'z shared_scheme" where
  "WakeControl s = (if controlWakeHost s then s\<lparr>hostWakes := Suc (hostWakes s)\<rparr> else s)"

text \<open>\<open>std::max(0.1, static_cast<double>(sensor_->UpdateRate()))\<close>\<close>

definition frameRate :: "'z shared_scheme \<Rightarrow> real" where
  "frameRate s = max (1 / 10) (sensorUpdateRate s)"

lemma frameRate_pos: "0 < frameRate s"
  by (simp add: frameRate_def)

section \<open>The bounded queue and the rate limit\<close>

lemma LogEncoderError_frame [simp]:
  "diagnosticMutexHeld (LogEncoderError m s) = diagnosticMutexHeld s"
  "diagnosticStopping (LogEncoderError m s) = diagnosticStopping s"
  "lastEncoderError (LogEncoderError m s) = lastEncoderError s"
  "lastEncoderErrorAt (LogEncoderError m s) = lastEncoderErrorAt s"
  "consoleWarnings (LogEncoderError m s) = consoleWarnings s"
  "diagnostics.more (LogEncoderError m s) = diagnostics.more s"
  by (simp_all add: LogEncoderError_def Let_def)

lemma LogEncoderError_shared [simp]:
  "forceKeyframe (LogEncoderError m s) = forceKeyframe s"
  "desiredActive (LogEncoderError m s) = desiredActive s"
  "rosConsumersActive (LogEncoderError m s) = rosConsumersActive s"
  "controlWakeHost (LogEncoderError m s) = controlWakeHost s"
  "hostWakes (LogEncoderError m s) = hostWakes s"
  "sensorUpdateRate (LogEncoderError m s) = sensorUpdateRate s"
  "shared.more (LogEncoderError m s) = shared.more s"
  by (simp_all add: LogEncoderError_def Let_def)

text \<open>What the threads do to the reporter: a thread logs, or the worker goes round at a time.\<close>

datatype diag_event = Logs string | Reports int | Contended bool

fun diagStep :: "'z diagnostics_scheme \<Rightarrow> diag_event \<Rightarrow> 'z diagnostics_scheme" where
  "diagStep s (Logs m) = LogEncoderError m s"
| "diagStep s (Reports now) =
     (case DiagnosticReporterLoop now s of LoopContinues s' \<Rightarrow> s' | _ \<Rightarrow> s)"
| "diagStep s (Contended b) = s\<lparr>diagnosticMutexHeld := b\<rparr>"

definition diagRun :: "'z diagnostics_scheme \<Rightarrow> diag_event list \<Rightarrow> 'z diagnostics_scheme" where
  "diagRun = foldl diagStep"

text \<open>Equal neighbours on the console are more than five seconds apart.\<close>

fun spacedWarnings :: "(int \<times> string) list \<Rightarrow> bool" where
  "spacedWarnings ((t, m) # (u, n) # ws) \<longleftrightarrow>
     (m = n \<longrightarrow> t - u > 5000000000) \<and> spacedWarnings ((u, n) # ws)"
| "spacedWarnings ws \<longleftrightarrow> True"

definition diagInv :: "'z diagnostics_scheme \<Rightarrow> bool" where
  "diagInv s \<longleftrightarrow> length (pendingDiagnostics s) \<le> kMaximumPendingDiagnostics
     \<and> spacedWarnings (consoleWarnings s)
     \<and> (consoleWarnings s \<noteq> [] \<longrightarrow>
          hd (consoleWarnings s) = (lastEncoderErrorAt s, lastEncoderError s))"

lemma diagInv_LogEncoderError: "diagInv s \<Longrightarrow> diagInv (LogEncoderError m s)"
  by (auto simp: diagInv_def LogEncoderError_def Let_def kMaximumPendingDiagnostics_def)

lemma diagInv_report:
  assumes "diagInv s" and "DiagnosticReporterLoop now s = LoopContinues s'"
  shows "diagInv s'"
proof (cases "consoleWarnings s")
  case Nil
  with assms show ?thesis
    by (auto simp: diagInv_def DiagnosticReporterLoop_def Let_def split: if_splits)
next
  case (Cons w ws)
  with assms show ?thesis
    by (auto simp: diagInv_def DiagnosticReporterLoop_def Let_def split: if_splits)
qed

lemma diagInv_step: "diagInv s \<Longrightarrow> diagInv (diagStep s e)"
proof (cases e)
  case (Contended b)
  moreover assume "diagInv s"
  ultimately show ?thesis by (simp add: diagInv_def)
qed (auto simp: diagInv_LogEncoderError diagInv_report split: loop.split)

lemma diagInv_run: "diagInv s \<Longrightarrow> diagInv (diagRun s es)"
  by (induction es arbitrary: s) (simp_all add: diagRun_def diagInv_step)

text \<open>
  However the threads log and the reporter runs, the diagnostic queue never holds more than
  64 messages, and two consecutive console lines with the same text are more than five seconds
  apart; this holds from any state without pending messages and console lines, whatever the clock
  readings, contention on the lock included.
\<close>

theorem diagnostics_bounded_and_spaced:
  assumes "pendingDiagnostics s = []" and "consoleWarnings s = []"
  shows "length (pendingDiagnostics (diagRun s es)) \<le> 64
    \<and> spacedWarnings (consoleWarnings (diagRun s es))"
proof -
  have "diagInv s" using assms by (simp add: diagInv_def)
  then have "diagInv (diagRun s es)" by (rule diagInv_run)
  then show ?thesis by (simp add: diagInv_def kMaximumPendingDiagnostics_def)
qed

definition diagStart :: diagnostics where
  "diagStart = \<lparr>diagnosticMutexHeld = False, pendingDiagnostics = [], diagnosticStopping = False,
     lastEncoderError = [], lastEncoderErrorAt = 0, consoleWarnings = []\<rparr>"

theorem diagnostics_bounded_and_spaced_witness:
  "consoleWarnings (diagRun diagStart
     [Logs ''a'', Logs ''a'', Reports 1, Reports 2, Logs ''a'', Reports 6000000000])
     = [(6000000000, ''a''), (1, ''a'')]
   \<and> length (pendingDiagnostics (diagRun diagStart (replicate 100 (Logs ''a'')))) \<le> 64"
proof -
  have "pendingDiagnostics diagStart = []" "consoleWarnings diagStart = []"
    by (simp_all add: diagStart_def)
  from diagnostics_bounded_and_spaced [OF this]
  have "length (pendingDiagnostics (diagRun diagStart (replicate 100 (Logs ''a'')))) \<le> 64" by blast
  moreover have "consoleWarnings (diagRun diagStart
      [Logs ''a'', Logs ''a'', Reports 1, Reports 2, Logs ''a'', Reports 6000000000])
     = [(6000000000, ''a''), (1, ''a'')]"
    by code_simp
  ultimately show ?thesis by blast
qed

end
