(* ===== verification/Annex_B.thy ===== *)
theory Annex_B
  imports Prelude
begin

text \<open>
  \<open>SplitAnnexB\<close> of the media camera plugin: splitting an H264 Annex-B access unit into its NAL
  units. The code walks over a byte buffer with indices; the model keeps the indices and the two
  scanning loops, and the theorems relate them to the byte stream: every byte of the buffer is in
  a start code, in a reported NAL unit or in the skipped prefix, no reported NAL unit holds a
  start code, and a stream built from NAL units is split into exactly those units.
\<close>

section \<open>The code\<close>

definition startCodeLength :: "bytes \<Rightarrow> nat \<Rightarrow> nat" where
  "startCodeLength data offset =
     (if offset + 3 \<le> length data \<and> data ! offset = 0 \<and> data ! (offset + 1) = 0
         \<and> data ! (offset + 2) = 1 then 3
      else if offset + 4 \<le> length data \<and> data ! offset = 0 \<and> data ! (offset + 1) = 0
         \<and> data ! (offset + 2) = 0 \<and> data ! (offset + 3) = 1 then 4
      else 0)"

text \<open>The scan \<open>while (i < size && startCodeLength(i) == 0) ++i\<close>, which the code has twice.\<close>

function scanStartCode :: "bytes \<Rightarrow> nat \<Rightarrow> nat" where
  "scanStartCode data i =
     (if i < length data \<and> startCodeLength data i = 0 then scanStartCode data (Suc i) else i)"
  by pat_completeness auto
termination
  by (relation "measure (\<lambda>(data, i). length data - i)") auto

declare scanStartCode.simps [simp del]

lemma scanStartCode_ge: "i \<le> scanStartCode data i"
proof (induction data i rule: scanStartCode.induct)
  case (1 data i)
  then show ?case
    by (subst scanStartCode.simps) auto
qed

lemma startCodeLength_pos_cases:
  "startCodeLength data i \<noteq> 0 \<Longrightarrow> startCodeLength data i = 3 \<or> startCodeLength data i = 4"
  by (auto simp: startCodeLength_def split: if_splits)

text \<open>The main loop, from a position that the scan has reached.\<close>

function splitLoop :: "bytes \<Rightarrow> nat \<Rightarrow> bytes list" where
  "splitLoop data start =
     (if start < length data then
        (let prefix = startCodeLength data start in
         if prefix = 0 then []
         else (let payloadStart = start + prefix;
                   nxt = scanStartCode data payloadStart;
                   rest = splitLoop data nxt
               in if nxt > payloadStart
                  then take (nxt - payloadStart) (drop payloadStart data) # rest
                  else rest))
      else [])"
  by pat_completeness auto
termination
proof (relation "measure (\<lambda>(data, start). length data - start)", goal_cases)
  case 1
  show ?case by simp
next
  case (2 data start prefix payloadStart nxt)
  then show ?case
    using scanStartCode_ge [of payloadStart data] by simp
qed

declare splitLoop.simps [simp del]

definition SplitAnnexB :: "bytes \<Rightarrow> bytes list" where
  "SplitAnnexB data = splitLoop data (scanStartCode data 0)"

section \<open>The scan\<close>

lemma scanStartCode_le: "i \<le> length data \<Longrightarrow> scanStartCode data i \<le> length data"
proof (induction data i rule: scanStartCode.induct)
  case (1 data i)
  then show ?case
    by (subst scanStartCode.simps) auto
qed

lemma scanStartCode_skipped:
  "i \<le> k \<Longrightarrow> k < scanStartCode data i \<Longrightarrow> startCodeLength data k = 0"
proof (induction data i rule: scanStartCode.induct)
  case (1 data i)
  show ?case
  proof (cases "i < length data \<and> startCodeLength data i = 0")
    case True
    with 1 show ?thesis
      by (cases "k = i") (auto simp: scanStartCode.simps [of data i])
  next
    case False
    with "1.prems" show ?thesis
      by (simp add: scanStartCode.simps [of data i])
  qed
qed

lemma scanStartCode_stops:
  "scanStartCode data i < length data \<Longrightarrow> startCodeLength data (scanStartCode data i) \<noteq> 0"
proof (induction data i rule: scanStartCode.induct)
  case (1 data i)
  then show ?case
    by (cases "i < length data \<and> startCodeLength data i = 0")
      (auto simp: scanStartCode.simps [of data i])
qed

lemma scanStartCode_eqI:
  assumes "i \<le> j" and "j \<le> length data"
    and "\<And>k. i \<le> k \<Longrightarrow> k < j \<Longrightarrow> startCodeLength data k = 0"
    and stop: "j = length data \<or> startCodeLength data j \<noteq> 0"
  shows "scanStartCode data i = j"
proof (rule ccontr)
  assume neq: "scanStartCode data i \<noteq> j"
  show False
  proof (cases "scanStartCode data i < j")
    case True
    with assms(2) have "startCodeLength data (scanStartCode data i) \<noteq> 0"
      by (intro scanStartCode_stops) simp
    with assms(3) [OF scanStartCode_ge True] show False by simp
  next
    case False
    with neq have less: "j < scanStartCode data i" by simp
    from assms(1) less have "startCodeLength data j = 0" by (rule scanStartCode_skipped)
    moreover have "j < length data"
      using less scanStartCode_le [of i data] assms(1,2) by simp
    ultimately show False using stop by simp
  qed
qed

section \<open>Start codes in a piece of the buffer\<close>

lemma startCodeLength_fits: "startCodeLength data i \<noteq> 0 \<Longrightarrow> i + startCodeLength data i \<le> length data"
  by (auto simp: startCodeLength_def split: if_splits)

lemma startCodeLength_less: "startCodeLength data i \<noteq> 0 \<Longrightarrow> i < length data"
  by (auto simp: startCodeLength_def split: if_splits)

lemma startCodeLength_piece:
  "startCodeLength (take m (drop p data)) k \<noteq> 0 \<Longrightarrow> startCodeLength data (p + k) \<noteq> 0 \<and> k < m"
  by (auto simp: startCodeLength_def add.assoc split: if_splits)

text \<open>The two start codes.\<close>

definition startCodes :: "bytes set" where
  "startCodes = {[0, 0, 1], [0, 0, 0, 1]}"

lemma take_Suc_nth: "i < length xs \<Longrightarrow> take (Suc n) (drop i xs) = xs ! i # take n (drop (Suc i) xs)"
  by (simp add: Cons_nth_drop_Suc [symmetric])

lemma startCode_bytes:
  assumes "startCodeLength data i \<noteq> 0"
  shows "take (startCodeLength data i) (drop i data) \<in> startCodes"
proof (cases "startCodeLength data i = 3")
  case True
  then have "i + 3 \<le> length data" "data ! i = 0" "data ! (i + 1) = 0" "data ! (i + 2) = 1"
    by (auto simp: startCodeLength_def split: if_splits)
  then have "take 3 (drop i data) = [0, 0, 1]"
    by (simp add: numeral_eq_Suc take_Suc_nth)
  with True show ?thesis by (simp add: startCodes_def)
next
  case False
  with assms have four: "startCodeLength data i = 4"
    using startCodeLength_pos_cases by blast
  then have "i + 4 \<le> length data" "data ! i = 0" "data ! (i + 1) = 0" "data ! (i + 2) = 0"
    "data ! (i + 3) = 1"
    by (auto simp: startCodeLength_def split: if_splits)
  then have "take 4 (drop i data) = [0, 0, 0, 1]"
    by (simp add: numeral_eq_Suc take_Suc_nth)
  with four show ?thesis by (simp add: startCodes_def)
qed

lemma startCodeLength_at:
  "c \<in> startCodes \<Longrightarrow> startCodeLength (pre @ c @ rest) (length pre) = length c"
  by (auto simp: startCodes_def startCodeLength_def nth_append)

section \<open>What the splitter returns\<close>

text \<open>The positions the main loop is entered with: the end of the buffer, or a start code.\<close>

definition atStartCode :: "bytes \<Rightarrow> nat \<Rightarrow> bool" where
  "atStartCode data i \<longleftrightarrow> i \<le> length data \<and> (i < length data \<longrightarrow> startCodeLength data i \<noteq> 0)"

lemma atStartCode_scan: "i \<le> length data \<Longrightarrow> atStartCode data (scanStartCode data i)"
  by (simp add: atStartCode_def scanStartCode_le scanStartCode_stops)

lemma splitLoop_at_end [simp]: "splitLoop data (length data) = []"
  by (simp add: splitLoop.simps [of data "length data"])

lemma splitLoop_step:
  assumes "i < length data" and "startCodeLength data i = Suc p"
  shows "splitLoop data i =
    (let q = i + Suc p; j = scanStartCode data q
     in (if q < j then [take (j - q) (drop q data)] else []) @ splitLoop data j)"
  using assms by (simp add: splitLoop.simps [of data i] Let_def)

text \<open>
  Induction over the main loop: from a start code the loop reads the code, the payload up to the
  next position of the loop, and goes on there.
\<close>

lemma splitLoop_induct [consumes 1, case_names fin step]:
  assumes "atStartCode data i"
    and "\<And>i. i = length data \<Longrightarrow> P i"
    and "\<And>i p q j. i < length data \<Longrightarrow> startCodeLength data i = Suc p \<Longrightarrow> q = i + Suc p \<Longrightarrow>
      j = scanStartCode data q \<Longrightarrow> q \<le> j \<Longrightarrow> j \<le> length data \<Longrightarrow> P j \<Longrightarrow> P i"
  shows "P i"
  using assms(1)
proof (induction "length data - i" arbitrary: i rule: less_induct)
  case less
  show ?case
  proof (cases "i < length data")
    case False
    with less.prems assms(2) show ?thesis by (simp add: atStartCode_def)
  next
    case True
    with less.prems have "startCodeLength data i \<noteq> 0" by (simp add: atStartCode_def)
    then obtain p where p: "startCodeLength data i = Suc p"
      using not0_implies_Suc by blast
    let ?q = "i + Suc p" and ?j = "scanStartCode data (i + Suc p)"
    have q: "?q \<le> length data"
      using startCodeLength_fits [of data i] p by simp
    have j: "?q \<le> ?j" "?j \<le> length data"
      using q by (auto intro: scanStartCode_ge scanStartCode_le)
    have "P ?j"
      using j True atStartCode_scan [OF q] by (intro less.hyps) auto
    then show ?thesis by (rule assms(3) [OF True p refl refl j])
  qed
qed

lemma splitLoop_units:
  assumes "atStartCode data i" and "nal \<in> set (splitLoop data i)"
  shows "nal \<noteq> [] \<and> startCodeLength nal k = 0"
  using assms
proof (induction rule: splitLoop_induct)
  case (fin i)
  then show ?case by simp
next
  case (step i p q j)
  from step.prems step.hyps have
    "nal \<in> set (splitLoop data j) \<or> (q < j \<and> nal = take (j - q) (drop q data))"
    by (auto simp: splitLoop_step Let_def split: if_splits)
  then show ?case
  proof
    assume "nal \<in> set (splitLoop data j)"
    then show ?thesis by (rule step.IH)
  next
    assume new: "q < j \<and> nal = take (j - q) (drop q data)"
    have "startCodeLength nal k = 0"
    proof (rule ccontr)
      assume "startCodeLength nal k \<noteq> 0"
      with new have "startCodeLength data (q + k) \<noteq> 0" and "k < j - q"
        using startCodeLength_piece by blast+
      moreover from \<open>k < j - q\<close> step.hyps have "startCodeLength data (q + k) = 0"
        by (intro scanStartCode_skipped [of q]) auto
      ultimately show False by simp
    qed
    moreover from new step.hyps have "nal \<noteq> []" by simp
    ultimately show ?thesis by simp
  qed
qed

definition joinSegments :: "(bytes \<times> bytes) list \<Rightarrow> bytes" where
  "joinSegments segs = concat (map (\<lambda>(c, n). c @ n) segs)"

lemma joinSegments_simps [simp]:
  "joinSegments [] = []"
  "joinSegments ((c, n) # segs) = c @ n @ joinSegments segs"
  by (simp_all add: joinSegments_def)

lemma splitLoop_partition:
  assumes "atStartCode data i"
  shows "\<exists>segs. drop i data = joinSegments segs \<and> fst ` set segs \<subseteq> startCodes
    \<and> splitLoop data i = filter (\<lambda>n. n \<noteq> []) (map snd segs)"
  using assms
proof (induction rule: splitLoop_induct)
  case (fin i)
  then show ?case by (intro exI [of _ "[]"]) simp
next
  case (step i p q j)
  then obtain segs where segs: "drop j data = joinSegments segs" "fst ` set segs \<subseteq> startCodes"
    "splitLoop data j = filter (\<lambda>n. n \<noteq> []) (map snd segs)" by blast
  let ?c = "take (Suc p) (drop i data)" and ?n = "take (j - q) (drop q data)"
  have "?c \<in> startCodes"
    using startCode_bytes [of data i] step.hyps by simp
  moreover have "drop i data = ?c @ ?n @ drop j data"
    using step.hyps by (metis add.commute append_take_drop_id drop_drop le_add_diff_inverse2)
  moreover have "splitLoop data i = filter (\<lambda>n. n \<noteq> []) (map snd ((?c, ?n) # segs))"
    using step.hyps segs(3) by (auto simp: splitLoop_step Let_def)
  ultimately show ?case
    using segs by (intro exI [of _ "(?c, ?n) # segs"]) simp
qed

section \<open>Properties of the splitter\<close>

lemma atStartCode_first: "atStartCode data (scanStartCode data 0)"
  by (simp add: atStartCode_scan)

text \<open>
  Every NAL unit that \<open>SplitAnnexB\<close> reports is nonempty and holds no start code at any
  position, for every byte buffer.
\<close>

theorem SplitAnnexB_units:
  "\<forall>nal \<in> set (SplitAnnexB data). nal \<noteq> [] \<and> (\<forall>k. startCodeLength nal k = 0)"
  unfolding SplitAnnexB_def using splitLoop_units [OF atStartCode_first] by blast

theorem SplitAnnexB_units_witness:
  "[101, 7] \<in> set (SplitAnnexB [0, 0, 1, 101, 7, 0, 0, 0, 1, 9])
   \<and> startCodeLength [101, 7] 0 = 0"
proof -
  have member: "[101, 7] \<in> set (SplitAnnexB [0, 0, 1, 101, 7, 0, 0, 0, 1, 9])"
    by code_simp
  then show ?thesis using SplitAnnexB_units by blast
qed

text \<open>
  \<open>SplitAnnexB\<close> loses nothing but what lies before the first start code: the buffer is a
  prefix in which no start code begins, followed by segments of a start code and a payload, and
  the reported NAL units are the nonempty payloads in their order.
\<close>

theorem SplitAnnexB_partition:
  "\<exists>pre segs. data = pre @ joinSegments segs
     \<and> (\<forall>k < length pre. startCodeLength data k = 0)
     \<and> fst ` set segs \<subseteq> startCodes
     \<and> SplitAnnexB data = filter (\<lambda>n. n \<noteq> []) (map snd segs)"
proof -
  let ?i = "scanStartCode data 0"
  obtain segs where "drop ?i data = joinSegments segs" "fst ` set segs \<subseteq> startCodes"
    "splitLoop data ?i = filter (\<lambda>n. n \<noteq> []) (map snd segs)"
    using splitLoop_partition [OF atStartCode_first] by blast
  moreover have "\<forall>k < length (take ?i data). startCodeLength data k = 0"
    using scanStartCode_skipped [of 0 _ data] by simp
  ultimately show ?thesis
    by (intro exI [of _ "take ?i data"] exI [of _ segs])
      (metis SplitAnnexB_def append_take_drop_id)
qed

theorem SplitAnnexB_partition_witness:
  "SplitAnnexB [7, 0, 0, 1, 9, 0, 0, 1] = [[9]]
   \<and> (\<exists>pre segs. [7, 0, 0, 1, 9, 0, 0, 1] = pre @ joinSegments segs \<and> fst ` set segs \<subseteq> startCodes)"
proof -
  have "SplitAnnexB [7, 0, 0, 1, 9, 0, 0, 1] = [[9]]" by code_simp
  then show ?thesis using SplitAnnexB_partition [of "[7, 0, 0, 1, 9, 0, 0, 1]"] by blast
qed

text \<open>
  A well-formed stream: each NAL unit is nonempty, holds no start code and does not end in a zero
  byte (H264 forbids the trailing zero, because the next start code could absorb it).
\<close>

definition cleanNal :: "bytes \<Rightarrow> bool" where
  "cleanNal n \<longleftrightarrow> n \<noteq> [] \<and> (\<forall>k < length n. startCodeLength n k = 0) \<and> last n \<noteq> 0"

lemma cleanNal_inside:
  assumes "cleanNal n" and "k < length n"
  shows "startCodeLength (pre @ n @ rest) (length pre + k) = 0"
proof (rule ccontr)
  let ?d = "pre @ n @ rest" and ?i = "length pre + k" and ?m = "length n - 1"
  assume code: "startCodeLength ?d ?i \<noteq> 0"
  from assms have last: "?d ! (length pre + ?m) = last n" "last n \<noteq> 0" and "?m < length n"
    by (auto simp: cleanNal_def nth_append last_conv_nth)
  show False
  proof (cases "k + startCodeLength ?d ?i \<le> length n")
    case True
    have at: "?d ! (length pre + (k + j)) = n ! (k + j)" if "k + j < length n" for j
      using that by (simp add: nth_append)
    from code True have "startCodeLength n k \<noteq> 0"
      using at [of 0] at [of 1] at [of 2] at [of 3]
      by (auto simp: startCodeLength_def add.assoc split: if_splits)
    with assms show False by (simp add: cleanNal_def)
  next
    case False
    have zero: "?d ! (?i + j) = 0" if "j + 1 < startCodeLength ?d ?i" for j
    proof -
      from that code startCodeLength_pos_cases [OF code] have "j = 0 \<or> j = 1 \<or> j = 2" by auto
      with that show ?thesis
        by (auto simp: startCodeLength_def numeral_2_eq_2 split: if_splits)
    qed
    from False assms(2) have "(?m - k) + 1 < startCodeLength ?d ?i" by linarith
    then have "?d ! (?i + (?m - k)) = 0" by (rule zero)
    moreover have "?i + (?m - k) = length pre + ?m" using assms(2) by linarith
    ultimately show False using last by argo
  qed
qed

lemma joinSegments_starts:
  "fst ` set segs \<subseteq> startCodes \<Longrightarrow> atStartCode (pre @ joinSegments segs) (length pre)"
proof (cases segs)
  case Nil
  then show ?thesis by (simp add: atStartCode_def)
next
  case (Cons s rest)
  moreover obtain c n where "s = (c, n)" by (cases s)
  moreover assume "fst ` set segs \<subseteq> startCodes"
  ultimately have c: "c \<in> startCodes" and segs: "segs = (c, n) # rest" by auto
  from c have "length c \<noteq> 0" by (auto simp: startCodes_def)
  then show ?thesis
    unfolding atStartCode_def segs joinSegments_simps using startCodeLength_at [OF c] by simp
qed

lemma splitLoop_join:
  assumes "fst ` set segs \<subseteq> startCodes" and "\<forall>n \<in> snd ` set segs. cleanNal n"
  shows "splitLoop (pre @ joinSegments segs) (length pre) = map snd segs"
  using assms
proof (induction segs arbitrary: pre)
  case Nil
  then show ?case using splitLoop_at_end [of pre] by simp
next
  case (Cons s segs)
  obtain c n where s: "s = (c, n)" by (cases s)
  from Cons.prems s have c: "c \<in> startCodes" and n: "cleanNal n" by auto
  let ?d = "pre @ c @ n @ joinSegments segs" and ?q = "length pre + length c"
  have scan: "scanStartCode ?d ?q = ?q + length n"
  proof (rule scanStartCode_eqI)
    fix k assume "?q \<le> k" and "k < ?q + length n"
    then show "startCodeLength ?d k = 0"
      using cleanNal_inside [OF n, of "k - ?q" "pre @ c" "joinSegments segs"] by simp
  next
    show "?q + length n = length ?d \<or> startCodeLength ?d (?q + length n) \<noteq> 0"
      using joinSegments_starts [of segs "pre @ c @ n"] Cons.prems
      by (auto simp: atStartCode_def add.assoc)
  qed simp_all
  from c obtain p where p: "length c = Suc p" by (auto simp: startCodes_def)
  have start: "startCodeLength ?d (length pre) = Suc p"
    using startCodeLength_at [OF c, of pre "n @ joinSegments segs"] p by simp
  have "splitLoop ?d (length pre) = n # splitLoop ?d (?q + length n)"
    using start scan p n by (simp add: splitLoop_step Let_def cleanNal_def)
  also have "splitLoop ?d (?q + length n) = map snd segs"
    using Cons.IH [of "pre @ c @ n"] Cons.prems by (simp add: s add.assoc)
  finally show ?case by (simp add: s)
qed

text \<open>
  C10: Round trip: for any sequence of NAL units that are nonempty, hold no start code and do not
  end in a zero byte, written with three-byte or four-byte start codes in any mixture, the
  splitter returns exactly that sequence.
\<close>

theorem SplitAnnexB_join:
  assumes "fst ` set segs \<subseteq> startCodes" and "\<forall>n \<in> snd ` set segs. cleanNal n"
  shows "SplitAnnexB (joinSegments segs) = map snd segs"
proof -
  have "atStartCode (joinSegments segs) 0"
    using joinSegments_starts [of segs "[]"] assms by simp
  then have "scanStartCode (joinSegments segs) 0 = 0"
    by (subst scanStartCode.simps) (auto simp: atStartCode_def)
  then show ?thesis
    using splitLoop_join [OF assms, of "[]"] by (simp add: SplitAnnexB_def)
qed

theorem SplitAnnexB_join_witness:
  "SplitAnnexB [0, 0, 0, 1, 103, 66, 0, 0, 1, 101, 136] = [[103, 66], [101, 136]]"
proof -
  let ?segs = "[([0, 0, 0, 1], [103, 66]), ([0, 0, 1], [101, 136])] :: (bytes \<times> bytes) list"
  have codes: "fst ` set ?segs \<subseteq> startCodes" by (simp add: startCodes_def)
  have clean: "\<forall>n \<in> snd ` set ?segs. cleanNal n"
    by (auto simp: cleanNal_def startCodeLength_def)
  show ?thesis using SplitAnnexB_join [OF codes clean] by simp
qed

end
