(* ===== verification/RTP_Packets.thy ===== *)
theory RTP_Packets
  imports Annex_B
begin

text \<open>
  The RTP packetizer of the media camera plugin: \<open>AppendRTPPacket\<close> and the packetizing loops of
  \<open>SendH264AccessUnit\<close>. A NAL unit of at most 1200 bytes is one packet, a larger one is cut into
  FU-A fragments. The theorems bound the packets, place the marker bit, and show that a receiver
  that follows RFC 6184 gets back exactly the NAL units.
\<close>

section \<open>The code\<close>

definition kMaximumRtpPayloadBytes :: nat where "kMaximumRtpPayloadBytes = 1200"
definition kH264PayloadType :: u8 where "kH264PayloadType = 96"
definition kRtpClockRate :: nat where "kRtpClockRate = 90000"
definition kRtpSSRC :: u32 where "kRtpSSRC = 0x58474332"

text \<open>
  \<open>packet.bytes.resize(12 + payloadSize)\<close> zero fills, so bytes 2 and 3, where the pacer will
  write the sequence number, are zero here.
\<close>

definition rtpPacket :: "bytes \<Rightarrow> u32 \<Rightarrow> bool \<Rightarrow> bytes" where
  "rtpPacket payload timestamp marker =
     [0x80, kH264PayloadType OR (if marker then 0x80 else 0), 0, 0]
     @ be32 timestamp @ be32 kRtpSSRC @ payload"

definition AppendRTPPacket :: "bytes list \<Rightarrow> bytes \<Rightarrow> u32 \<Rightarrow> bool \<Rightarrow> bytes list option" where
  "AppendRTPPacket packets payload timestamp marker =
     (if payload = [] \<or> length payload > kMaximumRtpPayloadBytes then None
      else Some (packets @ [rtpPacket payload timestamp marker]))"

definition fragmentPayload :: nat where "fragmentPayload = kMaximumRtpPayloadBytes - 2"

text \<open>The fragmenting loop \<open>while (offset < nal.size())\<close>; \<open>None\<close> is its \<open>return false\<close>.\<close>

function fuLoop ::
  "bytes list \<Rightarrow> bytes \<Rightarrow> u8 \<Rightarrow> u8 \<Rightarrow> nat \<Rightarrow> bool \<Rightarrow> u32 \<Rightarrow> bool \<Rightarrow> bytes list option" where
  "fuLoop packets nal fuIndicator nalType offset first timestamp lastNAL =
     (if offset < length nal then
        (let count = min fragmentPayload (length nal - offset);
             final = (offset + count = length nal);
             fragment = [fuIndicator,
                         nalType OR (if first then 0x80 else 0) OR (if final then 0x40 else 0)]
                        @ take count (drop offset nal)
         in case AppendRTPPacket packets fragment timestamp (lastNAL \<and> final) of
              None \<Rightarrow> None
            | Some packets' \<Rightarrow>
                fuLoop packets' nal fuIndicator nalType (offset + count) False timestamp lastNAL)
      else Some packets)"
  by pat_completeness auto
termination
  by (relation "measure (\<lambda>(packets, nal, ind, ty, offset, rest). length nal - offset)")
    (auto simp: fragmentPayload_def kMaximumRtpPayloadBytes_def)

declare fuLoop.simps [simp del]

text \<open>The loop over the NAL units; \<open>lastNAL\<close> is \<open>index + 1 == nalUnits.size()\<close>.\<close>

fun packetizeLoop :: "bytes list \<Rightarrow> u32 \<Rightarrow> bytes list \<Rightarrow> bytes list option" where
  "packetizeLoop packets timestamp [] = Some packets"
| "packetizeLoop packets timestamp (nal # rest) =
     (let lastNAL = (rest = []) in
      if nal = [] then packetizeLoop packets timestamp rest
      else if length nal \<le> kMaximumRtpPayloadBytes then
        (case AppendRTPPacket packets nal timestamp lastNAL of
           None \<Rightarrow> None
         | Some packets' \<Rightarrow> packetizeLoop packets' timestamp rest)
      else
        (let nalHeader = hd nal;
             fuIndicator = (nalHeader AND 0xe0) OR 28;
             nalType = nalHeader AND 0x1f
         in case fuLoop packets nal fuIndicator nalType 1 True timestamp lastNAL of
              None \<Rightarrow> None
            | Some packets' \<Rightarrow> packetizeLoop packets' timestamp rest))"

definition isKeyframe :: "bytes list \<Rightarrow> bool" where
  "isKeyframe nalUnits = list_ex (\<lambda>nal. nal \<noteq> [] \<and> hd nal AND 0x1f = 5) nalUnits"

section \<open>The payloads a sequence of NAL units becomes\<close>

text \<open>
  The reference description: the payloads and marker bits, without packets, offsets or failures.
\<close>

function fuPlan :: "u8 \<Rightarrow> u8 \<Rightarrow> bool \<Rightarrow> bool \<Rightarrow> bytes \<Rightarrow> (bytes \<times> bool) list" where
  "fuPlan ind ty first lastNAL body =
     (if body = [] then []
      else (let rest = drop fragmentPayload body in
        (ind # (ty OR (if first then 0x80 else 0) OR (if rest = [] then 0x40 else 0))
           # take fragmentPayload body, lastNAL \<and> rest = [])
        # fuPlan ind ty False lastNAL rest))"
  by pat_completeness auto
termination
  by (relation "measure (\<lambda>(ind, ty, first, lastNAL, body). length body)")
    (auto simp: fragmentPayload_def kMaximumRtpPayloadBytes_def)

declare fuPlan.simps [simp del]

definition nalPlan :: "bytes \<Rightarrow> bool \<Rightarrow> (bytes \<times> bool) list" where
  "nalPlan nal lastNAL =
     (if nal = [] then []
      else if length nal \<le> kMaximumRtpPayloadBytes then [(nal, lastNAL)]
      else fuPlan ((hd nal AND 0xe0) OR 28) (hd nal AND 0x1f) True lastNAL (tl nal))"

fun rtpPlan :: "bytes list \<Rightarrow> (bytes \<times> bool) list" where
  "rtpPlan [] = []"
| "rtpPlan (nal # rest) = nalPlan nal (rest = []) @ rtpPlan rest"

definition planPackets :: "u32 \<Rightarrow> (bytes \<times> bool) list \<Rightarrow> bytes list" where
  "planPackets timestamp = map (\<lambda>(payload, marker). rtpPacket payload timestamp marker)"

lemma planPackets_simps [simp]:
  "planPackets t [] = []"
  "planPackets t (pm # ps) = rtpPacket (fst pm) t (snd pm) # planPackets t ps"
  "planPackets t (ps @ qs) = planPackets t ps @ planPackets t qs"
  by (simp_all add: planPackets_def split: prod.split)

lemma fuLoop_plan:
  "fuLoop packets nal ind ty offset first t lastNAL =
     Some (packets @ planPackets t (fuPlan ind ty first lastNAL (drop offset nal)))"
proof (induction "length nal - offset" arbitrary: packets offset first rule: less_induct)
  case less
  show ?case
  proof (cases "offset < length nal")
    case False
    then show ?thesis
      by (simp add: fuLoop.simps [of packets nal ind ty offset] fuPlan.simps [of ind ty first])
  next
    case True
    let ?count = "min fragmentPayload (length nal - offset)"
    let ?final = "offset + ?count = length nal"
    let ?fragment = "ind # (ty OR (if first then 0x80 else 0) OR (if ?final then 0x40 else 0))
      # take ?count (drop offset nal)"
    have pos: "0 < ?count"
      using True by (simp add: fragmentPayload_def kMaximumRtpPayloadBytes_def)
    have final: "?final \<longleftrightarrow> length nal \<le> offset + fragmentPayload" using True by auto
    have whole: "take ?count (drop offset nal) = take fragmentPayload (drop offset nal)"
      by (simp add: min_def)
    have next_body: "drop (offset + ?count) nal = drop (offset + fragmentPayload) nal"
      using True by (simp add: min_def)
    have short: "length ?fragment \<le> kMaximumRtpPayloadBytes"
      by (simp add: fragmentPayload_def kMaximumRtpPayloadBytes_def)
    have step: "fuLoop packets nal ind ty offset first t lastNAL =
      fuLoop (packets @ [rtpPacket ?fragment t (lastNAL \<and> ?final)]) nal ind ty
        (offset + ?count) False t lastNAL"
      using True short
      by (simp add: fuLoop.simps [of packets nal ind ty offset] AppendRTPPacket_def Let_def)
    also have "\<dots> = Some ((packets @ [rtpPacket ?fragment t (lastNAL \<and> ?final)])
      @ planPackets t (fuPlan ind ty False lastNAL (drop (offset + ?count) nal)))"
      using True pos by (intro less.hyps) simp
    also have "\<dots> = Some (packets @ planPackets t (fuPlan ind ty first lastNAL (drop offset nal)))"
      using True
      by (simp add: fuPlan.simps [of ind ty first lastNAL "drop offset nal"] Let_def final whole
          next_body add.commute)
    finally show ?thesis .
  qed
qed

text \<open>The packetizer never fails, and its packets are those of the plan.\<close>

lemma packetizeLoop_plan:
  "packetizeLoop packets t nals = Some (packets @ planPackets t (rtpPlan nals))"
proof (induction nals arbitrary: packets)
  case Nil
  then show ?case by simp
next
  case (Cons nal rest)
  then show ?case
    by (auto simp: Let_def nalPlan_def AppendRTPPacket_def fuLoop_plan drop_Suc)
qed

section \<open>Sizes, headers and the marker bit\<close>

lemma fuPlan_Nil [simp]: "fuPlan ind ty first lastNAL [] = []"
  by (simp add: fuPlan.simps [of ind ty first lastNAL])

lemma fuPlan_sizes:
  "pm \<in> set (fuPlan ind ty first lastNAL body) \<Longrightarrow>
     2 < length (fst pm) \<and> length (fst pm) \<le> kMaximumRtpPayloadBytes \<and> hd (fst pm) = ind"
proof (induction ind ty first lastNAL body rule: fuPlan.induct)
  case (1 ind ty first lastNAL body)
  then show ?case
    by (cases "body = []")
      (auto simp: fuPlan.simps [of ind ty first lastNAL body] Let_def fragmentPayload_def
        kMaximumRtpPayloadBytes_def)
qed

lemma rtpPlan_sizes:
  "pm \<in> set (rtpPlan nals) \<Longrightarrow> fst pm \<noteq> [] \<and> length (fst pm) \<le> kMaximumRtpPayloadBytes"
proof (induction nals)
  case Nil
  then show ?case by simp
next
  case (Cons nal rest)
  then show ?case
    using fuPlan_sizes [of pm] by (fastforce simp: nalPlan_def split: if_splits)
qed

lemma fuPlan_markers:
  "body \<noteq> [] \<Longrightarrow> map snd (fuPlan ind ty first lastNAL body) =
     replicate (length (fuPlan ind ty first lastNAL body) - 1) False @ [lastNAL]"
proof (induction ind ty first lastNAL body rule: fuPlan.induct)
  case (1 ind ty first lastNAL body)
  let ?rest = "drop fragmentPayload body"
  show ?case
  proof (cases "?rest = []")
    case True
    with "1.prems" show ?thesis
      by (simp add: fuPlan.simps [of ind ty first lastNAL body]
          fuPlan.simps [of ind ty False lastNAL "[]"] Let_def)
  next
    case False
    with "1.prems" "1.IH" [OF _ refl False]
    have IH: "map snd (fuPlan ind ty False lastNAL ?rest) =
      replicate (length (fuPlan ind ty False lastNAL ?rest) - 1) False @ [lastNAL]" by simp
    then have "fuPlan ind ty False lastNAL ?rest \<noteq> []" by auto
    with IH False "1.prems" show ?thesis
      by (simp add: fuPlan.simps [of ind ty first lastNAL body] Let_def
          flip: replicate_Suc)
  qed
qed

lemma nalPlan_markers:
  "nal \<noteq> [] \<Longrightarrow> nalPlan nal lastNAL \<noteq> [] \<and>
     map snd (nalPlan nal lastNAL) = replicate (length (nalPlan nal lastNAL) - 1) False @ [lastNAL]"
proof (cases "length nal \<le> kMaximumRtpPayloadBytes")
  case True
  moreover assume "nal \<noteq> []"
  ultimately show ?thesis by (simp add: nalPlan_def)
next
  case False
  then have "tl nal \<noteq> []" by (cases nal) (auto simp: kMaximumRtpPayloadBytes_def)
  from fuPlan_markers [OF this, of _ _ _ lastNAL] False show ?thesis
    by (auto simp: nalPlan_def) (metis list.map_disc_iff snoc_eq_iff_butlast)+
qed

lemma rtpPlan_markers:
  assumes "nals \<noteq> []" and "\<forall>nal \<in> set nals. nal \<noteq> []"
  shows "map snd (rtpPlan nals) = replicate (length (rtpPlan nals) - 1) False @ [True]"
  using assms
proof (induction nals)
  case Nil
  then show ?case by simp
next
  case (Cons nal rest)
  let ?p = "nalPlan nal (rest = [])"
  from Cons.prems nalPlan_markers [of nal "rest = []"]
  have p: "?p \<noteq> []" "map snd ?p = replicate (length ?p - 1) False @ [rest = []]" by auto
  show ?case
  proof (cases "rest = []")
    case True
    with p show ?thesis by simp
  next
    case False
    with Cons have IH: "map snd (rtpPlan rest) = replicate (length (rtpPlan rest) - 1) False @ [True]"
      by simp
    then have rest_plan: "rtpPlan rest \<noteq> []" by auto
    from p False have "map snd ?p = replicate (length ?p) False"
      by (simp add: replicate_append_same flip: replicate_Suc)
    with IH rest_plan p(1) show ?thesis
      by (cases "rtpPlan rest") (simp_all add: replicate_add [symmetric] add.commute)
  qed
qed

definition packetMarker :: "bytes \<Rightarrow> bool" where
  "packetMarker packet = bit (packet ! 1) 7"

lemma rtpPacket_marker [simp]: "packetMarker (rtpPacket payload t marker) = marker"
  by (simp add: packetMarker_def rtpPacket_def kH264PayloadType_def bit_simps)

lemma rtpPacket_payload [simp]: "drop 12 (rtpPacket payload t marker) = payload"
  by (simp add: rtpPacket_def be32_def)

lemma map_planPackets:
  "map packetMarker (planPackets t ps) = map snd ps"
  "map (drop 12) (planPackets t ps) = map fst ps"
  by (induction ps) simp_all

text \<open>
  C30: The packetizing loops never fail, and every packet they build has between 13 and 1212
  bytes, RTP version 2 without padding, extension or sources, payload type 96, the access unit's
  timestamp and the source's SSRC in network byte order, and a zero sequence field.
\<close>

theorem packetizeLoop_packets:
  "\<exists>packets. packetizeLoop [] timestamp nals = Some packets
     \<and> (\<forall>p \<in> set packets. 12 < length p \<and> length p \<le> 12 + kMaximumRtpPayloadBytes
          \<and> p ! 0 = 0x80 \<and> p ! 1 AND 0x7f = kH264PayloadType
          \<and> p ! 2 = 0 \<and> p ! 3 = 0
          \<and> read_be32 (drop 4 p) = timestamp \<and> read_be32 (drop 8 p) = kRtpSSRC)"
proof (intro exI conjI ballI)
  show "packetizeLoop [] timestamp nals = Some (planPackets timestamp (rtpPlan nals))"
    by (simp add: packetizeLoop_plan)
next
  fix p assume "p \<in> set (planPackets timestamp (rtpPlan nals))"
  then obtain payload marker where p: "p = rtpPacket payload timestamp marker"
    and "(payload, marker) \<in> set (rtpPlan nals)"
    by (auto simp: planPackets_def)
  with rtpPlan_sizes have sizes: "payload \<noteq> []" "length payload \<le> kMaximumRtpPayloadBytes"
    by fastforce+
  from p sizes show "12 < length p" and "length p \<le> 12 + kMaximumRtpPayloadBytes"
    and "p ! 0 = 0x80" and "p ! 2 = 0" and "p ! 3 = 0"
    by (simp_all add: rtpPacket_def)
  from p show "p ! 1 AND 0x7f = kH264PayloadType"
    by (simp add: rtpPacket_def kH264PayloadType_def)
  from p show "read_be32 (drop 4 p) = timestamp"
    using read_be32_be32 [of timestamp "be32 kRtpSSRC @ payload"] by (simp add: rtpPacket_def)
  from p show "read_be32 (drop 8 p) = kRtpSSRC"
    using read_be32_be32 [of kRtpSSRC payload] by (simp add: rtpPacket_def)
qed

theorem packetizeLoop_packets_witness:
  "\<exists>packets. packetizeLoop [] 3000 [replicate 1300 1] = Some packets
     \<and> (\<forall>p \<in> set packets. 12 < length p \<and> read_be32 (drop 4 p) = 3000)"
  using packetizeLoop_packets [of 3000 "[replicate 1300 1]"] by blast

text \<open>
  For the NAL units of an access unit the marker bit is set on the last packet and on no
  other packet.
\<close>

theorem packetizeLoop_marker:
  assumes "nals \<noteq> []" and "\<forall>nal \<in> set nals. nal \<noteq> []"
  shows "\<exists>packets. packetizeLoop [] timestamp nals = Some packets
     \<and> map packetMarker packets = replicate (length packets - 1) False @ [True]"
  using rtpPlan_markers [OF assms]
  by (simp add: packetizeLoop_plan map_planPackets) (simp add: planPackets_def)

theorem packetizeLoop_marker_witness:
  "\<exists>packets. packetizeLoop [] 0 [[103, 66], [101, 136]] = Some packets
     \<and> map packetMarker packets = replicate (length packets - 1) False @ [True]"
proof -
  have "[[103, 66], [101, 136]] \<noteq> ([] :: bytes list)"
    and "\<forall>nal \<in> set [[103, 66], [101, 136]]. nal \<noteq> ([] :: bytes)" by simp_all
  then show ?thesis by (rule packetizeLoop_marker)
qed

section \<open>The receiver's side\<close>

text \<open>
  A receiver in packetization mode 1 of RFC 6184, restricted to the two payload structures the
  source sends: single NAL unit packets and FU-A fragmentation units. The state is the NAL unit
  under reassembly; \<open>None\<close> as a result is a protocol error (a fragment without a start, a start
  inside a fragmented unit, both bits set, or a stream that ends inside a unit).
\<close>

fun receiveNals :: "bytes option \<Rightarrow> bytes list \<Rightarrow> bytes list option" where
  "receiveNals None [] = Some []"
| "receiveNals (Some partial) [] = None"
| "receiveNals st ((ind # payload) # rest) =
     (if ind AND 0x1f = 28 then
        (case payload of
           [] \<Rightarrow> None
         | fuHeader # fragment \<Rightarrow>
             (let s = bit fuHeader 7; e = bit fuHeader 6;
                  header = (ind AND 0xe0) OR (fuHeader AND 0x1f)
              in case st of
                   None \<Rightarrow> if s \<and> \<not> e then receiveNals (Some (header # fragment)) rest else None
                 | Some partial \<Rightarrow>
                     if s then None
                     else if e then map_option ((#) (partial @ fragment)) (receiveNals None rest)
                     else receiveNals (Some (partial @ fragment)) rest))
      else (case st of
              None \<Rightarrow> map_option ((#) (ind # payload)) (receiveNals None rest)
            | Some partial \<Rightarrow> None))"
| "receiveNals st ([] # rest) = None"

lemma u8_bits:
  fixes v w :: u8
  assumes "bit v 0 = bit w 0" "bit v 1 = bit w 1" "bit v 2 = bit w 2" "bit v 3 = bit w 3"
    "bit v 4 = bit w 4" "bit v 5 = bit w 5" "bit v 6 = bit w 6" "bit v 7 = bit w 7"
  shows "v = w"
proof (rule bit_word_eqI)
  fix n assume "n < LENGTH(8)"
  then have "n \<in> {0, 1, 2, 3, 4, 5, 6, 7}" by auto
  with assms show "bit v n = bit w n" by auto
qed

lemma fuIndicator_is_fu: "(((h :: u8) AND 0xe0) OR 28) AND 0x1f = 28"
  by (rule u8_bits) (simp_all add: bit_simps)

lemma fuHeader_bits:
  "bit (((h :: u8) AND 0x1f) OR (if s then 0x80 else 0) OR (if e then 0x40 else 0)) 7 = s"
  "bit (((h :: u8) AND 0x1f) OR (if s then 0x80 else 0) OR (if e then 0x40 else 0)) 6 = e"
  by (simp_all add: bit_simps)

lemma fuHeader_restores:
  "((((h :: u8) AND 0xe0) OR 28) AND 0xe0)
     OR (((h AND 0x1f) OR (if s then 0x80 else 0) OR (if e then 0x40 else 0)) AND 0x1f) = h"
  by (rule u8_bits) (auto simp: bit_simps)

lemma receive_fu_rest:
  assumes "ind AND 0x1f = (28 :: u8)" and "body \<noteq> []"
  shows "receiveNals (Some partial) (map fst (fuPlan ind (h AND 0x1f) False l body) @ more) =
    map_option ((#) (partial @ body)) (receiveNals None more)"
  using assms(2)
proof (induction "length body" arbitrary: partial body rule: less_induct)
  case less
  let ?rest = "drop fragmentPayload body"
  note unfold = fuPlan.simps [of ind "h AND 0x1f" False l body] Let_def assms(1)
  have bits: "\<not> bit ((h AND 0x1f) OR e) 7" if "\<not> bit e 7" for e :: u8
    using that by (simp add: bit_simps)
  show ?case
  proof (cases "?rest = []")
    case True
    with less.prems show ?thesis
      using fuHeader_bits [of h False True] by (simp add: unfold bits)
  next
    case False
    with less.prems have "length ?rest < length body"
      by (simp add: fragmentPayload_def kMaximumRtpPayloadBytes_def)
    from less.hyps [OF this False, of "partial @ take fragmentPayload body"] False less.prems
    show ?thesis
      using fuHeader_bits [of h False False] by (simp add: unfold bits)
  qed
qed

lemma receive_nalPlan:
  assumes "nal \<noteq> []" and "length nal \<le> kMaximumRtpPayloadBytes \<longrightarrow> hd nal AND 0x1f \<noteq> 28"
  shows "receiveNals None (map fst (nalPlan nal l) @ more) =
    map_option ((#) nal) (receiveNals None more)"
proof (cases "length nal \<le> kMaximumRtpPayloadBytes")
  case True
  with assms show ?thesis by (cases nal) (simp_all add: nalPlan_def)
next
  case False
  obtain h body where nal: "nal = h # body" using assms(1) by (cases nal) auto
  let ?ind = "(h AND 0xe0) OR 28 :: u8" and ?ty = "h AND 0x1f :: u8"
  let ?rest = "drop fragmentPayload body"
  from False nal have rest: "?rest \<noteq> []" and body: "body \<noteq> []"
    by (auto simp: fragmentPayload_def kMaximumRtpPayloadBytes_def)
  have "receiveNals None (map fst (nalPlan nal l) @ more) =
    receiveNals None ((?ind # (?ty OR 0x80) # take fragmentPayload body)
      # map fst (fuPlan ?ind ?ty False l ?rest) @ more)"
    using False nal rest body
    by (simp add: nalPlan_def fuPlan.simps [of ?ind ?ty True l body] Let_def)
  also have "\<dots> = receiveNals (Some (h # take fragmentPayload body))
    (map fst (fuPlan ?ind ?ty False l ?rest) @ more)"
    using fuHeader_bits [of h True False] fuHeader_restores [of h True False]
    by (simp add: fuIndicator_is_fu Let_def)
  also have "\<dots> = map_option ((#) nal) (receiveNals None more)"
    by (simp only: receive_fu_rest [OF fuIndicator_is_fu rest]) (simp add: nal)
  finally show ?thesis .
qed

lemma receive_rtpPlan:
  assumes "\<forall>nal \<in> set nals. nal \<noteq> []
    \<and> (length nal \<le> kMaximumRtpPayloadBytes \<longrightarrow> hd nal AND 0x1f \<noteq> 28)"
  shows "receiveNals None (map fst (rtpPlan nals)) = Some nals"
  using assms by (induction nals) (simp_all add: receive_nalPlan)

text \<open>
  C9: Round trip through RTP: a receiver of RFC 6184 that is given the payloads of the packets in
  order rebuilds exactly the NAL units, whatever their sizes, as long as no small unit has the
  reserved type 28 (FU-A), which no H264 encoder emits.
\<close>

theorem packetizeLoop_receive:
  assumes "\<forall>nal \<in> set nals. nal \<noteq> []
    \<and> (length nal \<le> kMaximumRtpPayloadBytes \<longrightarrow> hd nal AND 0x1f \<noteq> 28)"
  shows "\<exists>packets. packetizeLoop [] timestamp nals = Some packets
    \<and> receiveNals None (map (drop 12) packets) = Some nals"
  using receive_rtpPlan [OF assms] by (simp add: packetizeLoop_plan map_planPackets)

theorem packetizeLoop_receive_witness:
  "\<exists>packets. packetizeLoop [] 0 [[103, 66], 101 # replicate 3000 7] = Some packets
    \<and> receiveNals None (map (drop 12) packets) = Some [[103, 66], 101 # replicate 3000 7]"
proof -
  have "\<forall>nal \<in> set [[103, 66], 101 # replicate 3000 (7 :: u8)]. nal \<noteq> []
    \<and> (length nal \<le> kMaximumRtpPayloadBytes \<longrightarrow> hd nal AND 0x1f \<noteq> 28)"
    by (simp add: kMaximumRtpPayloadBytes_def)
  then show ?thesis by (rule packetizeLoop_receive)
qed

end
