(* ===== verification/Fenced_Queue.thy ===== *)
theory Fenced_Queue
  imports Prelude
begin

text \<open>
  The interface both transmit queues of the plugin implement: a queue whose items carry the
  generation under which they were queued, and whose clearing operations advance the generation.
  A consumer takes an item under the lock, works on it without the lock and compares the item's
  generation before it lets the item out. The locale states what the queue promises; its client
  lemmas say that an item taken before a clearing is recognised as stale after it.
\<close>

locale fenced_queue =
  fixes items :: "'s \<Rightarrow> 'a list"
    and stamp :: "'a \<Rightarrow> u64"
    and fence :: "'s \<Rightarrow> u64"
    and clear :: "'s \<Rightarrow> 's"
    and dequeue :: "'s \<Rightarrow> ('a \<times> 's) option"
  assumes clear_items: "items (clear s) = []"
    and clear_fence: "fence (clear s) = fence s + 1"
    and dequeue_items: "dequeue s = Some (a, s') \<Longrightarrow> items s = a # items s'"
    and dequeue_fence: "dequeue s = Some (a, s') \<Longrightarrow> fence s' = fence s"
begin

lemma clears_fence: "fence ((clear ^^ k) s) = fence s + of_nat k"
  by (induction k) (simp_all add: clear_fence algebra_simps)

lemma dequeued_stamp:
  assumes "\<forall>x \<in> set (items s). stamp x = fence s" and "dequeue s = Some (a, s')"
  shows "stamp a = fence s'" and "\<forall>x \<in> set (items s'). stamp x = fence s'"
  using assms dequeue_items [OF assms(2)] dequeue_fence [OF assms(2)] by simp_all

lemma stale_after_clears:
  assumes "\<forall>x \<in> set (items s). stamp x = fence s" and "dequeue s = Some (a, s')"
    and "0 < k" and "k < 2 ^ 64"
  shows "stamp a \<noteq> fence ((clear ^^ k) s')"
proof -
  have "stamp a = fence s'" by (rule dequeued_stamp(1) [OF assms(1,2)])
  moreover have "fence s' + of_nat k \<noteq> fence s'" by (rule word_add_of_nat_neq [OF assms(3,4)])
  ultimately show ?thesis by (simp add: clears_fence)
qed

end

end
