(* ===== verification/RTP_Pacer.thy ===== *)
theory RTP_Pacer
  imports Shared_State RTP_Packets Fenced_Queue
begin

text \<open>
  The RTP pacer: the queue of encoded access units between the render thread and the pacing
  thread (\<open>EnqueueRTPAccessUnit\<close>, \<open>ClearRTPQueue\<close>, \<open>StopRTPPacer\<close>), the pacing thread's loop and
  its batched transmission. Times are nanoseconds. The lemmas give the queue invariant (at most
  one pending access unit, its byte count, its generation), when a frame is accepted, the bounds
  of the pacing interval, and that an access unit leaves as a prefix of its packets, in order,
  with consecutive sequence numbers.
\<close>

section \<open>State\<close>

record access_unit =
  au_packets :: "bytes list"
  au_bytes :: nat
  au_generation :: u64
  au_framePeriod :: int

text \<open>
  \<open>rtpDatagrams\<close> is what was handed to \<open>sendto\<close>, in order; \<open>rtpWakeups\<close> are the times the pacing
  thread passed to \<open>sleep_until\<close>, in order.
\<close>

record rtp = shared +
  rtpSocket :: int
  rtpSequence :: u16
  rtpQueue :: "access_unit list"
  rtpPacerStopping :: bool
  rtpQueuedBytes :: nat
  rtpQueueGeneration :: u64
  rtpInFlight :: bool
  pacingBitrate :: int
  rtpDatagrams :: "bytes list"
  rtpWakeups :: "int list"

section \<open>The queue\<close>

definition kMinimumPacedQueueBytes :: nat where "kMinimumPacedQueueBytes = 256 * 1024"

text \<open>\<open>threadCreated\<close> is whether the \<open>std::thread\<close> constructor returned instead of throwing.\<close>

definition StartRTPPacer :: "bool \<Rightarrow> 'z rtp_scheme \<Rightarrow> bool \<times> 'z rtp_scheme" where
  "StartRTPPacer threadCreated s = (threadCreated, s\<lparr>rtpPacerStopping := False\<rparr>)"

definition ClearRTPQueue :: "'z rtp_scheme \<Rightarrow> 'z rtp_scheme" where
  "ClearRTPQueue s = s\<lparr>rtpQueue := [], rtpQueuedBytes := 0,
     rtpQueueGeneration := rtpQueueGeneration s + 1\<rparr>"

definition StopRTPPacer :: "'z rtp_scheme \<Rightarrow> 'z rtp_scheme" where
  "StopRTPPacer s = s\<lparr>rtpPacerStopping := True, rtpQueue := [], rtpQueuedBytes := 0,
     rtpQueueGeneration := rtpQueueGeneration s + 1\<rparr>"

text \<open>\<open>static_cast<std::size_t>(pacingBitrate_ / 8)\<close>: C division, then conversion to 64 bits.\<close>

definition MaximumPacedAccessUnitBytes :: "'z rtp_scheme \<Rightarrow> nat" where
  "MaximumPacedAccessUnitBytes s =
     max kMinimumPacedQueueBytes (nat ((pacingBitrate s sdiv 8) mod 2 ^ 64))"

definition packetBytes :: "bytes list \<Rightarrow> nat" where
  "packetBytes packets = sum_list (map length packets)"

text \<open>\<open>std::llround\<close> of a positive value is \<open>round\<close>; IEEE rounding of the quotient is not modelled.\<close>

definition framePeriod :: "'z rtp_scheme \<Rightarrow> int" where
  "framePeriod s = max 1 (round (1000000000 / frameRate s))"

definition EnqueueRTPAccessUnit ::
  "bytes list \<Rightarrow> bool \<Rightarrow> 'z rtp_scheme \<Rightarrow> bool \<times> 'z rtp_scheme" where
  "EnqueueRTPAccessUnit packets keyframe s =
     (if packets = [] then (False, s)
      else (let bytes = packetBytes packets in
        if rtpPacerStopping s then (False, s)
        else (let maximum = MaximumPacedAccessUnitBytes s;
                  s1 = (if keyframe \<and> rtpQueue s \<noteq> []
                        then s\<lparr>rtpQueue := [], rtpQueuedBytes := 0,
                               rtpQueueGeneration := rtpQueueGeneration s + 1\<rparr>
                        else s)
              in if \<not> keyframe \<and> rtpQueue s1 \<noteq> [] then
                   (False, LogEncoderError
                      ''live RTP fell behind; replacing stale deltas with a fresh IDR''
                      (s1\<lparr>rtpQueue := [], rtpQueuedBytes := 0,
                          rtpQueueGeneration := rtpQueueGeneration s1 + 1,
                          forceKeyframe := True\<rparr>))
                 else if \<not> keyframe \<and> bytes > maximum then
                   (False, LogEncoderError
                      ''delta frame exceeds the RTP latency budget; requesting an IDR''
                      (s1\<lparr>forceKeyframe := True\<rparr>))
                 else (let s2 = (if keyframe \<and> bytes > maximum
                                 then LogEncoderError
                                   ''IDR frame exceeds the paced RTP latency budget'' s1
                                 else s1);
                           accessUnit = \<lparr>au_packets = packets, au_bytes = bytes,
                             au_generation = rtpQueueGeneration s2,
                             au_framePeriod = framePeriod s2\<rparr>
                       in (True, s2\<lparr>rtpQueuedBytes := rtpQueuedBytes s2 + bytes,
                                    rtpQueue := rtpQueue s2 @ [accessUnit]\<rparr>)))))"

section \<open>Pacing\<close>

text \<open>The \<open>double\<close> arithmetic is real arithmetic here; the divisions by 4 are exact C divisions.\<close>

definition RTPAccessUnitSpread :: "access_unit \<Rightarrow> 'z rtp_scheme \<Rightarrow> int" where
  "RTPAccessUnitSpread accessUnit s =
     (let seconds = real (au_bytes accessUnit) * 8 / real_of_int (pacingBitrate s);
          configured = max 1 \<lceil>seconds * 1000000000\<rceil>;
          guard = min 4000000 (au_framePeriod accessUnit sdiv 4);
          frameBudget = max 1 (au_framePeriod accessUnit - guard)
      in min configured frameBudget)"

text \<open>
  \<open>sendto\<close> and \<open>strerror\<close> stand for the socket call: the result and the error text may depend on
  how many datagrams were handed over before. \<open>memcpy(packet.data() + 2, ...)\<close> writes the
  sequence number, most significant byte first.
\<close>

record socket_api =
  sock_sendto :: "nat \<Rightarrow> bytes \<Rightarrow> int"
  sock_strerror :: "nat \<Rightarrow> string"

definition stampSequence :: "u16 \<Rightarrow> bytes \<Rightarrow> bytes" where
  "stampSequence sequence packet = take 2 packet @ be16 sequence @ drop 4 packet"

definition SendPacedRTPPacket :: "socket_api \<Rightarrow> bytes \<Rightarrow> 'z rtp_scheme \<Rightarrow> 'z rtp_scheme" where
  "SendPacedRTPPacket net packet s =
     (if rtpSocket s < 0 \<or> packet = [] then s
      else (let sequence = rtpSequence s;
                stamped = stampSequence sequence packet;
                n = length (rtpDatagrams s);
                sent = sock_sendto net n stamped;
                s1 = s\<lparr>rtpSequence := sequence + 1, rtpDatagrams := rtpDatagrams s @ [stamped]\<rparr>
            in if sent \<noteq> int (length stamped)
               then LogEncoderError (''paced loopback RTP send failed: '' @ sock_strerror net n) s1
               else s1))"

definition kPacketBatchSize :: nat where "kPacketBatchSize = 32"

definition batchCount :: "access_unit \<Rightarrow> nat" where
  "batchCount accessUnit =
     (length (au_packets accessUnit) + kPacketBatchSize - 1) div kPacketBatchSize"

definition batchAt :: "nat \<Rightarrow> int \<Rightarrow> int \<Rightarrow> nat \<Rightarrow> int" where
  "batchAt count transmitAt spread batch =
     (if count = 1 then transmitAt + spread
      else transmitAt + spread * int batch div (int count - 1))"

definition batchPackets :: "access_unit \<Rightarrow> nat \<Rightarrow> bytes list" where
  "batchPackets accessUnit batch =
     (let begin = batch * kPacketBatchSize;
          stop = min (length (au_packets accessUnit)) (begin + kPacketBatchSize)
      in take (stop - begin) (drop begin (au_packets accessUnit)))"

text \<open>
  The transmission loop. While the pacing thread sleeps until \<open>batchAt\<close>, the other threads run:
  \<open>env batch\<close> is what they do to the state before batch \<open>batch\<close>. The loop returns as soon as it
  finds, under the lock, the pacer stopping or the queue's generation moved on.
\<close>

function sendBatches ::
  "socket_api \<Rightarrow> (nat \<Rightarrow> 'z rtp_scheme \<Rightarrow> 'z rtp_scheme) \<Rightarrow> access_unit \<Rightarrow> int \<Rightarrow> int \<Rightarrow> nat
     \<Rightarrow> 'z rtp_scheme \<Rightarrow> 'z rtp_scheme" where
  "sendBatches net env accessUnit transmitAt spread batch s =
     (if batch < batchCount accessUnit then
        (let deadline = batchAt (batchCount accessUnit) transmitAt spread batch;
             s1 = env batch (s\<lparr>rtpWakeups := rtpWakeups s @ [deadline]\<rparr>) in
         if rtpPacerStopping s1 \<or> au_generation accessUnit \<noteq> rtpQueueGeneration s1 then s1
         else sendBatches net env accessUnit transmitAt spread (Suc batch)
                (fold (SendPacedRTPPacket net) (batchPackets accessUnit batch) s1))
      else s)"
  by pat_completeness auto
termination
  by (relation "measure (\<lambda>(net, env, accessUnit, t, d, batch, s). batchCount accessUnit - batch)")
    auto

declare sendBatches.simps [simp del]

definition SendPacedRTPAccessUnit ::
  "socket_api \<Rightarrow> (nat \<Rightarrow> 'z rtp_scheme \<Rightarrow> 'z rtp_scheme) \<Rightarrow> access_unit \<Rightarrow> int \<Rightarrow> int
     \<Rightarrow> 'z rtp_scheme \<Rightarrow> 'z rtp_scheme" where
  "SendPacedRTPAccessUnit net env accessUnit transmitAt spread s =
     sendBatches net env accessUnit transmitAt spread 0 s"

definition takeRTPAccessUnit :: "'z rtp_scheme \<Rightarrow> (access_unit \<times> 'z rtp_scheme) option" where
  "takeRTPAccessUnit s =
     (case rtpQueue s of
        [] \<Rightarrow> None
      | accessUnit # rest \<Rightarrow>
          Some (accessUnit, s\<lparr>rtpQueue := rest,
            rtpQueuedBytes := rtpQueuedBytes s - au_bytes accessUnit, rtpInFlight := True\<rparr>))"


section \<open>The queue invariant\<close>

definition auOk :: "access_unit \<Rightarrow> bool" where
  "auOk au \<longleftrightarrow> au_packets au \<noteq> [] \<and> au_bytes au = packetBytes (au_packets au)
     \<and> 1 \<le> au_framePeriod au"

definition rtpInv :: "'z rtp_scheme \<Rightarrow> bool" where
  "rtpInv s \<longleftrightarrow> length (rtpQueue s) \<le> 1
     \<and> rtpQueuedBytes s = sum_list (map au_bytes (rtpQueue s))
     \<and> (\<forall>au \<in> set (rtpQueue s). auOk au \<and> au_generation au = rtpQueueGeneration s)
     \<and> (rtpPacerStopping s \<longrightarrow> rtpQueue s = [])"

declare rtpInv_def [cam_inv]

lemma LogEncoderError_rtp [simp]:
  "rtpSocket (LogEncoderError m s) = rtpSocket s"
  "rtpSequence (LogEncoderError m s) = rtpSequence s"
  "rtpQueue (LogEncoderError m s) = rtpQueue s"
  "rtpPacerStopping (LogEncoderError m s) = rtpPacerStopping s"
  "rtpQueuedBytes (LogEncoderError m s) = rtpQueuedBytes s"
  "rtpQueueGeneration (LogEncoderError m s) = rtpQueueGeneration s"
  "rtpInFlight (LogEncoderError m s) = rtpInFlight s"
  "pacingBitrate (LogEncoderError m s) = pacingBitrate s"
  "rtpDatagrams (LogEncoderError m s) = rtpDatagrams s"
  "rtpWakeups (LogEncoderError m s) = rtpWakeups s"
  "rtp.more (LogEncoderError m s) = rtp.more s"
  by (simp_all add: LogEncoderError_def Let_def)

lemma framePeriod_pos: "1 \<le> framePeriod s"
  by (simp add: framePeriod_def)

lemma rtpInv_Clear: "rtpInv (ClearRTPQueue s)"
  by (simp add: rtpInv_def ClearRTPQueue_def)

lemma rtpInv_Stop: "rtpInv (StopRTPPacer s)"
  by (simp add: rtpInv_def StopRTPPacer_def)

lemma rtpInv_Enqueue: "rtpInv s \<Longrightarrow> rtpInv (snd (EnqueueRTPAccessUnit packets keyframe s))"
  by (auto simp: rtpInv_def EnqueueRTPAccessUnit_def Let_def auOk_def framePeriod_pos)

lemma rtpInv_take:
  "rtpInv s \<Longrightarrow> takeRTPAccessUnit s = Some (au, s') \<Longrightarrow>
     rtpInv s' \<and> auOk au \<and> au_generation au = rtpQueueGeneration s' \<and> rtpQueue s' = []
     \<and> au_bytes au \<le> rtpQueuedBytes s"
  by (auto simp: rtpInv_def takeRTPAccessUnit_def split: list.splits)


text \<open>The operations of the render and control threads on the queue, and runs of them.\<close>

datatype rtp_op = REnqueue "bytes list" bool | RClear | RStop | RTake

fun rtpOp :: "rtp_op \<Rightarrow> 'z rtp_scheme \<Rightarrow> 'z rtp_scheme" where
  "rtpOp (REnqueue packets keyframe) s = snd (EnqueueRTPAccessUnit packets keyframe s)"
| "rtpOp RClear s = ClearRTPQueue s"
| "rtpOp RStop s = StopRTPPacer s"
| "rtpOp RTake s = (case takeRTPAccessUnit s of None \<Rightarrow> s | Some (au, s') \<Rightarrow> s')"

lemma rtpInv_op: "rtpInv s \<Longrightarrow> rtpInv (rtpOp op s)"
  by (cases op) (auto simp: rtpInv_Clear rtpInv_Stop rtpInv_Enqueue dest: rtpInv_take
      split: option.split)

lemma rtpInv_ops: "rtpInv s \<Longrightarrow> rtpInv (fold rtpOp ops s)"
  by (induction ops arbitrary: s) (simp_all add: rtpInv_op)

text \<open>
  C26: From an empty queue, whatever sequence of enqueue, clear, stop and take operations the
  threads perform, at most one access unit is pending, the byte counter is exactly the size of
  what is pending (so the subtraction on a take never wraps below zero), every pending unit
  carries the queue's current generation, and a stopped pacer holds nothing.
\<close>

theorem rtp_queue_invariant:
  assumes "rtpQueue s = []" and "rtpQueuedBytes s = 0"
  shows "rtpInv (fold rtpOp ops s)"
  using assms by (intro rtpInv_ops) (simp add: rtpInv_def)

definition rtpStart :: rtp where
  "rtpStart = \<lparr>diagnosticMutexHeld = False, pendingDiagnostics = [], diagnosticStopping = False,
     lastEncoderError = [], lastEncoderErrorAt = 0, consoleWarnings = [], forceKeyframe = False,
     desiredActive = True, rosConsumersActive = False, controlWakeHost = True, hostWakes = 0,
     sensorUpdateRate = 30, rtpSocket = 5, rtpSequence = 65535, rtpQueue = [],
     rtpPacerStopping = False, rtpQueuedBytes = 0, rtpQueueGeneration = 0, rtpInFlight = False,
     pacingBitrate = 72000000, rtpDatagrams = [], rtpWakeups = []\<rparr>"

theorem rtp_queue_invariant_witness:
  "rtpInv (fold rtpOp [REnqueue [[1, 2]] True, REnqueue [[3]] True, RTake, RStop] rtpStart)"
  by (rule rtp_queue_invariant) (simp_all add: rtpStart_def)

section \<open>Which frames are accepted\<close>

text \<open>
  While the pacer runs, a keyframe is always accepted and a delta frame exactly when nothing is
  pending and it fits the latency budget. An accepted frame is the only pending one. A rejected
  frame leaves the queue empty and requests an IDR, so the frame that is sent next starts a
  decodable sequence. Whatever was pending is discarded under a new generation.
\<close>

theorem EnqueueRTPAccessUnit_accepts:
  assumes "rtpInv s" and "\<not> rtpPacerStopping s" and "packets \<noteq> []"
    and "EnqueueRTPAccessUnit packets keyframe s = (ok, s')"
  shows "ok = (keyframe \<or> (rtpQueue s = [] \<and> packetBytes packets \<le> MaximumPacedAccessUnitBytes s))
    \<and> (ok \<longrightarrow> map au_packets (rtpQueue s') = [packets] \<and> forceKeyframe s' = forceKeyframe s)
    \<and> (\<not> ok \<longrightarrow> rtpQueue s' = [] \<and> forceKeyframe s')
    \<and> rtpQueueGeneration s' = rtpQueueGeneration s + (if rtpQueue s = [] then 0 else 1)"
  using assms
  by (cases keyframe; cases "rtpQueue s = []"; cases "packetBytes packets \<le> MaximumPacedAccessUnitBytes s")
    (auto simp: EnqueueRTPAccessUnit_def Let_def not_le rtpInv_def)

theorem EnqueueRTPAccessUnit_accepts_witness:
  "fst (EnqueueRTPAccessUnit [[3]] False (snd (EnqueueRTPAccessUnit [[1, 2]] True rtpStart))) = False
   \<and> rtpQueue (snd (EnqueueRTPAccessUnit [[3]] False
       (snd (EnqueueRTPAccessUnit [[1, 2]] True rtpStart)))) = []"
proof -
  let ?s = "snd (EnqueueRTPAccessUnit [[1, 2]] True rtpStart)"
  have inv: "rtpInv ?s" by (intro rtpInv_Enqueue) (simp add: rtpInv_def rtpStart_def)
  have run: "\<not> rtpPacerStopping ?s" and queue: "rtpQueue ?s \<noteq> []"
    by (simp_all add: EnqueueRTPAccessUnit_def rtpStart_def Let_def)
  have packets: "[[3]] \<noteq> ([] :: bytes list)" by simp
  obtain ok s' where enq: "EnqueueRTPAccessUnit [[3]] False ?s = (ok, s')" by force
  show ?thesis
    using EnqueueRTPAccessUnit_accepts [OF inv run packets enq] queue enq by auto
qed

section \<open>Transmission\<close>

fun stampAll :: "u16 \<Rightarrow> bytes list \<Rightarrow> bytes list" where
  "stampAll sequence [] = []"
| "stampAll sequence (p # ps) = stampSequence sequence p # stampAll (sequence + 1) ps"

lemma stampAll_append:
  "stampAll q (ps @ rs) = stampAll q ps @ stampAll (q + of_nat (length ps)) rs"
  by (induction ps arbitrary: q) (simp_all add: algebra_simps)

lemma SendPacedRTPPacket_frame [simp]:
  "rtpSocket (SendPacedRTPPacket net p s) = rtpSocket s"
  "rtpPacerStopping (SendPacedRTPPacket net p s) = rtpPacerStopping s"
  "rtpQueueGeneration (SendPacedRTPPacket net p s) = rtpQueueGeneration s"
  "rtpQueue (SendPacedRTPPacket net p s) = rtpQueue s"
  "rtpWakeups (SendPacedRTPPacket net p s) = rtpWakeups s"
  by (simp_all add: SendPacedRTPPacket_def Let_def)

lemma send_fold_frame [simp]:
  "rtpSocket (fold (SendPacedRTPPacket net) ps s) = rtpSocket s"
  "rtpPacerStopping (fold (SendPacedRTPPacket net) ps s) = rtpPacerStopping s"
  "rtpQueueGeneration (fold (SendPacedRTPPacket net) ps s) = rtpQueueGeneration s"
  "rtpQueue (fold (SendPacedRTPPacket net) ps s) = rtpQueue s"
  "rtpWakeups (fold (SendPacedRTPPacket net) ps s) = rtpWakeups s"
  by (induction ps arbitrary: s) simp_all

lemma send_fold:
  assumes "0 \<le> rtpSocket s" and "\<forall>p \<in> set ps. p \<noteq> []"
  shows "rtpDatagrams (fold (SendPacedRTPPacket net) ps s)
           = rtpDatagrams s @ stampAll (rtpSequence s) ps
       \<and> rtpSequence (fold (SendPacedRTPPacket net) ps s) = rtpSequence s + of_nat (length ps)"
  using assms
proof (induction ps arbitrary: s)
  case Nil
  then show ?case by simp
next
  case (Cons p ps)
  then have "rtpDatagrams (SendPacedRTPPacket net p s) = rtpDatagrams s @ [stampSequence (rtpSequence s) p]"
    and "rtpSequence (SendPacedRTPPacket net p s) = rtpSequence s + 1"
    by (simp_all add: SendPacedRTPPacket_def Let_def)
  with Cons show ?case by (simp add: algebra_simps)
qed

lemma batchPackets_take:
  "batchPackets au b = take kPacketBatchSize (drop (b * kPacketBatchSize) (au_packets au))"
  by (cases "b * kPacketBatchSize \<le> length (au_packets au)")
    (auto simp: batchPackets_def Let_def min_def)

lemma all_batches: "length (au_packets au) \<le> batchCount au * kPacketBatchSize"
  unfolding batchCount_def kPacketBatchSize_def by presburger

text \<open>
  What the other threads may do while the pacing thread sleeps: anything but touch the socket, the
  sequence counter and the record of what was sent, which only the pacing thread uses.
\<close>

definition pacerPrivate :: "('z rtp_scheme \<Rightarrow> 'z rtp_scheme) \<Rightarrow> bool" where
  "pacerPrivate f \<longleftrightarrow> (\<forall>s. rtpSocket (f s) = rtpSocket s \<and> rtpSequence (f s) = rtpSequence s
     \<and> rtpDatagrams (f s) = rtpDatagrams s \<and> rtpWakeups (f s) = rtpWakeups s)"

lemma pacerPrivateD:
  assumes "pacerPrivate f"
  shows "rtpSocket (f s) = rtpSocket s" "rtpSequence (f s) = rtpSequence s"
    "rtpDatagrams (f s) = rtpDatagrams s" "rtpWakeups (f s) = rtpWakeups s"
  using assms by (simp_all add: pacerPrivate_def)

lemma rtpOp_private: "op \<noteq> RTake \<Longrightarrow> pacerPrivate (rtpOp op)"
  by (cases op)
    (simp_all add: pacerPrivate_def EnqueueRTPAccessUnit_def ClearRTPQueue_def StopRTPPacer_def Let_def)

lemma batch_sent:
  assumes "pacerPrivate f" and "0 \<le> rtpSocket s" and "\<forall>p \<in> set (au_packets au). p \<noteq> []"
    and "s2 = fold (SendPacedRTPPacket net) (batchPackets au b) (f (s\<lparr>rtpWakeups := w\<rparr>))"
  shows "rtpDatagrams s2 = rtpDatagrams s @ stampAll (rtpSequence s) (batchPackets au b)"
    and "rtpSequence s2 = rtpSequence s + of_nat (length (batchPackets au b))"
    and "rtpWakeups s2 = w" and "0 \<le> rtpSocket s2"
proof -
  have "\<forall>p \<in> set (batchPackets au b). p \<noteq> []"
    using assms(3) by (auto simp: batchPackets_take dest!: in_set_takeD in_set_dropD)
  then show "rtpDatagrams s2 = rtpDatagrams s @ stampAll (rtpSequence s) (batchPackets au b)"
    and "rtpSequence s2 = rtpSequence s + of_nat (length (batchPackets au b))"
    using send_fold [of "f (s\<lparr>rtpWakeups := w\<rparr>)" "batchPackets au b" net] assms(2,4)
    by (simp_all add: pacerPrivateD [OF assms(1)])
  show "rtpWakeups s2 = w" and "0 \<le> rtpSocket s2"
    using assms(2,4) by (simp_all add: pacerPrivateD [OF assms(1)])
qed

lemma sendBatches_prefix:
  assumes "\<forall>b. pacerPrivate (env b)" and "0 \<le> rtpSocket s" and "\<forall>p \<in> set (au_packets au). p \<noteq> []"
    and "batch \<le> batchCount au"
    and "s' = sendBatches net env au t d batch s"
  shows "\<exists>b. batch \<le> b \<and> b \<le> batchCount au
    \<and> rtpDatagrams s' = rtpDatagrams s @ stampAll (rtpSequence s)
        (take ((b - batch) * kPacketBatchSize) (drop (batch * kPacketBatchSize) (au_packets au)))
    \<and> rtpWakeups s' = rtpWakeups s @ map (batchAt (batchCount au) t d)
        [batch ..< min (batchCount au) (Suc b)]
    \<and> (b < batchCount au \<longrightarrow>
         rtpPacerStopping s' \<or> au_generation au \<noteq> rtpQueueGeneration s')"
  using assms(2,4,5)
proof (induction "batchCount au - batch" arbitrary: batch s)
  case 0
  then show ?case
    by (intro exI [of _ batch]) (simp add: sendBatches.simps [of net env au t d batch s])
next
  case (Suc n)
  let ?w = "rtpWakeups s @ [batchAt (batchCount au) t d batch]"
  let ?s1 = "env batch (s\<lparr>rtpWakeups := ?w\<rparr>)"
  let ?s2 = "fold (SendPacedRTPPacket net) (batchPackets au batch) ?s1"
  have n: "n = batchCount au - Suc batch" and more: "Suc batch \<le> batchCount au"
    using Suc.hyps(2) by simp_all
  show ?case
  proof (cases "rtpPacerStopping ?s1 \<or> au_generation au \<noteq> rtpQueueGeneration ?s1")
    case True
    with more Suc.prems(3) have "s' = ?s1"
      by (simp add: sendBatches.simps [of net env au t d batch s])
    with True more show ?thesis
      by (intro exI [of _ batch]) (auto simp: pacerPrivateD [OF assms(1) [rule_format]])
  next
    case False
    with more Suc.prems(3) have s': "s' = sendBatches net env au t d (Suc batch) ?s2"
      by (simp add: sendBatches.simps [of net env au t d batch s] Let_def)
    note sent = batch_sent [OF assms(1) [rule_format] Suc.prems(1) assms(3) refl, of net batch batch ?w]
    from Suc.hyps(1) [OF n sent(4) more s'] obtain b where
      b: "Suc batch \<le> b" "b \<le> batchCount au"
      "rtpDatagrams s' = rtpDatagrams ?s2 @ stampAll (rtpSequence ?s2)
        (take ((b - Suc batch) * kPacketBatchSize)
          (drop (Suc batch * kPacketBatchSize) (au_packets au)))"
      "rtpWakeups s' = rtpWakeups ?s2 @ map (batchAt (batchCount au) t d)
        [Suc batch ..< min (batchCount au) (Suc b)]"
      "b < batchCount au \<longrightarrow> rtpPacerStopping s' \<or> au_generation au \<noteq> rtpQueueGeneration s'"
      by (elim exE conjE)
    have split: "(b - batch) * kPacketBatchSize = kPacketBatchSize + (b - Suc batch) * kPacketBatchSize"
      using b(1) by (metis Suc_diff_le add_diff_cancel_left' diff_Suc_Suc le_Suc_ex mult_Suc)
    have "rtpDatagrams s' = rtpDatagrams s @ stampAll (rtpSequence s)
        (take ((b - batch) * kPacketBatchSize) (drop (batch * kPacketBatchSize) (au_packets au)))"
      unfolding b(3) sent split
      by (simp add: stampAll_append batchPackets_take take_add add.commute)
    moreover have "rtpWakeups s' = rtpWakeups s @ map (batchAt (batchCount au) t d)
        [batch ..< min (batchCount au) (Suc b)]"
      using b(1) more by (simp add: b(4) pacerPrivateD(4) [OF assms(1) [rule_format]] upt_conv_Cons)
    ultimately show ?thesis using b by (intro exI [of _ b]) simp
  qed
qed

text \<open>
  C11: Whatever the other threads do while the pacing thread sleeps, an access unit leaves as a
  prefix of its packets that is cut at a 32-packet boundary, in order, each packet stamped with
  the next sequence number (modulo 65536); it leaves in full unless the pacer was stopped or the
  queue's generation moved on, and then nothing more of it is sent.
\<close>

theorem SendPacedRTPAccessUnit_prefix:
  assumes "\<forall>b. pacerPrivate (env b)" and "0 \<le> rtpSocket s"
    and "\<forall>p \<in> set (au_packets au). p \<noteq> []"
    and "s' = SendPacedRTPAccessUnit net env au t d s"
  shows "\<exists>b. rtpDatagrams s' = rtpDatagrams s
        @ stampAll (rtpSequence s) (take (b * kPacketBatchSize) (au_packets au))
    \<and> (take (b * kPacketBatchSize) (au_packets au) = au_packets au
       \<or> rtpPacerStopping s' \<or> au_generation au \<noteq> rtpQueueGeneration s')"
proof -
  from sendBatches_prefix [OF assms(1-3) le0 assms(4) [unfolded SendPacedRTPAccessUnit_def]]
  obtain b where b: "b \<le> batchCount au"
    "rtpDatagrams s' = rtpDatagrams s
        @ stampAll (rtpSequence s) (take (b * kPacketBatchSize) (au_packets au))"
    "b < batchCount au \<longrightarrow> rtpPacerStopping s' \<or> au_generation au \<noteq> rtpQueueGeneration s'"
    by auto
  have "b = batchCount au \<Longrightarrow> take (b * kPacketBatchSize) (au_packets au) = au_packets au"
    using all_batches [of au] by simp
  with b show ?thesis by (intro exI [of _ b]) auto
qed

definition demoUnit :: access_unit where
  "demoUnit = \<lparr>au_packets = replicate 40 [0x80, 96, 0, 0, 1], au_bytes = 200, au_generation = 0,
     au_framePeriod = 33333333\<rparr>"

definition loopback :: socket_api where
  "loopback = \<lparr>sock_sendto = (\<lambda>n p. int (length p)), sock_strerror = (\<lambda>n. [])\<rparr>"

theorem SendPacedRTPAccessUnit_prefix_witness:
  "\<exists>b. rtpDatagrams (SendPacedRTPAccessUnit loopback (\<lambda>b. if b = 1 then ClearRTPQueue else id)
          demoUnit 0 9 rtpStart)
       = stampAll 65535 (take (b * kPacketBatchSize) (au_packets demoUnit))"
proof -
  have env: "\<forall>b. pacerPrivate ((\<lambda>b :: nat. if b = 1 then ClearRTPQueue else id) b :: rtp \<Rightarrow> rtp)"
    by (auto simp: pacerPrivate_def ClearRTPQueue_def)
  have socket: "0 \<le> rtpSocket rtpStart" by (simp add: rtpStart_def)
  have packets: "\<forall>p \<in> set (au_packets demoUnit). p \<noteq> []" by (auto simp: demoUnit_def)
  show ?thesis
    using SendPacedRTPAccessUnit_prefix [OF env socket packets refl, of loopback 0 9]
    by (auto simp: rtpStart_def)
qed



section \<open>The pacing interval\<close>

text \<open>
  For a positive pacing bitrate and a frame period of at least four nanoseconds, the pacing
  interval is positive, no longer than the time the unit takes at the pacing bitrate (rounded up,
  at least one nanosecond), and leaves at least the smaller of four milliseconds and a quarter of
  the frame period free, so that a unit ends inside its own frame period.
\<close>

theorem RTPAccessUnitSpread_bounds:
  assumes "4 \<le> au_framePeriod au"
  shows "1 \<le> RTPAccessUnitSpread au s
    \<and> RTPAccessUnitSpread au s
        \<le> max 1 \<lceil>real (au_bytes au) * 8 / real_of_int (pacingBitrate s) * 1000000000\<rceil>
    \<and> RTPAccessUnitSpread au s + min 4000000 (au_framePeriod au div 4) \<le> au_framePeriod au
    \<and> RTPAccessUnitSpread au s < au_framePeriod au"
proof -
  have quarter: "au_framePeriod au sdiv 4 = au_framePeriod au div 4"
    using assms by (simp add: signed_divide_int_def)
  have "1 \<le> au_framePeriod au div 4" using assms by linarith
  moreover have "au_framePeriod au div 4 < au_framePeriod au" using assms by linarith
  ultimately show ?thesis
    using assms by (simp add: RTPAccessUnitSpread_def quarter Let_def min_def max_def)
qed

theorem RTPAccessUnitSpread_bounds_witness:
  "1 \<le> RTPAccessUnitSpread demoUnit rtpStart \<and> RTPAccessUnitSpread demoUnit rtpStart < 33333333"
  using RTPAccessUnitSpread_bounds [of demoUnit rtpStart] by (simp add: demoUnit_def)

lemma batchAt_first_last:
  "1 < n \<Longrightarrow> batchAt n t d 0 = t" "1 \<le> n \<Longrightarrow> batchAt n t d (n - 1) = t + d"
  by (auto simp: batchAt_def of_nat_diff)

lemma batchAt_mono:
  assumes "0 \<le> d" and "i \<le> j" and "1 \<le> n"
  shows "batchAt n t d i \<le> batchAt n t d j"
proof -
  have "d * int i \<le> d * int j" using assms by (simp add: mult_left_mono)
  then show ?thesis using assms by (auto simp: batchAt_def intro!: zdiv_mono1)
qed

lemma sendBatches_still:
  "rtpPacerStopping (sendBatches net (\<lambda>b u. u) au t d i s) = rtpPacerStopping s
     \<and> rtpQueueGeneration (sendBatches net (\<lambda>b u. u) au t d i s) = rtpQueueGeneration s"
proof (induction "batchCount au - i" arbitrary: i s)
  case 0
  then show ?case by (simp add: sendBatches.simps [of net _ au t d i s])
next
  case (Suc n)
  then have "n = batchCount au - Suc i" by simp
  from Suc.hyps(1) [OF this] show ?case
    by (simp add: sendBatches.simps [of net "\<lambda>b u. u" au t d i s] Let_def)
qed

text \<open>
  C38: When nothing interferes, the pacing thread wakes once per 32-packet batch, at times that never
  decrease, all inside the pacing interval, the last one at its end; then all packets are out.
\<close>

theorem SendPacedRTPAccessUnit_schedule:
  assumes "0 \<le> d" and "au_packets au \<noteq> []" and "\<forall>p \<in> set (au_packets au). p \<noteq> []"
    and "0 \<le> rtpSocket s" and "\<not> rtpPacerStopping s" and "au_generation au = rtpQueueGeneration s"
    and "s' = SendPacedRTPAccessUnit net (\<lambda>b u. u) au t d s"
  shows "\<exists>times. rtpWakeups s' = rtpWakeups s @ times \<and> length times = batchCount au
    \<and> sorted times \<and> (\<forall>x \<in> set times. t \<le> x \<and> x \<le> t + d) \<and> last times = t + d
    \<and> rtpDatagrams s' = rtpDatagrams s @ stampAll (rtpSequence s) (au_packets au)"
proof -
  let ?n = "batchCount au"
  let ?times = "map (batchAt ?n t d) [0..<?n]"
  have n: "1 \<le> ?n"
    using assms(2) by (cases "au_packets au") (auto simp: batchCount_def kPacketBatchSize_def)
  have quiet: "\<forall>b. pacerPrivate ((\<lambda>b u. u) (b :: nat))" by (simp add: pacerPrivate_def)
  from sendBatches_prefix [OF quiet assms(4,3) le0 assms(7) [unfolded SendPacedRTPAccessUnit_def]]
    sendBatches_still [of net au t d 0 s] assms(5-7)
  have "rtpDatagrams s' = rtpDatagrams s
      @ stampAll (rtpSequence s) (take (?n * kPacketBatchSize) (au_packets au))"
    "rtpWakeups s' = rtpWakeups s @ ?times"
    by (auto simp: SendPacedRTPAccessUnit_def min_def le_less not_less_eq_eq)
  moreover have "sorted ?times"
    using batchAt_mono [OF assms(1) _ n] by (auto simp: sorted_iff_nth_mono)
  moreover have "last ?times = t + d"
    using batchAt_first_last(2) [OF n] n by (simp add: last_map)
  moreover have "t \<le> x \<and> x \<le> t + d" if "x \<in> set ?times" for x
  proof -
    from that obtain i where i: "i < ?n" "x = batchAt ?n t d i" by auto
    have "t \<le> batchAt ?n t d 0" using assms(1) by (simp add: batchAt_def)
    with i batchAt_mono [OF assms(1) _ n, of 0 i t] batchAt_mono [OF assms(1) _ n, of i "?n - 1" t]
      batchAt_first_last(2) [OF n, of t d]
    show ?thesis by simp
  qed
  ultimately show ?thesis
    using all_batches [of au] by (intro exI [of _ ?times]) simp
qed

theorem SendPacedRTPAccessUnit_schedule_witness:
  "\<exists>times. rtpWakeups (SendPacedRTPAccessUnit loopback (\<lambda>b u. u) demoUnit 100 9 rtpStart) = times
    \<and> length times = 2 \<and> last times = 109"
proof -
  have "(0 :: int) \<le> 9" and "au_packets demoUnit \<noteq> []"
    and "\<forall>p \<in> set (au_packets demoUnit). p \<noteq> []"
    and "0 \<le> rtpSocket rtpStart" and "\<not> rtpPacerStopping rtpStart"
    and "au_generation demoUnit = rtpQueueGeneration rtpStart"
    by (auto simp: demoUnit_def rtpStart_def)
  from SendPacedRTPAccessUnit_schedule [OF this refl, of loopback 100]
  show ?thesis
    by (auto simp: rtpStart_def batchCount_def demoUnit_def kPacketBatchSize_def)
qed

text \<open>
  An access unit of at most 32 packets is not started at once: its single batch is sent at the
  end of the pacing interval, so it is delayed by the whole interval.
\<close>

theorem short_access_unit_waits:
  assumes "au_packets au \<noteq> []" and "length (au_packets au) \<le> 32"
  shows "rtpWakeups (SendPacedRTPAccessUnit net (\<lambda>b u. u) au t d s) = rtpWakeups s @ [t + d]"
proof -
  have one: "batchCount au = 1"
    using assms by (cases "au_packets au") (auto simp: batchCount_def kPacketBatchSize_def)
  show ?thesis
    by (simp add: SendPacedRTPAccessUnit_def sendBatches.simps [of net _ au t d 0 s]
        sendBatches.simps [of net _ au t d "Suc 0"] one batchAt_def Let_def)
qed

theorem short_access_unit_waits_witness:
  "rtpWakeups (SendPacedRTPAccessUnit loopback (\<lambda>b u. u)
     (demoUnit\<lparr>au_packets := [[0x80, 96, 0, 0, 1]]\<rparr>) 100 9 rtpStart) = [109]"
  using short_access_unit_waits [of "demoUnit\<lparr>au_packets := [[0x80, 96, 0, 0, 1]]\<rparr>"
      loopback 100 9 rtpStart]
  by (simp add: rtpStart_def)

end
