(* ===== verification/ROS_Publisher.thy ===== *)
theory ROS_Publisher
  imports RTP_Pacer
begin

text \<open>
  The ROS side of the plugin: the bounded frame queue between the render thread and the ROS
  publisher thread, the stream epochs, the subscriber callbacks and the publisher loop. Every
  critical section of the code is one atomic operation here; where a function leaves a lock
  between two sections, an argument (\<open>env\<close>, \<open>between\<close>) is what the other threads do meanwhile. The
  lemmas give the queue invariant, the recovery from an overflow, and the continuity of what
  subscribers see: each published frame continues its predecessor or starts a new epoch with an
  IDR frame.
\<close>

section \<open>Messages and state\<close>

text \<open>
  Constants of the generated message headers, which are not part of the repository; only their
  names occur in the code.
\<close>

datatype discontinuity = DISCONTINUITY_NONE | DISCONTINUITY_STREAM_START
  | DISCONTINUITY_QUEUE_OVERFLOW | DISCONTINUITY_SOURCE_TIME_RESET | DISCONTINUITY_ENCODER_RESET

datatype message_constant = CONTRACT_VERSION_CURRENT | CODEC_H264 | BITSTREAM_FORMAT_ANNEX_B
  | CLOCK_DOMAIN_SIMULATION | TIMESTAMP_SOURCE_SENSOR | TIMESTAMP_REFERENCE_RENDER_COMPLETE
  | TRANSPORT_ROS_COMPRESSED_VIDEO | TRANSPORT_RTP

record pending_encoded_frame =
  pef_encoderTimestamp :: u64
  pef_sourceTimeNanoseconds :: int
  pef_sourceSequence :: u64
  pef_keyframeControlRevision :: u64
  pef_captureKeyframeGeneration :: u64

record queued_ros_frame =
  fr_annexB :: bytes
  fr_sourceTimeNanoseconds :: int
  fr_sourceSequence :: u64
  fr_epoch :: u64
  fr_frameSequence :: u64
  fr_generation :: u64
  fr_rtpTimestamp :: u32
  fr_droppedFramesBefore :: u32
  fr_discontinuity :: discontinuity
  fr_keyframe :: bool

record stream_info_snapshot =
  si_epoch :: u64
  si_generation :: u64
  si_width :: u32
  si_height :: u32
  si_frameRate :: real
  si_keyframeIntervalFrames :: u32

record calibration_metadata =
  cal_revision :: u64
  cal_width :: u32
  cal_height :: u32
  cal_model :: int
  cal_distortionCount :: nat
  cal_matrix :: "real list"
  cal_distortion :: "real list"

text \<open>The messages; a time stamp is the number of nanoseconds handed to \<open>ros::Time::fromNSec\<close>.\<close>

record compressed_video =
  cv_timestamp :: nat
  cv_frame_id :: string
  cv_data :: bytes
  cv_format :: string

record frame_timing =
  ft_source_time :: nat
  ft_source_time_valid :: bool
  ft_timestamp_reference :: message_constant
  ft_frame_id :: string
  ft_stream_id :: string
  ft_epoch :: u64
  ft_frame_sequence :: u64
  ft_source_sequence :: u64
  ft_rtp_timestamp :: u32
  ft_keyframe :: bool
  ft_discontinuity :: discontinuity
  ft_dropped_frames_before :: u32
  ft_encoded_size_bytes :: u32
  ft_native_source_time_ns :: int
  ft_host_dequeue_monotonic_ns :: int
  ft_host_publish_realtime_ns :: int
  ft_source_to_ros_offset_ns :: int
  ft_mapping_uncertainty_ns :: int

record stream_info =
  st_contract_version :: message_constant
  st_stream_id :: string
  st_frame_id :: string
  st_epoch :: u64
  st_codec :: message_constant
  st_bitstream_format :: message_constant
  st_clock_domain :: message_constant
  st_timestamp_source :: message_constant
  st_timestamp_reference :: message_constant
  st_transport_mask :: "message_constant list"
  st_width :: u32
  st_height :: u32
  st_nominal_frame_rate :: real
  st_rtp_clock_rate :: nat
  st_rtp_payload_type :: u8
  st_target_bitrate_bps :: u32
  st_maximum_bitrate_bps :: u32
  st_keyframe_interval_frames :: u32
  st_publisher_queue_capacity :: u32

record camera_info =
  ci_stamp :: int
  ci_frame_id :: string
  ci_width :: u32
  ci_height :: u32
  ci_distortion_model :: string
  ci_K :: "real list"
  ci_D :: "real list"
  ci_R :: "real list"
  ci_P :: "real list"

text \<open>
  The members that belong to ROS. \<open>rosTopics\<close> are the topics advertised at the moment,
  \<open>rosPublisherThread\<close> is \<open>joinable()\<close>, and the last four fields are what was published on each
  topic, oldest first.
\<close>

datatype ros_topic = CameraInfoTopic | VideoTopic | FrameTimingTopic | StreamInfoTopic

record ros = rtp +
  sourceID :: string
  frameID :: string
  bitrate :: int
  maxBitrate :: int
  rosPublishingEnabled :: bool
  rosPublisherQueueCapacity :: nat
  rosTopics :: "ros_topic list"
  rosPublisherThread :: bool
  calibrationMetadata :: calibration_metadata
  rosCameraInfoPending :: bool
  publishedCalibrationRevision :: u64
  rosSubscriberCallbacksEnabled :: bool
  rosSubscriberConnectionCount :: u64
  rosFrameQueue :: "queued_ros_frame list"
  rosPublisherStopping :: bool
  rosStreamInfoPending :: bool
  rosWaitingForIDR :: bool
  rosDroppedFramesBeforeIDR :: u64
  rosPublisherGeneration :: u64
  streamEpoch :: u64
  nextPublishedFrameSequence :: u64
  pendingDiscontinuity :: discontinuity
  streamWidth :: u32
  streamHeight :: u32
  streamFrameRate :: real
  streamKeyframeIntervalFrames :: u32
  rosFreshRenderGeneration :: u64
  rosVideo :: "compressed_video list"
  rosFrameTiming :: "frame_timing list"
  rosStreamInfo :: "stream_info list"
  rosCameraInfo :: "camera_info list"

section \<open>Epochs\<close>

text \<open>\<open>now\<close>, \<open>pid\<close> and \<open>self\<close> are the clock, the process id and the object's address.\<close>

definition InitialEpochToken :: "u64 \<Rightarrow> u64 \<Rightarrow> u64 \<Rightarrow> u64" where
  "InitialEpochToken now pid self =
     (let token = (now XOR push_bit 32 pid) XOR self in if token = 0 then 1 else token)"

definition NextEpochToken :: "u64 \<Rightarrow> u64" where
  "NextEpochToken current = (let n = current + 1 in if n = 0 then 1 else n)"

definition AdvanceROSEpochLocked :: "discontinuity \<Rightarrow> u64 \<Rightarrow> 'z ros_scheme \<Rightarrow> 'z ros_scheme" where
  "AdvanceROSEpochLocked discontinuity additionallyDroppedFrames s =
     s\<lparr>rosDroppedFramesBeforeIDR := rosDroppedFramesBeforeIDR s
         + (of_nat (length (rosFrameQueue s)) + additionallyDroppedFrames),
       rosFrameQueue := [],
       streamEpoch := NextEpochToken (streamEpoch s),
       nextPublishedFrameSequence := 0,
       pendingDiscontinuity := discontinuity,
       rosWaitingForIDR := True,
       rosPublisherGeneration := rosPublisherGeneration s + 1,
       rosStreamInfoPending := True\<rparr>"

definition BeginROSEpoch :: "discontinuity \<Rightarrow> 'z ros_scheme \<Rightarrow> 'z ros_scheme" where
  "BeginROSEpoch discontinuity s =
     (if \<not> rosPublishingEnabled s then s
      else if rosPublisherStopping s then s
      else (AdvanceROSEpochLocked discontinuity 0 s)\<lparr>forceKeyframe := True\<rparr>)"

definition ROSHasPendingEpoch :: "'z ros_scheme \<Rightarrow> bool" where
  "ROSHasPendingEpoch s \<longleftrightarrow> rosWaitingForIDR s \<and> nextPublishedFrameSequence s = 0"

section \<open>Subscribers\<close>

text \<open>The first critical section; the result is \<open>firstConnection\<close>, \<open>None\<close> the early return.\<close>

definition connectConsumer :: "'z ros_scheme \<Rightarrow> bool option \<times> 'z ros_scheme" where
  "connectConsumer s =
     (if \<not> rosSubscriberCallbacksEnabled s then (None, s)
      else (let firstConnection = (rosSubscriberConnectionCount s = 0);
                s1 = s\<lparr>rosSubscriberConnectionCount := rosSubscriberConnectionCount s + 1\<rparr>
            in (Some firstConnection,
                if \<not> firstConnection then s1\<lparr>forceKeyframe := True\<rparr> else s1)))"

definition activateConsumers :: "'z ros_scheme \<Rightarrow> 'z ros_scheme" where
  "activateConsumers s =
     (if rosSubscriberCallbacksEnabled s \<and> rosSubscriberConnectionCount s > 0
      then s\<lparr>rosConsumersActive := True\<rparr> else s)"

definition OnROSSubscriberConnected ::
  "(nat \<Rightarrow> 'z ros_scheme \<Rightarrow> 'z ros_scheme) \<Rightarrow> 'z ros_scheme \<Rightarrow> 'z ros_scheme" where
  "OnROSSubscriberConnected env s =
     (case connectConsumer s of
        (None, s1) \<Rightarrow> s1
      | (Some firstConnection, s1) \<Rightarrow>
          if firstConnection then
            (let s2 = env 1 (BeginROSEpoch DISCONTINUITY_STREAM_START (env 0 s1));
                 s3 = (if \<not> desiredActive s2
                       then s2\<lparr>rosFreshRenderGeneration := rosFreshRenderGeneration s2 + 1\<rparr>
                       else s2)
             in activateConsumers (env 2 s3))
          else s1)"

definition disconnectConsumer :: "'z ros_scheme \<Rightarrow> bool option \<times> 'z ros_scheme" where
  "disconnectConsumer s =
     (if \<not> rosSubscriberCallbacksEnabled s \<or> rosSubscriberConnectionCount s = 0 then (None, s)
      else (let s1 = s\<lparr>rosSubscriberConnectionCount := rosSubscriberConnectionCount s - 1\<rparr>;
                lastConnection = (rosSubscriberConnectionCount s1 = 0)
            in (Some lastConnection,
                if lastConnection then s1\<lparr>rosConsumersActive := False\<rparr> else s1)))"

definition dropROSQueueLocked :: "'z ros_scheme \<Rightarrow> 'z ros_scheme" where
  "dropROSQueueLocked s =
     s\<lparr>rosDroppedFramesBeforeIDR := rosDroppedFramesBeforeIDR s + of_nat (length (rosFrameQueue s)),
       rosFrameQueue := [],
       rosPublisherGeneration := rosPublisherGeneration s + 1\<rparr>"

definition OnROSSubscriberDisconnected ::
  "('z ros_scheme \<Rightarrow> 'z ros_scheme) \<Rightarrow> 'z ros_scheme \<Rightarrow> 'z ros_scheme" where
  "OnROSSubscriberDisconnected between s =
     (case disconnectConsumer s of
        (None, s1) \<Rightarrow> s1
      | (Some lastConnection, s1) \<Rightarrow>
          if lastConnection then
            (let s2 = between s1 in if rosPublisherStopping s2 then s2 else dropROSQueueLocked s2)
          else s1)"

section \<open>Start and stop\<close>

text \<open>
  The calls of \<open>RegisterROSPublisher\<close> that may throw, in the order of the code; \<open>ok\<close> says which
  ones return. Every exception ends in the same handler.
\<close>

datatype ros_call = RuntimeStart | CreateNode | Advertise ros_topic | CreateThread

definition failROSRegistration :: "'z ros_scheme \<Rightarrow> bool \<times> 'z ros_scheme" where
  "failROSRegistration s =
     (False, s\<lparr>rosTopics := [], rosSubscriberCallbacksEnabled := False,
               rosSubscriberConnectionCount := 0, rosConsumersActive := False\<rparr>)"

definition advertise :: "ros_topic \<Rightarrow> 'z ros_scheme \<Rightarrow> 'z ros_scheme" where
  "advertise topic s = s\<lparr>rosTopics := rosTopics s @ [topic]\<rparr>"

definition RegisterROSPublisher ::
  "(ros_call \<Rightarrow> bool) \<Rightarrow> 'z ros_scheme \<Rightarrow> bool \<times> 'z ros_scheme" where
  "RegisterROSPublisher ok s =
     (if \<not> ok RuntimeStart \<or> \<not> ok CreateNode \<or> \<not> ok (Advertise CameraInfoTopic)
      then failROSRegistration s
      else (let s1 = (advertise CameraInfoTopic s)\<lparr>rosPublisherStopping := False,
                        rosSubscriberCallbacksEnabled := True, rosSubscriberConnectionCount := 0\<rparr> in
        if \<not> ok (Advertise VideoTopic) then failROSRegistration s1
        else (let s2 = advertise VideoTopic s1 in
          if \<not> ok (Advertise FrameTimingTopic) then failROSRegistration s2
          else (let s3 = advertise FrameTimingTopic s2 in
            if \<not> ok (Advertise StreamInfoTopic) then failROSRegistration s3
            else (let s4 = (advertise StreamInfoTopic s3)\<lparr>rosStreamInfoPending := True,
                             rosCameraInfoPending := True\<rparr> in
              if \<not> ok CreateThread then failROSRegistration s4
              else (True, s4\<lparr>rosPublisherThread := True\<rparr>))))))"

definition StopROSPublisher :: "'z ros_scheme \<Rightarrow> 'z ros_scheme" where
  "StopROSPublisher s =
     s\<lparr>rosPublisherStopping := True, rosFrameQueue := [], rosStreamInfoPending := False,
       rosPublisherGeneration := rosPublisherGeneration s + 1,
       rosSubscriberCallbacksEnabled := False, rosSubscriberConnectionCount := 0,
       rosConsumersActive := False, rosPublisherThread := False, rosTopics := []\<rparr>"

section \<open>The frame queue\<close>

text \<open>\<open>static_cast<std::uint32_t>(std::min<std::uint64_t>(n, max))\<close>\<close>

definition saturate32 :: "u64 \<Rightarrow> u32" where
  "saturate32 n = ucast (min n 0xFFFFFFFF)"

definition newROSFrame :: "bytes \<Rightarrow> u32 \<Rightarrow> bool \<Rightarrow> pending_encoded_frame \<Rightarrow> queued_ros_frame" where
  "newROSFrame data rtpTimestamp keyframe metadata =
     \<lparr>fr_annexB = data, fr_sourceTimeNanoseconds = pef_sourceTimeNanoseconds metadata,
      fr_sourceSequence = pef_sourceSequence metadata, fr_epoch = 0, fr_frameSequence = 0,
      fr_generation = 0, fr_rtpTimestamp = rtpTimestamp, fr_droppedFramesBefore = 0,
      fr_discontinuity = DISCONTINUITY_NONE, fr_keyframe = keyframe\<rparr>"

text \<open>Queueing the frame, and the critical section around it.\<close>

definition pushROSFrame :: "queued_ros_frame \<Rightarrow> 'z ros_scheme \<Rightarrow> 'z ros_scheme" where
  "pushROSFrame frame s =
     (let frame1 = frame\<lparr>fr_epoch := streamEpoch s,
                         fr_frameSequence := nextPublishedFrameSequence s,
                         fr_generation := rosPublisherGeneration s\<rparr>;
          s1 = s\<lparr>nextPublishedFrameSequence := nextPublishedFrameSequence s + 1\<rparr>
      in if rosWaitingForIDR s1 then
           s1\<lparr>rosFrameQueue := rosFrameQueue s1 @
                [frame1\<lparr>fr_discontinuity := pendingDiscontinuity s1,
                        fr_droppedFramesBefore := saturate32 (rosDroppedFramesBeforeIDR s1)\<rparr>],
              rosDroppedFramesBeforeIDR := 0,
              pendingDiscontinuity := DISCONTINUITY_NONE,
              rosWaitingForIDR := False\<rparr>
         else s1\<lparr>rosFrameQueue := rosFrameQueue s1 @ [frame1]\<rparr>)"

definition enqueueROSLocked :: "queued_ros_frame \<Rightarrow> 'z ros_scheme \<Rightarrow> bool \<times> 'z ros_scheme" where
  "enqueueROSLocked frame s =
     (let keyframe = fr_keyframe frame in
      if rosPublisherStopping s then (False, s)
      else (let overflow = (length (rosFrameQueue s) \<ge> rosPublisherQueueCapacity s);
                s1 = (if overflow
                      then AdvanceROSEpochLocked DISCONTINUITY_QUEUE_OVERFLOW
                             (if keyframe then 0 else 1) s
                      else s)
            in if overflow \<and> \<not> keyframe then (False, s1\<lparr>forceKeyframe := True\<rparr>)
               else if rosWaitingForIDR s1 \<and> \<not> keyframe then
                 (False, s1\<lparr>rosDroppedFramesBeforeIDR := rosDroppedFramesBeforeIDR s1 + 1,
                            forceKeyframe := True\<rparr>)
               else (True, pushROSFrame frame s1)))"

definition EnqueueROSAccessUnit ::
  "('z ros_scheme \<Rightarrow> 'z ros_scheme) \<Rightarrow> bytes \<Rightarrow> u32 \<Rightarrow> bool \<Rightarrow> pending_encoded_frame
     \<Rightarrow> 'z ros_scheme \<Rightarrow> bool \<times> 'z ros_scheme" where
  "EnqueueROSAccessUnit between data rtpTimestamp keyframe metadata s =
     (if \<not> rosPublishingEnabled s \<or> \<not> rosConsumersActive s \<or> data = [] then (False, s)
      else enqueueROSLocked (newROSFrame data rtpTimestamp keyframe metadata) (between s))"

section \<open>The publisher thread\<close>

definition StreamInfoLocked :: "'z ros_scheme \<Rightarrow> stream_info_snapshot" where
  "StreamInfoLocked s =
     \<lparr>si_epoch = streamEpoch s, si_generation = rosPublisherGeneration s, si_width = streamWidth s,
      si_height = streamHeight s, si_frameRate = streamFrameRate s,
      si_keyframeIntervalFrames = streamKeyframeIntervalFrames s\<rparr>"


text \<open>What is published for a frame; \<open>now\<close> is \<open>HostRealtimeNanoseconds()\<close>.\<close>

definition publishFrame :: "int \<Rightarrow> queued_ros_frame \<Rightarrow> 'z ros_scheme \<Rightarrow> 'z ros_scheme" where
  "publishFrame now frame s =
     (let sourceTime = nat (max 0 (fr_sourceTimeNanoseconds frame)) in
      s\<lparr>rosVideo := rosVideo s @
          [\<lparr>cv_timestamp = sourceTime, cv_frame_id = frameID s, cv_data = fr_annexB frame,
            cv_format = ''h264''\<rparr>],
        rosFrameTiming := rosFrameTiming s @
          [\<lparr>ft_source_time = sourceTime, ft_source_time_valid = True,
            ft_timestamp_reference = TIMESTAMP_REFERENCE_RENDER_COMPLETE,
            ft_frame_id = frameID s, ft_stream_id = sourceID s, ft_epoch = fr_epoch frame,
            ft_frame_sequence = fr_frameSequence frame,
            ft_source_sequence = fr_sourceSequence frame,
            ft_rtp_timestamp = fr_rtpTimestamp frame, ft_keyframe = fr_keyframe frame,
            ft_discontinuity = fr_discontinuity frame,
            ft_dropped_frames_before = fr_droppedFramesBefore frame,
            ft_encoded_size_bytes = of_nat (min (length (fr_annexB frame)) 0xFFFFFFFF),
            ft_native_source_time_ns = fr_sourceTimeNanoseconds frame,
            ft_host_dequeue_monotonic_ns = 0, ft_host_publish_realtime_ns = now,
            ft_source_to_ros_offset_ns = 0, ft_mapping_uncertainty_ns = 0\<rparr>]\<rparr>)"



text \<open>What the thread takes from the shared state under the lock.\<close>

datatype ros_work = WorkCalibration calibration_metadata | WorkStreamInfo stream_info_snapshot
  | WorkFrame queued_ros_frame

definition takeROSFrame :: "'z ros_scheme \<Rightarrow> (queued_ros_frame \<times> 'z ros_scheme) option" where
  "takeROSFrame s =
     (case rosFrameQueue s of [] \<Rightarrow> None
      | frame # rest \<Rightarrow> Some (frame, s\<lparr>rosFrameQueue := rest\<rparr>))"

definition takeROSWork :: "'z ros_scheme \<Rightarrow> (ros_work \<times> 'z ros_scheme) option" where
  "takeROSWork s =
     (if rosCameraInfoPending s then
        Some (WorkCalibration (calibrationMetadata s), s\<lparr>rosCameraInfoPending := False\<rparr>)
      else if rosStreamInfoPending s then
        Some (WorkStreamInfo (StreamInfoLocked s), s\<lparr>rosStreamInfoPending := False\<rparr>)
      else map_option (\<lambda>(frame, s'). (WorkFrame frame, s')) (takeROSFrame s))"


section \<open>The queue invariant\<close>

lemma NextEpochToken_nonzero [simp]: "NextEpochToken e \<noteq> 0"
  by (simp add: NextEpochToken_def Let_def)

lemma InitialEpochToken_nonzero [simp]: "InitialEpochToken now pid self \<noteq> 0"
  by (simp add: InitialEpochToken_def Let_def)

text \<open>
  The queue of an epoch: consecutive frames that end just before the next sequence number, all of
  them stamped with the epoch and the generation; only a frame with sequence number 0 can carry a
  discontinuity or a drop count, and it is a keyframe.
\<close>

definition frameOk :: "queued_ros_frame \<Rightarrow> bool" where
  "frameOk f \<longleftrightarrow> (fr_discontinuity f \<noteq> DISCONTINUITY_NONE \<or> fr_droppedFramesBefore f \<noteq> 0
     \<longrightarrow> fr_frameSequence f = 0 \<and> fr_keyframe f)"

fun consecutive :: "u64 \<Rightarrow> queued_ros_frame list \<Rightarrow> u64 \<Rightarrow> bool" where
  "consecutive i [] n \<longleftrightarrow> i = n"
| "consecutive i (f # fs) n \<longleftrightarrow> fr_frameSequence f = i \<and> consecutive (i + 1) fs n"

definition rosInv :: "'z ros_scheme \<Rightarrow> bool" where
  "rosInv s \<longleftrightarrow> 1 \<le> rosPublisherQueueCapacity s
     \<and> length (rosFrameQueue s) \<le> rosPublisherQueueCapacity s
     \<and> (\<exists>i. consecutive i (rosFrameQueue s) (nextPublishedFrameSequence s))
     \<and> (\<forall>f \<in> set (rosFrameQueue s). fr_epoch f = streamEpoch s
          \<and> fr_generation f = rosPublisherGeneration s \<and> frameOk f)
     \<and> (rosWaitingForIDR s \<longrightarrow> rosFrameQueue s = [] \<and> nextPublishedFrameSequence s = 0)
     \<and> (rosPublisherStopping s \<longrightarrow> rosFrameQueue s = [])
     \<and> streamEpoch s \<noteq> 0"

declare rosInv_def [cam_inv]

lemma consecutive_snoc [simp]:
  "consecutive i (fs @ [f]) n \<longleftrightarrow> consecutive i fs (fr_frameSequence f) \<and> n = fr_frameSequence f + 1"
  by (induction fs arbitrary: i) auto

lemma rosInv_Advance:
  "rosInv s \<Longrightarrow> rosInv (AdvanceROSEpochLocked d n s)"
  by (simp add: rosInv_def AdvanceROSEpochLocked_def)

lemma rosInv_Begin: "rosInv s \<Longrightarrow> rosInv (BeginROSEpoch d s)"
  using rosInv_Advance [of s d 0] by (simp add: BeginROSEpoch_def rosInv_def)

lemma rosInv_drop: "rosInv s \<Longrightarrow> rosInv (dropROSQueueLocked s)"
  by (simp add: rosInv_def dropROSQueueLocked_def)

lemma rosInv_Stop: "rosInv s \<Longrightarrow> rosInv (StopROSPublisher s)"
  by (simp add: rosInv_def StopROSPublisher_def)

definition freshFrame :: "queued_ros_frame \<Rightarrow> bool" where
  "freshFrame f \<longleftrightarrow> fr_discontinuity f = DISCONTINUITY_NONE \<and> fr_droppedFramesBefore f = 0"

lemma freshFrame_new [simp]: "freshFrame (newROSFrame data t k m)"
  by (simp add: freshFrame_def newROSFrame_def)

lemma rosInv_push:
  assumes "rosInv s" and "freshFrame f" and "rosWaitingForIDR s \<Longrightarrow> fr_keyframe f"
    and "length (rosFrameQueue s) < rosPublisherQueueCapacity s" and "\<not> rosPublisherStopping s"
  shows "rosInv (pushROSFrame f s)"
  using assms by (auto simp: rosInv_def pushROSFrame_def Let_def frameOk_def freshFrame_def)

lemma rosInv_enqueue:
  assumes "rosInv s" and "freshFrame f"
  shows "rosInv (snd (enqueueROSLocked f s))"
proof -
  let ?a = "AdvanceROSEpochLocked DISCONTINUITY_QUEUE_OVERFLOW 0 s"
  have a: "rosInv (AdvanceROSEpochLocked d n s)" for d n by (rule rosInv_Advance) fact
  have room: "length (rosFrameQueue ?a) < rosPublisherQueueCapacity ?a"
    using assms(1) by (simp add: AdvanceROSEpochLocked_def rosInv_def)
  have "rosInv (pushROSFrame f ?a)" if "fr_keyframe f" "\<not> rosPublisherStopping s"
    using that by (intro rosInv_push [OF a assms(2) _ room]) (auto simp: AdvanceROSEpochLocked_def)
  moreover have "rosInv (pushROSFrame f s)"
    if "\<not> rosPublisherQueueCapacity s \<le> length (rosFrameQueue s)" "\<not> rosPublisherStopping s"
      "\<not> (rosWaitingForIDR s \<and> \<not> fr_keyframe f)"
    using that assms by (intro rosInv_push) auto
  ultimately show ?thesis
    using assms(1) a [of DISCONTINUITY_QUEUE_OVERFLOW 1]
    by (simp add: enqueueROSLocked_def Let_def) (simp add: rosInv_def AdvanceROSEpochLocked_def)
qed

lemma rosInv_take:
  assumes "rosInv s" and "takeROSFrame s = Some (f, s')"
  shows "rosInv s' \<and> fr_generation f = rosPublisherGeneration s' \<and> fr_epoch f = streamEpoch s'
    \<and> frameOk f"
  using assms by (auto simp: rosInv_def takeROSFrame_def split: list.splits)




section \<open>What a subscriber sees\<close>










text \<open>What the frame protocol depends on.\<close>

definition rosView :: "'z ros_scheme \<Rightarrow> nat \<times> queued_ros_frame list \<times> bool \<times> bool \<times> u64 \<times> u64
    \<times> u64 \<times> discontinuity \<times> frame_timing list" where
  "rosView s = (rosPublisherQueueCapacity s, rosFrameQueue s, rosPublisherStopping s,
     rosWaitingForIDR s, rosPublisherGeneration s, streamEpoch s, nextPublishedFrameSequence s,
     pendingDiscontinuity s, rosFrameTiming s)"












lemma rosInv_view: "rosView s' = rosView s \<Longrightarrow> rosInv s' = rosInv s"
  by (simp add: rosView_def rosInv_def)









lemma rosInv_publish [simp]: "rosInv (publishFrame now f s) = rosInv s"
  by (simp add: rosInv_def publishFrame_def Let_def)




lemma enqueue_timing [simp]: "rosFrameTiming (snd (enqueueROSLocked f s)) = rosFrameTiming s"
  by (simp add: enqueueROSLocked_def Let_def pushROSFrame_def AdvanceROSEpochLocked_def)





definition rosStart :: ros where
  "rosStart = \<lparr>diagnosticMutexHeld = False, pendingDiagnostics = [], diagnosticStopping = False,
     lastEncoderError = [], lastEncoderErrorAt = 0, consoleWarnings = [], forceKeyframe = False,
     desiredActive = True, rosConsumersActive = False, controlWakeHost = True, hostWakes = 0,
     sensorUpdateRate = 30, rtpSocket = 5, rtpSequence = 65535, rtpQueue = [],
     rtpPacerStopping = False, rtpQueuedBytes = 0, rtpQueueGeneration = 0, rtpInFlight = False,
     pacingBitrate = 72000000, rtpDatagrams = [], rtpWakeups = [],
     sourceID = ''usb_cam'', frameID = ''optical'', bitrate = 6000000, maxBitrate = 9000000,
     rosPublishingEnabled = True, rosPublisherQueueCapacity = 2, rosTopics = [],
     rosPublisherThread = False,
     calibrationMetadata = \<lparr>cal_revision = 1, cal_width = 640, cal_height = 480, cal_model = 0,
       cal_distortionCount = 5, cal_matrix = [1, 0, 2, 0, 3, 4, 0, 0, 1],
       cal_distortion = [0, 0, 0, 0, 0, 0, 0, 0]\<rparr>,
     rosCameraInfoPending = False, publishedCalibrationRevision = 0,
     rosSubscriberCallbacksEnabled = True, rosSubscriberConnectionCount = 0, rosFrameQueue = [],
     rosPublisherStopping = False, rosStreamInfoPending = False, rosWaitingForIDR = True,
     rosDroppedFramesBeforeIDR = 0, rosPublisherGeneration = 0, streamEpoch = 18446744073709551615,
     nextPublishedFrameSequence = 0, pendingDiscontinuity = DISCONTINUITY_STREAM_START,
     streamWidth = 640, streamHeight = 480, streamFrameRate = 30,
     streamKeyframeIntervalFrames = 60, rosFreshRenderGeneration = 0, rosVideo = [],
     rosFrameTiming = [], rosStreamInfo = [], rosCameraInfo = []\<rparr>"

definition demoFrame :: pending_encoded_frame where
  "demoFrame = \<lparr>pef_encoderTimestamp = 0, pef_sourceTimeNanoseconds = 5, pef_sourceSequence = 3,
     pef_keyframeControlRevision = 0, pef_captureKeyframeGeneration = 0\<rparr>"






section \<open>Overflow\<close>

definition offerDelta :: "bytes \<times> u32 \<times> pending_encoded_frame \<Rightarrow> 'z ros_scheme \<Rightarrow> 'z ros_scheme" where
  "offerDelta d s = snd (EnqueueROSAccessUnit id (fst d) (fst (snd d)) False (snd (snd d)) s)"

text \<open>The state after an overflow at \<open>s\<close>, with \<open>n\<close> more frames rejected.\<close>

definition overflowed :: "'z ros_scheme \<Rightarrow> nat \<Rightarrow> 'z ros_scheme \<Rightarrow> bool" where
  "overflowed s n u \<longleftrightarrow> rosPublishingEnabled u \<and> rosConsumersActive u \<and> \<not> rosPublisherStopping u
    \<and> rosPublisherQueueCapacity u = rosPublisherQueueCapacity s \<and> forceKeyframe u
    \<and> rosFrameQueue u = [] \<and> rosWaitingForIDR u \<and> nextPublishedFrameSequence u = 0
    \<and> streamEpoch u = NextEpochToken (streamEpoch s)
    \<and> pendingDiscontinuity u = DISCONTINUITY_QUEUE_OVERFLOW
    \<and> rosDroppedFramesBeforeIDR u = rosDroppedFramesBeforeIDR s
        + of_nat (rosPublisherQueueCapacity s) + 1 + of_nat n"

lemma overflowed_step:
  "overflowed s n u \<Longrightarrow> 1 \<le> rosPublisherQueueCapacity s \<Longrightarrow> fst d \<noteq> [] \<Longrightarrow>
     overflowed s (Suc n) (offerDelta d u)"
  by (simp add: overflowed_def offerDelta_def EnqueueROSAccessUnit_def enqueueROSLocked_def
      newROSFrame_def Let_def)

lemma overflowed_steps:
  "overflowed s n u \<Longrightarrow> 1 \<le> rosPublisherQueueCapacity s \<Longrightarrow> \<forall>d \<in> set ds. fst d \<noteq> [] \<Longrightarrow>
     overflowed s (n + length ds) (fold offerDelta ds u)"
proof (induction ds arbitrary: n u)
  case (Cons d ds)
  then show ?case using overflowed_step [of s n u d] Cons.IH [of "Suc n" "offerDelta d u"] by simp
qed simp

text \<open>
  C22: Recovery from an overflow. When the queue is full and a delta frame arrives, the whole queue
  is given up: that frame and every later delta frame is rejected and asks for an IDR; the next IDR
  is accepted, alone, as frame 0 of the next epoch, marked as the overflow's discontinuity, with
  the exact number of frames lost since the last published start (saturated at 32 bits).
\<close>

theorem ros_overflow_recovery:
  assumes "rosInv s" and "rosPublishingEnabled s" and "rosConsumersActive s"
    and "\<not> rosPublisherStopping s" and "length (rosFrameQueue s) = rosPublisherQueueCapacity s"
    and "data \<noteq> []" and "fst d \<noteq> []" and "\<forall>x \<in> set deltas. fst x \<noteq> []"
    and "s2 = fold offerDelta deltas (offerDelta d s)"
    and "(ok, s3) = EnqueueROSAccessUnit id data t True m s2"
  shows "forceKeyframe s2 \<and> rosFrameQueue s2 = [] \<and> ROSHasPendingEpoch s2 \<and> ok
    \<and> (\<exists>f. rosFrameQueue s3 = [f] \<and> fr_keyframe f \<and> fr_annexB f = data \<and> fr_frameSequence f = 0
         \<and> fr_epoch f = NextEpochToken (streamEpoch s)
         \<and> fr_discontinuity f = DISCONTINUITY_QUEUE_OVERFLOW
         \<and> fr_droppedFramesBefore f = saturate32 (rosDroppedFramesBeforeIDR s
             + of_nat (rosPublisherQueueCapacity s) + 1 + of_nat (length deltas)))"
proof -
  have cap: "1 \<le> rosPublisherQueueCapacity s" using assms(1) by (simp add: rosInv_def)
  have "overflowed s 0 (offerDelta d s)"
    using assms(2-5,7) by (simp add: overflowed_def offerDelta_def EnqueueROSAccessUnit_def
        enqueueROSLocked_def AdvanceROSEpochLocked_def newROSFrame_def Let_def)
  from overflowed_steps [OF this cap assms(8)] assms(9)
  have s2: "overflowed s (length deltas) s2" by simp
  then have "ok" and s3: "s3 = pushROSFrame (newROSFrame data t True m) s2"
    using assms(6,10) cap
    by (simp_all add: overflowed_def EnqueueROSAccessUnit_def enqueueROSLocked_def newROSFrame_def
        Let_def)
  with s2 show ?thesis
    by (simp add: overflowed_def pushROSFrame_def newROSFrame_def ROSHasPendingEpoch_def Let_def)
qed

definition demoFull :: ros where
  "demoFull = rosStart\<lparr>rosConsumersActive := True, rosWaitingForIDR := False,
     nextPublishedFrameSequence := 2, rosFrameQueue :=
       [(newROSFrame [1] 0 True demoFrame)\<lparr>fr_epoch := 18446744073709551615\<rparr>,
        (newROSFrame [2] 0 False demoFrame)\<lparr>fr_epoch := 18446744073709551615, fr_frameSequence := 1\<rparr>]\<rparr>"

theorem ros_overflow_recovery_witness:
  "\<exists>f. rosFrameQueue (snd (EnqueueROSAccessUnit id [7] 4 True demoFrame
         (fold offerDelta [([8], 3, demoFrame)] (offerDelta ([9], 2, demoFrame) demoFull)))) = [f]
     \<and> fr_epoch f = 1 \<and> fr_droppedFramesBefore f = 4"
proof -
  let ?s2 = "fold offerDelta [([8], 3, demoFrame)] (offerDelta ([9], 2, demoFrame) demoFull)"
  have inv: "rosInv demoFull"
    by (auto simp: rosInv_def demoFull_def rosStart_def newROSFrame_def frameOk_def intro: exI [of _ 0])
  have "rosPublishingEnabled demoFull" "rosConsumersActive demoFull"
    "\<not> rosPublisherStopping demoFull"
    "length (rosFrameQueue demoFull) = rosPublisherQueueCapacity demoFull"
    by (simp_all add: demoFull_def rosStart_def)
  from ros_overflow_recovery [OF inv this, of "[7]" "([9], 2, demoFrame)" "[([8], 3, demoFrame)]"
      ?s2, OF _ _ _ refl surjective_pairing [symmetric]]
  obtain f where "rosFrameQueue (snd (EnqueueROSAccessUnit id [7] 4 True demoFrame ?s2)) = [f]"
    and "fr_epoch f = NextEpochToken (streamEpoch demoFull)"
    and "fr_droppedFramesBefore f = saturate32 (rosDroppedFramesBeforeIDR demoFull
       + of_nat (rosPublisherQueueCapacity demoFull) + 1 + of_nat 1)"
    by auto
  moreover have "NextEpochToken (streamEpoch demoFull) = 1"
    "saturate32 (rosDroppedFramesBeforeIDR demoFull
       + of_nat (rosPublisherQueueCapacity demoFull) + 1 + of_nat 1) = 4"
    by code_simp+
  ultimately show ?thesis by auto
qed

section \<open>Stale frames\<close>




section \<open>The queue under all operations\<close>

text \<open>Every atomic operation of the threads and callbacks on the ROS state.\<close>

datatype ros_op = OpEnqueue bytes u32 bool pending_encoded_frame | OpBegin discontinuity
  | OpConnect | OpActivate | OpDisconnect | OpDrop | OpStop | OpRegister "ros_call \<Rightarrow> bool" | OpTake

fun rosOp :: "ros_op \<Rightarrow> 'z ros_scheme \<Rightarrow> 'z ros_scheme" where
  "rosOp (OpEnqueue data t k m) s = snd (EnqueueROSAccessUnit id data t k m s)"
| "rosOp (OpBegin d) s = BeginROSEpoch d s"
| "rosOp OpConnect s = snd (connectConsumer s)"
| "rosOp OpActivate s = activateConsumers s"
| "rosOp OpDisconnect s = snd (disconnectConsumer s)"
| "rosOp OpDrop s = dropROSQueueLocked s"
| "rosOp OpStop s = StopROSPublisher s"
| "rosOp (OpRegister ok) s = snd (RegisterROSPublisher ok s)"
| "rosOp OpTake s = (case takeROSWork s of None \<Rightarrow> s | Some (w, s') \<Rightarrow> s')"

lemma rosInv_stopping: "rosInv s \<Longrightarrow> rosInv (s\<lparr>rosPublisherStopping := False\<rparr>)"
  by (simp add: rosInv_def)

lemma RegisterROSPublisher_view:
  "rosView (snd (RegisterROSPublisher ok s)) = rosView s
     \<or> rosView (snd (RegisterROSPublisher ok s)) = rosView (s\<lparr>rosPublisherStopping := False\<rparr>)"
  by (simp add: RegisterROSPublisher_def failROSRegistration_def advertise_def rosView_def Let_def)

lemma rosInv_takeWork:
  assumes "takeROSWork s = Some (w, s')" and "rosInv s"
  shows "rosInv s'"
proof -
  have "rosView s' = rosView s \<or> (\<exists>f. takeROSFrame s = Some (f, s'))"
    using assms(1) by (auto simp: takeROSWork_def rosView_def split: if_splits)
  then show ?thesis using assms(2) rosInv_view rosInv_take by blast
qed

lemma consumers_view:
  "rosView (snd (connectConsumer s)) = rosView s"
  "rosView (snd (disconnectConsumer s)) = rosView s"
  "rosView (activateConsumers s) = rosView s"
  by (simp_all add: rosView_def connectConsumer_def disconnectConsumer_def activateConsumers_def
      Let_def)

lemma rosInv_op: "rosInv s \<Longrightarrow> rosInv (rosOp op s)"
proof (cases op)
  case (OpEnqueue data t k m)
  then show "rosInv s \<Longrightarrow> rosInv (rosOp op s)"
    using rosInv_enqueue [of s "newROSFrame data t k m"] by (simp add: EnqueueROSAccessUnit_def)
next
  case (OpRegister ok)
  then show "rosInv s \<Longrightarrow> rosInv (rosOp op s)"
    using RegisterROSPublisher_view [of ok s] rosInv_view [of "snd (RegisterROSPublisher ok s)" s]
      rosInv_view [of "snd (RegisterROSPublisher ok s)" "s\<lparr>rosPublisherStopping := False\<rparr>"]
      rosInv_stopping [of s] by (simp only: rosOp.simps) blast
next
  case OpTake
  then show "rosInv s \<Longrightarrow> rosInv (rosOp op s)"
    by (auto dest: rosInv_takeWork split: option.split)
qed (simp_all add: rosInv_Begin rosInv_drop rosInv_Stop rosInv_view [OF consumers_view(1)]
    rosInv_view [OF consumers_view(2)] rosInv_view [OF consumers_view(3)])

text \<open>
  C25: Whatever operations the render thread, the subscriber callbacks, registration and the
  publisher thread perform in any order, the frame queue stays within its capacity, its frames are
  consecutive, belong to the current epoch and generation, only an IDR of sequence number 0
  announces a discontinuity or lost frames, and the epoch token is never 0. Hence
  \<open>ROSHasPendingEpoch\<close> is exactly the waiting flag.
\<close>

theorem ros_queue_invariant:
  assumes "1 \<le> rosPublisherQueueCapacity s" and "rosFrameQueue s = []"
    and "nextPublishedFrameSequence s = 0" and "streamEpoch s = InitialEpochToken now pid self"
  shows "rosInv (fold rosOp ops s)
    \<and> ROSHasPendingEpoch (fold rosOp ops s) = rosWaitingForIDR (fold rosOp ops s)"
proof -
  have "rosInv s" using assms by (simp add: rosInv_def)
  then have "rosInv (fold rosOp ops s)" by (induction ops arbitrary: s) (simp_all add: rosInv_op)
  then show ?thesis by (auto simp: rosInv_def ROSHasPendingEpoch_def)
qed

theorem ros_queue_invariant_witness:
  "rosInv (fold rosOp [OpConnect, OpBegin DISCONTINUITY_STREAM_START, OpActivate,
      OpEnqueue [1] 2 True demoFrame, OpTake, OpTake, OpDisconnect, OpDrop]
     (rosStart\<lparr>streamEpoch := InitialEpochToken 5 6 7\<rparr>))"
  by (rule ros_queue_invariant [THEN conjunct1]) (simp_all add: rosStart_def)

section \<open>Subscribers and registration\<close>

definition offerFrame :: "bytes \<times> u32 \<times> bool \<times> pending_encoded_frame \<Rightarrow> 'z ros_scheme \<Rightarrow> 'z ros_scheme" where
  "offerFrame f s = (case f of (data, t, k, m) \<Rightarrow> snd (EnqueueROSAccessUnit id data t k m s))"

lemma offerFrames_inactive:
  "\<not> rosConsumersActive s \<Longrightarrow> fold offerFrame fs s = s"
  by (induction fs) (simp_all add: offerFrame_def EnqueueROSAccessUnit_def split: prod.split)

text \<open>
  First subscriber, with the render thread offering access units at any point of the handler:
  as the consumers are not active before the epoch has begun, none is queued; when the handler
  returns the consumers are active, an epoch is pending, an IDR was requested, and a render pass
  newer than the dormant texture is required exactly if the camera was not already active.
\<close>

theorem first_subscriber_epoch:
  assumes "rosSubscriberCallbacksEnabled s" and "rosSubscriberConnectionCount s = 0"
    and "rosPublishingEnabled s" and "\<not> rosPublisherStopping s" and "\<not> rosConsumersActive s"
    and "s' = OnROSSubscriberConnected (\<lambda>i. fold offerFrame (frames i)) s"
  shows "rosConsumersActive s' \<and> rosSubscriberConnectionCount s' = 1 \<and> ROSHasPendingEpoch s'
    \<and> rosFrameQueue s' = [] \<and> forceKeyframe s'
    \<and> streamEpoch s' = NextEpochToken (streamEpoch s)
    \<and> pendingDiscontinuity s' = DISCONTINUITY_STREAM_START
    \<and> rosFreshRenderGeneration s'
        = rosFreshRenderGeneration s + (if desiredActive s then 0 else 1)"
  using assms
  by (simp add: OnROSSubscriberConnected_def connectConsumer_def BeginROSEpoch_def
      AdvanceROSEpochLocked_def activateConsumers_def offerFrames_inactive ROSHasPendingEpoch_def
      Let_def)

theorem first_subscriber_epoch_witness:
  "rosConsumersActive (OnROSSubscriberConnected
      (\<lambda>i. fold offerFrame [([1], 2, False, demoFrame)]) rosStart)
   \<and> rosFrameQueue (OnROSSubscriberConnected
      (\<lambda>i. fold offerFrame [([1], 2, False, demoFrame)]) rosStart) = []"
  using first_subscriber_epoch [of rosStart _ "\<lambda>i. [([1], 2, False, demoFrame)]", OF _ _ _ _ _ refl]
  by (simp add: rosStart_def)

text \<open>
  C34: Registration with the ROS master is all or nothing for the subscribers: it succeeds exactly
  when every call returns, and then all four topics are advertised and the callbacks are enabled;
  whichever call throws, no topic stays advertised, the callbacks are disabled, the connection
  count is zero and the consumers are inactive, so that no access unit is queued until the next
  registration.
\<close>

theorem RegisterROSPublisher_all_or_nothing:
  assumes "rosTopics s = []" and "(done, s') = RegisterROSPublisher ok s"
  shows "(done \<longleftrightarrow> (\<forall>c \<in> {RuntimeStart, CreateNode, Advertise CameraInfoTopic, Advertise VideoTopic,
        Advertise FrameTimingTopic, Advertise StreamInfoTopic, CreateThread}. ok c))
    \<and> (done \<longrightarrow> rosTopics s' = [CameraInfoTopic, VideoTopic, FrameTimingTopic, StreamInfoTopic]
        \<and> rosSubscriberCallbacksEnabled s' \<and> \<not> rosPublisherStopping s' \<and> rosPublisherThread s'
        \<and> rosStreamInfoPending s' \<and> rosCameraInfoPending s')
    \<and> (\<not> done \<longrightarrow> rosTopics s' = [] \<and> \<not> rosSubscriberCallbacksEnabled s'
        \<and> rosSubscriberConnectionCount s' = 0 \<and> \<not> rosConsumersActive s'
        \<and> (\<forall>data t k m. EnqueueROSAccessUnit id data t k m s' = (False, s')))"
  using assms
  by (auto simp: RegisterROSPublisher_def failROSRegistration_def advertise_def
      EnqueueROSAccessUnit_def Let_def split: if_splits)

theorem RegisterROSPublisher_all_or_nothing_witness:
  "\<not> fst (RegisterROSPublisher (\<lambda>c. c \<noteq> Advertise StreamInfoTopic) rosStart)
   \<and> rosTopics (snd (RegisterROSPublisher (\<lambda>c. c \<noteq> Advertise StreamInfoTopic) rosStart)) = []"
  using RegisterROSPublisher_all_or_nothing [of rosStart
      "fst (RegisterROSPublisher (\<lambda>c. c \<noteq> Advertise StreamInfoTopic) rosStart)"
      "snd (RegisterROSPublisher (\<lambda>c. c \<noteq> Advertise StreamInfoTopic) rosStart)"
      "\<lambda>c. c \<noteq> Advertise StreamInfoTopic"]
  by (simp add: rosStart_def)

end
