(* ===== verification/Snapshot_Jpeg.thy ===== *)
theory Snapshot_Jpeg
  imports Prelude
begin

text \<open>
  The JPEG backends (\<open>snapshot_jpeg_backend.cpp\<close>, \<open>snapshot_jpeg_hardware_abi.h\<close>): the operator's
  policy, the choice of the backend, the optional hardware module behind its versioned C interface,
  the libjpeg fallback and the row order copy. The dynamic linker, the module and libjpeg are
  parameters; a call log records the acquisitions and releases. The lemmas show the policy, that
  nothing the module hands out leaks or is released twice, and that the size checks do not wrap.
\<close>

section \<open>Policy\<close>

datatype jpeg_policy = kAuto | kHardware | kCPU

definition ParseSnapshotJpegPolicy :: "string \<Rightarrow> jpeg_policy option" where
  "ParseSnapshotJpegPolicy v =
     (if v = ''auto'' then Some kAuto
      else if v = ''hardware'' then Some kHardware
      else if v = ''cpu'' then Some kCPU
      else None)"

fun SnapshotJpegPolicyName :: "jpeg_policy \<Rightarrow> string" where
  "SnapshotJpegPolicyName kAuto = ''auto''"
| "SnapshotJpegPolicyName kHardware = ''hardware''"
| "SnapshotJpegPolicyName kCPU = ''cpu''"

text \<open>\<open>turbo\<close> is whether \<open>LIBJPEG_TURBO_VERSION\<close> is defined.\<close>

definition CPUBackendName :: "bool \<Rightarrow> string" where
  "CPUBackendName turbo = (if turbo then ''libjpeg-turbo'' else ''libjpeg'')"

record backend_decision =
  bd_available :: bool
  bd_useHardware :: bool
  bd_allowCPUFallback :: bool
  bd_backend :: string
  bd_hardwareState :: string
  bd_error :: string

definition SelectSnapshotJpegBackend ::
  "bool \<Rightarrow> jpeg_policy \<Rightarrow> bool \<Rightarrow> string \<Rightarrow> backend_decision" where
  "SelectSnapshotJpegBackend turbo policy hardwareAvailable hardwareBackend =
     (if policy = kCPU then
        \<lparr>bd_available = True, bd_useHardware = False, bd_allowCPUFallback = False,
         bd_backend = CPUBackendName turbo, bd_hardwareState = ''not-requested'', bd_error = []\<rparr>
      else if hardwareAvailable then
        \<lparr>bd_available = True, bd_useHardware = True, bd_allowCPUFallback = (policy = kAuto),
         bd_backend = hardwareBackend, bd_hardwareState = ''available'', bd_error = []\<rparr>
      else if policy = kHardware then
        \<lparr>bd_available = False, bd_useHardware = False, bd_allowCPUFallback = False,
         bd_backend = ''unavailable'', bd_hardwareState = ''unavailable'',
         bd_error = ''snapshot JPEG policy requires a hardware backend, but none passed runtime preflight''\<rparr>
      else
        \<lparr>bd_available = True, bd_useHardware = False, bd_allowCPUFallback = True,
         bd_backend = CPUBackendName turbo, bd_hardwareState = ''unavailable'', bd_error = []\<rparr>)"

section \<open>The hardware module\<close>

text \<open>
  \<open>XGCSnapshotJpegHardwareEncoderV1\<close>: null pointers are \<open>None\<close> or \<open>False\<close>, a context is a number.
  \<open>hw_encode_rgb\<close> is the module's encoder: status, the buffer (null or its \<open>jpeg_size\<close> bytes), and
  the error text.
\<close>

type_synonym hw_encode = "bytes \<Rightarrow> u32 \<Rightarrow> u32 \<Rightarrow> int \<Rightarrow> int \<times> bytes option \<times> string"

record hw_encoder =
  hw_abi_version :: u32
  hw_struct_size :: nat
  hw_backend_name :: "string option"
  hw_context :: "nat option"
  hw_encode_rgb :: "hw_encode option"
  hw_release_jpeg :: bool
  hw_destroy :: bool

definition XGC_SNAPSHOT_JPEG_HARDWARE_ABI_V1 :: u32 where
  "XGC_SNAPSHOT_JPEG_HARDWARE_ABI_V1 = 1"

text \<open>\<open>sizeof(XGCSnapshotJpegHardwareEncoderV1)\<close> on the 64-bit targets: seven 8-byte slots.\<close>

definition hwEncoderSize :: nat where "hwEncoderSize = 56"

text \<open>
  The calls that acquire or release something; destroying a null context, which releases nothing,
  is not logged.
\<close>

datatype hw_call = HwDlopen | HwDlclose | HwCreated nat | HwDestroyed nat
  | HwBuffer nat | HwReleased nat

record jpeg_hardware =
  jh_library :: bool
  jh_encoder :: "hw_encoder option"
  jh_backend :: string
  jh_error :: string
  jh_calls :: "hw_call list"

text \<open>
  The dynamic linker and the factory of the module: \<open>ld_error\<close> is the text of \<open>dlerror()\<close> after a
  failed \<open>dlopen\<close>, \<open>ld_create\<close> the factory's status, the structure it filled in and its error text.
\<close>

record hw_loader =
  ld_opens :: bool
  ld_error :: "string option"
  ld_factory :: bool
  ld_factoryError :: bool
  ld_create :: "int \<times> hw_encoder \<times> string"

definition CloseHardware :: "jpeg_hardware \<Rightarrow> jpeg_hardware" where
  "CloseHardware s =
     (let s1 = (case jh_encoder s of None \<Rightarrow> s
                | Some e \<Rightarrow> s\<lparr>jh_encoder := None, jh_calls := jh_calls s
                    @ (if hw_destroy e then
                         (case hw_context e of None \<Rightarrow> [] | Some c \<Rightarrow> [HwDestroyed c]) else [])\<rparr>);
          s2 = (if jh_library s1 then s1\<lparr>jh_library := False, jh_calls := jh_calls s1 @ [HwDlclose]\<rparr>
                else s1)
      in s2\<lparr>jh_backend := []\<rparr>)"

definition hwAccepted :: "int \<Rightarrow> hw_encoder \<Rightarrow> bool" where
  "hwAccepted status e \<longleftrightarrow> status = 0 \<and> hw_abi_version e = XGC_SNAPSHOT_JPEG_HARDWARE_ABI_V1
     \<and> \<not> hw_struct_size e < hwEncoderSize
     \<and> (case hw_backend_name e of None \<Rightarrow> False | Some n \<Rightarrow> n \<noteq> [] \<and> \<not> length n > 64)
     \<and> hw_encode_rgb e \<noteq> None \<and> hw_release_jpeg e \<and> hw_destroy e"

definition OpenHardware :: "hw_loader \<Rightarrow> string \<Rightarrow> jpeg_hardware \<Rightarrow> bool \<times> jpeg_hardware" where
  "OpenHardware ld library s =
     (let s0 = CloseHardware s in
      if library = [] then (False, s0\<lparr>jh_error := ''snapshot JPEG hardware library is empty''\<rparr>)
      else if \<not> ld_opens ld then
        (False, s0\<lparr>jh_error := ''hardware JPEG module is unavailable''
           @ (case ld_error ld of None \<Rightarrow> []
              | Some m \<Rightarrow> if m = [] then [] else '': '' @ m)\<rparr>)
      else (let s1 = s0\<lparr>jh_library := True, jh_calls := jh_calls s0 @ [HwDlopen]\<rparr> in
        if \<not> ld_factory ld \<or> ld_factoryError ld then
          (False, CloseHardware
            (s1\<lparr>jh_error := ''hardware JPEG module does not export the v1 factory''\<rparr>))
        else (case ld_create ld of (status, e, message) \<Rightarrow>
          (let s2 = s1\<lparr>jh_calls := jh_calls s1
                   @ (case hw_context e of None \<Rightarrow> [] | Some c \<Rightarrow> [HwCreated c])\<rparr> in
           if \<not> hwAccepted status e then
             (let s3 = s2\<lparr>jh_error := (if message \<noteq> [] then message
                                       else ''hardware JPEG module failed ABI preflight'')\<rparr>;
                  s4 = (if hw_destroy e then
                          (case hw_context e of None \<Rightarrow> s3
                           | Some c \<Rightarrow> s3\<lparr>jh_calls := jh_calls s3 @ [HwDestroyed c]\<rparr>)
                        else s3)
              in (False, CloseHardware s4))
           else
             (True, s2\<lparr>jh_backend := the (hw_backend_name e), jh_encoder := Some e,
                       jh_error := []\<rparr>)))))"

definition hardwareAvailable :: "jpeg_hardware \<Rightarrow> bool" where
  "hardwareAvailable s \<longleftrightarrow> jh_library s \<and> jh_encoder s \<noteq> None"

record jpeg_result =
  jr_bytes :: bytes
  jr_backend :: string
  jr_error :: string

text \<open>
  The checks of the returned buffer; \<open>32u << 20\<close> is 33554432.
\<close>

definition maximumJpegBytes :: int where "maximumJpegBytes = 33554432"

definition jpegImage :: "bytes \<Rightarrow> bool" where
  "jpegImage b \<longleftrightarrow> \<not> length b < 4 \<and> \<not> int (length b) > maximumJpegBytes
     \<and> b ! 0 = 0xff \<and> b ! 1 = 0xd8 \<and> b ! (length b - 2) = 0xff \<and> b ! (length b - 1) = 0xd9"

text \<open>\<open>buffer\<close> names the allocation the module returns, if it returns one.\<close>

definition EncodeHardware ::
  "nat \<Rightarrow> bytes \<Rightarrow> u32 \<Rightarrow> u32 \<Rightarrow> int \<Rightarrow> jpeg_hardware \<Rightarrow> jpeg_result \<times> jpeg_hardware" where
  "EncodeHardware buffer rgb width height quality s =
     (case jh_encoder s of
        None \<Rightarrow> (\<lparr>jr_bytes = [], jr_backend = jh_backend s,
                   jr_error = ''hardware JPEG backend is not open''\<rparr>, s)
      | Some e \<Rightarrow>
          (case the (hw_encode_rgb e) rgb width height quality of (status, jpeg, message) \<Rightarrow>
            (let s1 = (if jpeg = None then s
                       else s\<lparr>jh_calls := jh_calls s @ [HwBuffer buffer, HwReleased buffer]\<rparr>) in
             if status \<noteq> 0 \<or> jpeg = None \<or> \<not> jpegImage (the jpeg) then
               (\<lparr>jr_bytes = [], jr_backend = jh_backend s,
                 jr_error = (if message \<noteq> [] then message
                             else ''hardware JPEG backend returned an invalid image'')\<rparr>, s1)
             else (\<lparr>jr_bytes = the jpeg, jr_backend = jh_backend s, jr_error = []\<rparr>, s1))))"

section \<open>libjpeg and the row copy\<close>

definition sizeMax :: u64 where "sizeMax = - 1"

text \<open>
  \<open>static_cast<std::size_t>(width) * height * 3\<close> and the guard of both callers, in 64-bit
  arithmetic; \<open>n\<close> is the number of bytes the caller passes. The division by \<open>height\<close> is only
  reached for a nonzero height.
\<close>

definition rgbBytes :: "u32 \<Rightarrow> u32 \<Rightarrow> u64" where
  "rgbBytes width height = ucast width * ucast height * 3"

definition rgbSizeWrong :: "u64 \<Rightarrow> u32 \<Rightarrow> u32 \<Rightarrow> bool" where
  "rgbSizeWrong n width height \<longleftrightarrow>
     (ucast width :: u64) > sizeMax div ucast height div 3 \<or> n \<noteq> rgbBytes width height"

definition scanline :: "bytes \<Rightarrow> u32 \<Rightarrow> nat \<Rightarrow> bytes" where
  "scanline rgb width row = take (unat width * 3) (drop (row * unat width * 3) rgb)"

text \<open>
  \<open>jpeg\<close> stands for libjpeg between \<open>jpeg_create_compress\<close> and \<open>jpeg_finish_compress\<close>: it is given
  the image size, the quality and the scan lines in the order they are written, and returns the
  compressed bytes or leaves through \<open>JPEGErrorExit\<close>. A null input is the empty buffer.
\<close>

definition EncodeSnapshotJpegCPU ::
  "bool \<Rightarrow> (u32 \<Rightarrow> u32 \<Rightarrow> int \<Rightarrow> bytes list \<Rightarrow> bytes option) \<Rightarrow> bytes \<Rightarrow> u32 \<Rightarrow> u32 \<Rightarrow> int
     \<Rightarrow> jpeg_result" where
  "EncodeSnapshotJpegCPU turbo jpeg rgb width height quality =
     (if rgb = [] \<or> width = 0 \<or> height = 0 \<or> width > 8192 \<or> height > 8192
         \<or> quality < 1 \<or> quality > 100
         \<or> rgbSizeWrong (of_nat (length rgb)) width height
      then \<lparr>jr_bytes = [], jr_backend = CPUBackendName turbo,
            jr_error = ''snapshot RGB input is invalid''\<rparr>
      else (case jpeg width height quality (map (scanline rgb width) [0..<unat height]) of
              None \<Rightarrow> \<lparr>jr_bytes = [], jr_backend = CPUBackendName turbo,
                        jr_error = ''libjpeg could not encode the snapshot''\<rparr>
            | Some bytes \<Rightarrow> \<lparr>jr_bytes = bytes, jr_backend = CPUBackendName turbo, jr_error = []\<rparr>))"

definition CopyGazeboPBOToImageOrder :: "bytes \<Rightarrow> u64 \<Rightarrow> u32 \<Rightarrow> u32 \<Rightarrow> bytes option" where
  "CopyGazeboPBOToImageOrder renderTextureRows n width height =
     (if renderTextureRows = [] \<or> width = 0 \<or> height = 0 \<or> rgbSizeWrong n width height then None
      else Some (take (unat n) renderTextureRows))"

section \<open>The policy\<close>

text \<open>
  The policy names parse back and nothing else parses. The choice keeps the policy: hardware is
  used exactly when it is available and not excluded, the CPU may stand in for it only under
  \<open>auto\<close>, and the plugin is unavailable exactly when hardware is required and missing.
\<close>

theorem jpeg_policy_honoured:
  "(ParseSnapshotJpegPolicy v = Some p \<longleftrightarrow> v = SnapshotJpegPolicyName p)
   \<and> (bd_useHardware (SelectSnapshotJpegBackend turbo p hw name) \<longleftrightarrow> hw \<and> p \<noteq> kCPU)
   \<and> (bd_allowCPUFallback (SelectSnapshotJpegBackend turbo p hw name) \<longleftrightarrow> p = kAuto)
   \<and> (bd_available (SelectSnapshotJpegBackend turbo p hw name) \<longleftrightarrow> \<not> (p = kHardware \<and> \<not> hw))
   \<and> (bd_error (SelectSnapshotJpegBackend turbo p hw name) = []
        \<longleftrightarrow> bd_available (SelectSnapshotJpegBackend turbo p hw name))"
  by (cases p) (auto simp: ParseSnapshotJpegPolicy_def SelectSnapshotJpegBackend_def)

section \<open>Resources of the hardware module\<close>

text \<open>Every acquisition is matched by a release, except what the object still holds.\<close>

definition hwBalanced :: "jpeg_hardware \<Rightarrow> bool" where
  "hwBalanced s \<longleftrightarrow>
     count_list (jh_calls s) HwDlopen = count_list (jh_calls s) HwDlclose + of_bool (jh_library s)
     \<and> (\<forall>c. count_list (jh_calls s) (HwCreated c) = count_list (jh_calls s) (HwDestroyed c)
          + of_bool (\<exists>e. jh_encoder s = Some e \<and> hw_context e = Some c))
     \<and> (\<forall>b. count_list (jh_calls s) (HwBuffer b) = count_list (jh_calls s) (HwReleased b))
     \<and> (\<forall>e. jh_encoder s = Some e \<longrightarrow> jh_library s \<and> hw_destroy e \<and> hw_encode_rgb e \<noteq> None)"

datatype hw_op = HwOpen hw_loader string | HwClose | HwEncode nat bytes u32 u32 int

fun hwOp :: "hw_op \<Rightarrow> jpeg_hardware \<Rightarrow> jpeg_hardware" where
  "hwOp (HwOpen ld library) s = snd (OpenHardware ld library s)"
| "hwOp HwClose s = CloseHardware s"
| "hwOp (HwEncode b rgb w h q) s = snd (EncodeHardware b rgb w h q s)"

text \<open>A factory that hands out a context also hands out the way to destroy it.\<close>

fun hwHonest :: "hw_op \<Rightarrow> bool" where
  "hwHonest (HwOpen ld library) \<longleftrightarrow>
     (case ld_create ld of (status, e, m) \<Rightarrow> hw_context e \<noteq> None \<longrightarrow> hw_destroy e)"
| "hwHonest _ \<longleftrightarrow> True"

lemma CloseHardware_closed [simp]:
  "jh_library (CloseHardware s) = False" "jh_encoder (CloseHardware s) = None"
  by (auto simp: CloseHardware_def Let_def split: option.split)

lemma hwBalanced_Close: "hwBalanced s \<Longrightarrow> hwBalanced (CloseHardware s)"
proof (cases "jh_encoder s")
  case None
  then show "hwBalanced s \<Longrightarrow> ?thesis" by (auto simp: hwBalanced_def CloseHardware_def Let_def)
next
  case (Some e)
  then show "hwBalanced s \<Longrightarrow> ?thesis"
    by (cases "hw_context e") (auto simp: hwBalanced_def CloseHardware_def Let_def)
qed

lemma hwBalanced_Encode: "hwBalanced s \<Longrightarrow> hwBalanced (snd (EncodeHardware b rgb w h q s))"
  by (auto simp: hwBalanced_def EncodeHardware_def Let_def split: option.splits prod.splits)

lemma hwBalanced_error [simp]:
  "hwBalanced (s\<lparr>jh_error := m\<rparr>) = hwBalanced s"
  "hwBalanced (s\<lparr>jh_library := l, jh_error := m, jh_calls := cs\<rparr>)
     = hwBalanced (s\<lparr>jh_library := l, jh_calls := cs\<rparr>)"
  by (simp_all add: hwBalanced_def)

lemma hwBalanced_dlopen:
  "hwBalanced s \<Longrightarrow> \<not> jh_library s \<Longrightarrow>
     hwBalanced (s\<lparr>jh_library := True, jh_calls := jh_calls s @ [HwDlopen]\<rparr>)"
  by (simp add: hwBalanced_def)

lemma hwBalanced_refused:
  "hwBalanced s \<Longrightarrow> hwBalanced (s\<lparr>jh_calls := jh_calls s @ [HwCreated c, HwDestroyed c]\<rparr>)"
  by (simp add: hwBalanced_def)

lemma hwBalanced_accepted:
  assumes "hwBalanced s" and "jh_library s" and "jh_encoder s = None" and "hwAccepted status e"
  shows "hwBalanced (s\<lparr>jh_calls := jh_calls s
      @ (case hw_context e of None \<Rightarrow> [] | Some c \<Rightarrow> [HwCreated c]),
      jh_backend := n, jh_encoder := Some e, jh_error := m\<rparr>)"
  using assms by (cases "hw_context e") (auto simp: hwBalanced_def hwAccepted_def)

lemma hwBalanced_Open:
  assumes "hwBalanced s" and "hwHonest (HwOpen ld library)"
  shows "hwBalanced (snd (OpenHardware ld library s))"
proof -
  let ?s0 = "CloseHardware s"
  let ?s1 = "?s0\<lparr>jh_library := True, jh_calls := jh_calls ?s0 @ [HwDlopen]\<rparr>"
  obtain status e message where create: "ld_create ld = (status, e, message)"
    by (cases "ld_create ld") auto
  have s0: "hwBalanced ?s0" by (rule hwBalanced_Close) fact
  have s1: "hwBalanced ?s1" using s0 by (intro hwBalanced_dlopen) simp_all
  have accepted: "hwAccepted status e \<Longrightarrow> hwBalanced (?s1\<lparr>jh_calls := jh_calls ?s1
      @ (case hw_context e of None \<Rightarrow> [] | Some c \<Rightarrow> [HwCreated c]),
      jh_backend := the (hw_backend_name e), jh_encoder := Some e, jh_error := []\<rparr>)"
    using s1 by (intro hwBalanced_accepted) simp_all
  have refused: "hwBalanced (?s1\<lparr>jh_calls := jh_calls ?s1 @ [HwCreated c, HwDestroyed c]\<rparr>)" for c
    by (rule hwBalanced_refused) (rule s1)
  show ?thesis
  proof (cases "hw_context e")
    case None
    then show ?thesis
      using s0 s1 accepted create
      by (simp add: OpenHardware_def Let_def hwBalanced_Close)
  next
    case (Some c)
    with assms(2) create have "hw_destroy e" by simp
    with Some show ?thesis
      using s0 s1 accepted create refused [of c]
      by (simp add: OpenHardware_def Let_def hwBalanced_Close)
  qed
qed

text \<open>
  C19: However the hardware backend is opened, used and closed, and whatever the module answers (as
  long as it gives a way to destroy what it creates): the library, the module's context and every
  JPEG buffer it returns are each released exactly once, apart from what an open backend still
  holds; after a close nothing is held.
\<close>

theorem jpeg_hardware_releases:
  assumes "jh_library s = False" and "jh_encoder s = None" and "jh_calls s = []"
    and "list_all hwHonest ops" and "calls = jh_calls (CloseHardware (fold hwOp ops s))"
  shows "count_list calls HwDlopen = count_list calls HwDlclose
    \<and> count_list calls (HwCreated c) = count_list calls (HwDestroyed c)
    \<and> count_list calls (HwBuffer b) = count_list calls (HwReleased b)
    \<and> hwBalanced (fold hwOp ops s)"
proof -
  have start: "hwBalanced s" using assms(1-3) by (simp add: hwBalanced_def)
  have "hwBalanced (fold hwOp ops u)" if "hwBalanced u" "list_all hwHonest ops" for u
    using that
  proof (induction ops arbitrary: u)
    case (Cons op ops)
    have "hwBalanced (hwOp op u)"
      using Cons.prems by (cases op) (simp_all add: hwBalanced_Close hwBalanced_Encode hwBalanced_Open del: hwHonest.simps)
    with Cons show ?case by simp
  qed simp
  from this [OF start assms(4)] have run: "hwBalanced (fold hwOp ops s)" .
  from hwBalanced_Close [OF run] show ?thesis
    using run assms(5) by (simp add: hwBalanced_def [of "CloseHardware _"])
qed

definition closedHardware :: jpeg_hardware where
  "closedHardware = \<lparr>jh_library = False, jh_encoder = None, jh_backend = [], jh_error = [],
     jh_calls = []\<rparr>"

definition demoModule :: hw_encoder where
  "demoModule = \<lparr>hw_abi_version = 1, hw_struct_size = 56, hw_backend_name = Some ''nvjpeg'',
     hw_context = Some 7,
     hw_encode_rgb = Some (\<lambda>rgb w h q. (0, Some [0xff, 0xd8, 1, 0xff, 0xd9], [])),
     hw_release_jpeg = True, hw_destroy = True\<rparr>"

definition demoLoader :: hw_loader where
  "demoLoader = \<lparr>ld_opens = True, ld_error = None, ld_factory = True, ld_factoryError = False,
     ld_create = (0, demoModule, [])\<rparr>"

theorem jpeg_hardware_releases_witness:
  "count_list (jh_calls (CloseHardware (fold hwOp [HwOpen demoLoader ''lib'', HwEncode 3 [1, 2, 3] 1 1 90,
      HwOpen demoLoader ''lib''] closedHardware))) (HwCreated 7) = 2
   \<and> count_list (jh_calls (CloseHardware (fold hwOp [HwOpen demoLoader ''lib'', HwEncode 3 [1, 2, 3] 1 1 90,
      HwOpen demoLoader ''lib''] closedHardware))) (HwDestroyed 7) = 2"
proof -
  let ?ops = "[HwOpen demoLoader ''lib'', HwEncode 3 [1, 2, 3] 1 1 90, HwOpen demoLoader ''lib'']"
  have "list_all hwHonest ?ops" by (simp add: demoLoader_def demoModule_def)
  from jpeg_hardware_releases [OF _ _ _ this refl, of closedHardware 7 3]
  have "count_list (jh_calls (CloseHardware (fold hwOp ?ops closedHardware))) (HwCreated 7)
      = count_list (jh_calls (CloseHardware (fold hwOp ?ops closedHardware))) (HwDestroyed 7)"
    by (simp add: closedHardware_def)
  moreover have "count_list (jh_calls (CloseHardware (fold hwOp ?ops closedHardware))) (HwCreated 7) = 2"
    by code_simp
  ultimately show ?thesis by simp
qed

text \<open>
  What the hardware backend returns without an error is a JPEG image: between 4 bytes and 32
  MiB, with the start and end markers, exactly the module's buffer; every other answer of the
  module, a null or malformed buffer included, is an error without bytes, and the buffer is
  released in both cases.
\<close>

theorem EncodeHardware_image:
  assumes "jh_encoder s = Some e" and "hw_encode_rgb e = Some f"
    and "f rgb w h q = (status, jpeg, message)"
    and "(r, s') = EncodeHardware buffer rgb w h q s"
  shows "(jr_error r = [] \<longleftrightarrow> status = 0 \<and> (\<exists>b. jpeg = Some b \<and> 4 \<le> length b
        \<and> length b \<le> 32 * 2 ^ 20 \<and> take 2 b = [0xff, 0xd8] \<and> drop (length b - 2) b = [0xff, 0xd9]))
    \<and> (jr_error r = [] \<longrightarrow> jpeg = Some (jr_bytes r)) \<and> (jr_error r \<noteq> [] \<longrightarrow> jr_bytes r = [])
    \<and> jh_calls s' = jh_calls s @ (if jpeg = None then [] else [HwBuffer buffer, HwReleased buffer])"
proof -
  have image: "jpegImage b \<longleftrightarrow> 4 \<le> length b \<and> length b \<le> 32 * 2 ^ 20
      \<and> take 2 b = [0xff, 0xd8] \<and> drop (length b - 2) b = [0xff, 0xd9]" for b
  proof (cases "4 \<le> length b")
    case True
    then have "take 2 b = [b ! 0, b ! 1]"
      by (cases b; cases "tl b") auto
    moreover have "drop (length b - 2) b = [b ! (length b - 2), b ! (length b - 1)]"
      using True by (simp add: Cons_nth_drop_Suc [symmetric] Suc_diff_Suc numeral_2_eq_2)
    ultimately show ?thesis using True by (auto simp: jpegImage_def maximumJpegBytes_def)
  qed (simp add: jpegImage_def)
  show ?thesis
    using assms by (cases jpeg) (auto simp: EncodeHardware_def Let_def image split: if_splits)
qed

theorem EncodeHardware_image_witness:
  "jr_bytes (fst (EncodeHardware 3 [1, 2, 3] 1 1 90
      (closedHardware\<lparr>jh_library := True, jh_encoder := Some demoModule\<rparr>)))
     = [0xff, 0xd8, 1, 0xff, 0xd9]"
  using EncodeHardware_image [of "closedHardware\<lparr>jh_library := True, jh_encoder := Some demoModule\<rparr>"
      demoModule _ "[1, 2, 3]" 1 1 90 0 "Some [0xff, 0xd8, 1, 0xff, 0xd9]" "[]", OF _ _ _ surjective_pairing [symmetric], of _ 3]
  by (simp add: demoModule_def)

section \<open>Sizes\<close>

lemma rgbSizeWrong_exact:
  assumes "h \<noteq> 0"
  shows "rgbSizeWrong n w h \<longleftrightarrow> unat n \<noteq> unat w * unat h * 3"
proof -
  let ?M = "18446744073709551615 :: nat"
  have h: "0 < unat h" using assms by (simp add: unat_gt_0)
  have "unat w < 2 ^ LENGTH(32)" "unat h < 2 ^ LENGTH(32)" "unat n < 2 ^ LENGTH(64)"
    by (rule unsigned_less)+
  then have small: "unat w < 2 ^ 32" "unat h < 2 ^ 32" and n: "unat n \<le> ?M" by simp_all
  have uw: "unat (ucast w :: u64) = unat w" "unat (ucast h :: u64) = unat h"
    using small by (simp_all add: unsigned_ucast_eq take_bit_nat_eq_self)
  have max: "unat sizeMax = ?M"
    by (simp add: sizeMax_def unsigned_minus_1_eq_mask mask_eq_exp_minus_1)
  have guard: "(ucast w :: u64) > sizeMax div ucast h div 3 \<longleftrightarrow> unat w > ?M div (unat h * 3)"
    by (simp add: word_less_nat_alt unat_div uw max div_mult2_eq)
  show ?thesis
  proof (cases "unat w > ?M div (unat h * 3)")
    case True
    then have "?M < unat w * (unat h * 3)" using h by (simp add: div_less_iff_less_mult mult.commute)
    then have "unat n \<noteq> unat w * (unat h * 3)" using n by linarith
    with True guard show ?thesis by (simp add: rgbSizeWrong_def mult.assoc)
  next
    case False
    then have "unat w * (unat h * 3) \<le> ?M" using h by (simp add: not_less less_eq_div_iff_mult_less_eq mult.commute)
    then have "unat w * unat h * 3 < 2 ^ 64" by (simp only: mult.assoc) (erule le_less_trans, simp)
    then have "unat (rgbBytes w h) = unat w * unat h * 3"
      by (simp add: rgbBytes_def unat_word_ariths uw mod_less)
    with False guard show ?thesis by (auto simp: rgbSizeWrong_def word_unat_eq_iff)
  qed
qed


lemma scanlines:
  assumes "length rgb = n * (unat w * 3)"
  shows "concat (map (scanline rgb w) [0..<n]) = rgb"
    and "\<forall>r \<in> set (map (scanline rgb w) [0..<n]). length r = unat w * 3"
proof -
  have "concat (map (scanline rgb w) [0..<k]) = take (k * (unat w * 3)) rgb" if "k \<le> n" for k
    using that
  proof (induction k)
    case (Suc k)
    then show ?case
      by (simp add: scanline_def take_add mult.assoc [symmetric] add.commute [of "unat w * 3"])
  qed simp
  from this [of n] assms show "concat (map (scanline rgb w) [0..<n]) = rgb" by simp
  have "i * unat w * 3 + unat w * 3 \<le> n * (unat w * 3)" if "i < n" for i
  proof -
    have "Suc i * (unat w * 3) \<le> n * (unat w * 3)" using that by (intro mult_le_mono1) simp
    then show ?thesis by (simp add: mult.assoc)
  qed
  then have "unat w * 3 \<le> length rgb - i * unat w * 3" if "i < n" for i
    using that assms by (metis add.commute add_le_imp_le_diff)
  with assms show "\<forall>r \<in> set (map (scanline rgb w) [0..<n]). length r = unat w * 3"
    by (auto simp: scanline_def min_absorb2)
qed

text \<open>
  The CPU encoder hands libjpeg an image only when both sides are between 1 and 8192, the
  quality between 1 and 100 and the buffer exactly width times height times 3 bytes, computed
  without wrap-around; then it writes as many scan lines as the image is high, each of width times
  3 bytes inside the buffer, and together they are the buffer. Any other input is refused without
  calling libjpeg.
\<close>

theorem EncodeSnapshotJpegCPU_rows:
  assumes "length rgb < 2 ^ 64"
    and "valid \<longleftrightarrow> 1 \<le> unat w \<and> unat w \<le> 8192 \<and> 1 \<le> unat h \<and> unat h \<le> 8192
      \<and> 1 \<le> q \<and> q \<le> 100 \<and> length rgb = unat w * unat h * 3"
  shows "(valid \<longrightarrow> (\<exists>rows. length rows = unat h \<and> concat rows = rgb
        \<and> (\<forall>r \<in> set rows. length r = unat w * 3)
        \<and> EncodeSnapshotJpegCPU turbo jpeg rgb w h q =
            (case jpeg w h q rows of
               None \<Rightarrow> \<lparr>jr_bytes = [], jr_backend = CPUBackendName turbo,
                         jr_error = ''libjpeg could not encode the snapshot''\<rparr>
             | Some b \<Rightarrow> \<lparr>jr_bytes = b, jr_backend = CPUBackendName turbo, jr_error = []\<rparr>)))
    \<and> (\<not> valid \<longrightarrow> EncodeSnapshotJpegCPU turbo jpeg rgb w h q =
          \<lparr>jr_bytes = [], jr_backend = CPUBackendName turbo,
           jr_error = ''snapshot RGB input is invalid''\<rparr>)"
proof -
  have len: "unat (of_nat (length rgb) :: u64) = length rgb"
    using assms(1) by (simp add: unat_of_nat take_bit_nat_eq_self)
  have pos: "w = 0 \<longleftrightarrow> unat w = 0" "h = 0 \<longleftrightarrow> unat h = 0" by (simp_all add: unat_eq_0)
  have refuse: "(rgb = [] \<or> w = 0 \<or> h = 0 \<or> w > 8192 \<or> h > 8192 \<or> q < 1 \<or> q > 100
      \<or> rgbSizeWrong (of_nat (length rgb)) w h) \<longleftrightarrow> \<not> valid"
  proof (cases "h = 0 \<or> w = 0 \<or> rgb = []")
    case True
    with assms(2) pos show ?thesis by auto
  next
    case False
    with assms(2) pos rgbSizeWrong_exact [of h "of_nat (length rgb)" w] len show ?thesis
      by (auto simp: word_less_nat_alt)
  qed
  show ?thesis
  proof (cases valid)
    case True
    then have "length rgb = unat h * (unat w * 3)" using assms(2) by (simp add: mult.commute mult.left_commute)
    from scanlines [OF this] True refuse show ?thesis
      by (intro conjI impI exI [of _ "map (scanline rgb w) [0..<unat h]"])
        (simp_all add: EncodeSnapshotJpegCPU_def)
  next
    case False
    with refuse show ?thesis by (simp add: EncodeSnapshotJpegCPU_def)
  qed
qed

theorem EncodeSnapshotJpegCPU_rows_witness:
  "\<exists>rows. length rows = 2 \<and> concat rows = [1, 2, 3, 4, 5, 6]
     \<and> jr_bytes (EncodeSnapshotJpegCPU True (\<lambda>w h q rows. Some (concat rows)) [1, 2, 3, 4, 5, 6] 1 2 90)
         = concat rows"
  using EncodeSnapshotJpegCPU_rows [of "[1, 2, 3, 4, 5, 6]" True 1 2 90 True
      "\<lambda>w h q rows. Some (concat rows)"]
  by auto

text \<open>
  The copy of the pixel buffer succeeds exactly when the buffer has width times height times 3
  bytes as an unbounded product (the guard excludes every wrap-around of the 64-bit product), and
  then the image rows are the buffer's rows in the same order.
\<close>

theorem CopyGazeboPBOToImageOrder_exact:
  assumes "length rows = unat n" and "rows \<noteq> []"
  shows "CopyGazeboPBOToImageOrder rows n w h =
    (if unat n = unat w * unat h * 3 then Some rows else None)"
proof (cases "w = 0 \<or> h = 0")
  case True
  moreover have "0 < unat n" using assms by (cases rows) auto
  ultimately show ?thesis by (auto simp: CopyGazeboPBOToImageOrder_def)
next
  case False
  with assms rgbSizeWrong_exact [of h n w] show ?thesis
    by (simp add: CopyGazeboPBOToImageOrder_def)
qed

theorem CopyGazeboPBOToImageOrder_exact_witness:
  "CopyGazeboPBOToImageOrder [1, 2, 3] 3 1 1 = Some [1, 2, 3]
   \<and> CopyGazeboPBOToImageOrder [1, 2, 3] 3 0xFFFFFFFF 0xFFFFFFFF = None"
  using CopyGazeboPBOToImageOrder_exact [of "[1, 2, 3]" 3 1 1]
    CopyGazeboPBOToImageOrder_exact [of "[1, 2, 3]" 3 "0xFFFFFFFF" "0xFFFFFFFF"] by simp

end
