(* ===== verification/Snapshot_Capture.thy ===== *)
theory Snapshot_Capture
  imports ROS_Publisher Snapshot_Jpeg
begin

text \<open>
  Explicit snapshots: the capture armed by the control executor, its readback in the render thread
  (through an OpenGL pixel buffer object, or synchronously), the depth-one JPEG worker, and the
  collection of the result. OpenGL, OGRE and the camera are parameters; the OpenGL binding state
  the code saves and restores is part of the state. The lemmas show that one capture is in flight
  at most, that a result can only reach the capture it was taken for, and that the OpenGL state is
  restored on every path.
\<close>

section \<open>State\<close>

record snapshot_result =
  sn_completed :: bool
  sn_failed :: bool
  sn_captureSubmitted :: bool
  sn_includeRGB :: bool
  sn_jpegQuality :: int
  sn_error :: string
  sn_id :: string
  sn_generation :: u64
  sn_frameSequence :: u64
  sn_calibrationValid :: bool
  sn_timestampNanoseconds :: int
  sn_width :: u32
  sn_height :: u32
  sn_cameraMatrix :: "real list"
  sn_distortion :: "real list"
  sn_renderPosition :: "real list"
  sn_renderOrientation :: "real list"
  sn_poseFrameID :: string
  sn_renderPoseValid :: bool
  sn_jpegBackend :: string
  sn_jpegReadback :: string
  sn_jpegFallbackReason :: string
  sn_jpegReadbackMilliseconds :: real
  sn_jpegEncodeMilliseconds :: real
  sn_rgb :: bytes
  sn_jpeg :: bytes

definition SnapshotResult :: snapshot_result where
  "SnapshotResult = \<lparr>sn_completed = False, sn_failed = False, sn_captureSubmitted = False,
     sn_includeRGB = True, sn_jpegQuality = 90, sn_error = [], sn_id = [], sn_generation = 0,
     sn_frameSequence = 0, sn_calibrationValid = False, sn_timestampNanoseconds = 0, sn_width = 0,
     sn_height = 0, sn_cameraMatrix = replicate 9 0, sn_distortion = replicate 5 0,
     sn_renderPosition = replicate 3 0, sn_renderOrientation = replicate 4 0, sn_poseFrameID = [],
     sn_renderPoseValid = False, sn_jpegBackend = [], sn_jpegReadback = [],
     sn_jpegFallbackReason = [], sn_jpegReadbackMilliseconds = 0, sn_jpegEncodeMilliseconds = 0,
     sn_rgb = [], sn_jpeg = []\<rparr>"

text \<open>The OpenGL bindings and pixel store parameters that the readback changes.\<close>

record gl_state =
  gl_readFramebuffer :: nat
  gl_packBuffer :: nat
  gl_packAlignment :: int
  gl_packRowLength :: int
  gl_packSkipRows :: int
  gl_packSkipPixels :: int

text \<open>
  OpenGL names are numbers, 0 is none. \<open>glFences\<close> counts the sync objects that were created and
  not yet deleted.
\<close>

record snap = ros +
  jpegQuality :: int
  snapshotJpegPolicy :: jpeg_policy
  snapshotJpegBackend :: backend_decision
  snapshotJpegHardware :: jpeg_hardware
  snapshotJpegHardwarePreflightError :: string
  snapshotJpegHardwareFusedOff :: bool
  snapshotPoseFrameID :: string
  renderFrameSequence :: u64
  captureKeyframeGeneration :: u64
  nativeCaptureKeyframePending :: u64
  nativeCaptureKeyframeApplied :: u64
  nativeCaptureKeyframeFailed :: u64
  captureSlotHeld :: bool
  snapshot :: snapshot_result
  snapshotGeneration :: u64
  snapshotRenderPassesToSkip :: u32
  snapshotReadbackPending :: bool
  snapshotPBOAvailable :: bool
  snapshotPBOFailureReason :: string
  snapshotReadbackBuffer :: nat
  snapshotReadFramebuffer :: nat
  snapshotReadbackFence :: bool
  snapshotReadbackBufferBytes :: nat
  snapshotReadbackResult :: "snapshot_result option"
  snapshotEncodeJob :: "snapshot_result option"
  snapshotEncoderStopping :: bool
  glewInitialized :: bool
  glState :: gl_state
  glFences :: nat

section \<open>Arming and collecting a capture\<close>

text \<open>
  The section of \<open>HandleControlRequest\<close> that arms a capture, and the section of \<open>FlushCapture\<close>
  that takes its result: \<open>expired\<close> is \<open>cancelled() || now >= captureDeadline_\<close>, \<open>None\<close> is a return
  without an answer.
\<close>

definition armSnapshot :: "string \<Rightarrow> bool \<Rightarrow> bool \<Rightarrow> 'z snap_scheme \<Rightarrow> 'z snap_scheme" where
  "armSnapshot identifier includeRGB requestKeyframe s =
     (let generation = snapshotGeneration s + 1 in
      s\<lparr>snapshotGeneration := generation,
        snapshot := SnapshotResult\<lparr>sn_id := identifier, sn_generation := generation,
                                   sn_includeRGB := includeRGB\<rparr>,
        captureKeyframeGeneration := (if requestKeyframe then generation else 0),
        snapshotRenderPassesToSkip := 1\<rparr>)"

definition takeSnapshot ::
  "bool \<Rightarrow> 'z snap_scheme \<Rightarrow> snapshot_result option \<times> 'z snap_scheme" where
  "takeSnapshot expired s =
     (let completed = sn_completed (snapshot s);
          unacknowledged = (completed \<and> captureKeyframeGeneration s \<noteq> 0
            \<and> nativeCaptureKeyframeApplied s \<noteq> captureKeyframeGeneration s)
      in if unacknowledged \<and> nativeCaptureKeyframeFailed s \<noteq> captureKeyframeGeneration s
         then (None, s)
         else (let s1 = (if unacknowledged then s\<lparr>snapshot := (snapshot s)\<lparr>sn_failed := True,
                       sn_error := ''native force-IDR did not accept the capture request''\<rparr>\<rparr>
                     else s)
           in if completed then
                (Some (snapshot s1),
                 s1\<lparr>snapshot := SnapshotResult, snapshotRenderPassesToSkip := 0\<rparr>)
              else if expired then
                (if \<not> sn_captureSubmitted (snapshot s1) \<and> \<not> snapshotReadbackPending s1 then
                   (Some (SnapshotResult\<lparr>sn_failed := True,
                            sn_error := ''camera capture deadline exceeded''\<rparr>),
                    s1\<lparr>snapshot := SnapshotResult, snapshotRenderPassesToSkip := 0\<rparr>)
                 else (None, s1))
              else (None, s1)))"

definition SnapshotNeedsRender :: "'z snap_scheme \<Rightarrow> bool" where
  "SnapshotNeedsRender s \<longleftrightarrow>
     (if snapshotReadbackPending s then True
      else sn_id (snapshot s) \<noteq> [] \<and> \<not> sn_completed (snapshot s)
           \<and> \<not> sn_captureSubmitted (snapshot s))"

section \<open>Completion, failure and the JPEG worker\<close>

definition CompleteSnapshotFailure :: "string \<Rightarrow> 'z snap_scheme \<Rightarrow> 'z snap_scheme" where
  "CompleteSnapshotFailure message s =
     (if sn_id (snapshot s) = [] \<or> sn_completed (snapshot s) then s
      else WakeControl (s\<lparr>snapshot := (snapshot s)\<lparr>sn_failed := True, sn_completed := True,
                                                    sn_error := message\<rparr>\<rparr>))"

definition RearmSnapshotAfterPBOFailure ::
  "snapshot_result \<Rightarrow> string \<Rightarrow> 'z snap_scheme \<Rightarrow> 'z snap_scheme" where
  "RearmSnapshotAfterPBOFailure result reason s =
     (let s1 = LogEncoderError (reason @ ''; recapturing through synchronous readback'')
                 (s\<lparr>snapshotPBOFailureReason := reason, snapshotPBOAvailable := False\<rparr>)
      in if sn_id (snapshot s1) = sn_id result \<and> sn_generation (snapshot s1) = sn_generation result
            \<and> \<not> sn_completed (snapshot s1)
         then s1\<lparr>snapshot := (snapshot s1)\<lparr>sn_captureSubmitted := False\<rparr>,
                 snapshotRenderPassesToSkip := 0\<rparr>
         else s1)"

definition StartSnapshotEncoder :: "bool \<Rightarrow> 'z snap_scheme \<Rightarrow> bool \<times> 'z snap_scheme" where
  "StartSnapshotEncoder threadCreated s = (threadCreated, s\<lparr>snapshotEncoderStopping := False\<rparr>)"

definition StopSnapshotEncoder :: "'z snap_scheme \<Rightarrow> 'z snap_scheme" where
  "StopSnapshotEncoder s = s\<lparr>snapshotEncoderStopping := True, snapshotEncodeJob := None\<rparr>"

definition QueueSnapshotEncode :: "snapshot_result \<Rightarrow> 'z snap_scheme \<Rightarrow> bool \<times> 'z snap_scheme" where
  "QueueSnapshotEncode result s =
     (if snapshotEncoderStopping s \<or> snapshotEncodeJob s \<noteq> None then (False, s)
      else (True, s\<lparr>snapshotEncodeJob := Some result\<rparr>))"

text \<open>The caller's \<open>if (!QueueSnapshotEncode(...)) CompleteSnapshotFailure(...)\<close>, twice in the code.\<close>

definition submitSnapshot :: "snapshot_result \<Rightarrow> 'z snap_scheme \<Rightarrow> bool \<times> 'z snap_scheme" where
  "submitSnapshot result s =
     (case QueueSnapshotEncode result s of
        (True, s1) \<Rightarrow> (True, s1)
      | (False, s1) \<Rightarrow>
          (False, CompleteSnapshotFailure ''snapshot JPEG worker queue is unavailable'' s1))"

text \<open>
  The encoding between the two critical sections of the worker. \<open>jpeg\<close> is libjpeg, \<open>buffer\<close> names
  the module's allocation and \<open>milliseconds\<close> is the measured time.
\<close>

definition encodeSnapshot ::
  "bool \<Rightarrow> (u32 \<Rightarrow> u32 \<Rightarrow> int \<Rightarrow> bytes list \<Rightarrow> bytes option) \<Rightarrow> nat \<Rightarrow> real \<Rightarrow> snapshot_result
     \<Rightarrow> 'z snap_scheme \<Rightarrow> snapshot_result \<times> 'z snap_scheme" where
  "encodeSnapshot turbo jpeg buffer milliseconds result s =
     (let backend = snapshotJpegBackend s;
          tryHardware = (bd_useHardware backend \<and> \<not> snapshotJpegHardwareFusedOff s);
          (hardware, h) = (if tryHardware
             then EncodeHardware buffer (sn_rgb result) (sn_width result) (sn_height result)
                    (sn_jpegQuality result) (snapshotJpegHardware s)
             else (\<lparr>jr_bytes = [], jr_backend = [], jr_error = []\<rparr>, snapshotJpegHardware s));
          s1 = s\<lparr>snapshotJpegHardware := h\<rparr>;
          useCPU = (\<not> tryHardware \<or> (jr_error hardware \<noteq> [] \<and> bd_allowCPUFallback backend));
          fuse = (useCPU \<and> tryHardware \<and> jr_error hardware \<noteq> []);
          reason = (if fuse
             then ''hardware JPEG backend failed and was fused off: '' @ jr_error hardware
             else sn_jpegFallbackReason result);
          s2 = (if fuse then LogEncoderError reason (s1\<lparr>snapshotJpegHardwareFusedOff := True\<rparr>)
                else s1);
          encoded = (if useCPU
             then EncodeSnapshotJpegCPU turbo jpeg (sn_rgb result) (sn_width result)
                    (sn_height result) (sn_jpegQuality result)
             else hardware);
          reason2 = (if snapshotJpegPolicy s = kAuto \<and> bd_hardwareState backend = ''unavailable''
             then reason @ (if reason \<noteq> [] then ''; '' else [])
                  @ ''hardware backend unavailable at runtime preflight''
                  @ (if snapshotJpegHardwarePreflightError s \<noteq> []
                     then '': '' @ snapshotJpegHardwarePreflightError s else [])
             else reason);
          result1 = result\<lparr>sn_jpegEncodeMilliseconds := milliseconds,
             sn_jpegBackend := jr_backend encoded, sn_jpegFallbackReason := reason2,
             sn_jpeg := jr_bytes encoded,
             sn_rgb := (if sn_includeRGB result then sn_rgb result else [])\<rparr>;
          bad = (jr_error encoded \<noteq> [] \<or> jr_bytes encoded = []);
          message = (if jr_error encoded = [] then ''camera snapshot JPEG encoding failed''
                     else jr_error encoded)
      in if bad then
           (result1\<lparr>sn_failed := True, sn_error := message, sn_completed := True\<rparr>,
            LogEncoderError message s2)
         else (result1\<lparr>sn_completed := True\<rparr>, s2))"

definition deliverSnapshot :: "snapshot_result \<Rightarrow> 'z snap_scheme \<Rightarrow> 'z snap_scheme" where
  "deliverSnapshot result s =
     (if sn_id (snapshot s) = sn_id result \<and> sn_generation (snapshot s) = sn_generation result
         \<and> \<not> sn_completed (snapshot s)
      then WakeControl (s\<lparr>snapshot := result\<rparr>) else s)"

definition SnapshotEncoderLoop ::
  "bool \<Rightarrow> (u32 \<Rightarrow> u32 \<Rightarrow> int \<Rightarrow> bytes list \<Rightarrow> bytes option) \<Rightarrow> nat \<Rightarrow> real
     \<Rightarrow> (nat \<Rightarrow> 'z snap_scheme \<Rightarrow> 'z snap_scheme) \<Rightarrow> 'z snap_scheme \<Rightarrow> ('z snap_scheme) loop" where
  "SnapshotEncoderLoop turbo jpeg buffer milliseconds env s =
     (if \<not> (snapshotEncoderStopping s \<or> snapshotEncodeJob s \<noteq> None) then LoopWaits
      else if snapshotEncoderStopping s then LoopReturns s
      else (case encodeSnapshot turbo jpeg buffer milliseconds (the (snapshotEncodeJob s))
                   (env 0 (s\<lparr>snapshotEncodeJob := None\<rparr>)) of
              (result, s1) \<Rightarrow> LoopContinues (deliverSnapshot result (env 1 s1))))"

section \<open>The render thread\<close>

text \<open>
  What the render thread sees of the camera in one pass. \<open>cam_matrixFinite\<close> is whether all entries
  of the projected matrix are finite (real numbers always are), \<open>cam_opticalRotation\<close> the
  normalised product of the camera's rotation with the fixed link-to-optical rotation,
  \<open>cam_simTime\<close> the seconds and nanoseconds of the scene time.
\<close>

record camera_view =
  cam_renderTexture :: bool
  cam_width :: u32
  cam_height :: u32
  cam_perspective :: bool
  cam_projection :: "nat \<Rightarrow> nat \<Rightarrow> real"
  cam_matrixFinite :: bool
  cam_lens :: "real list option"
  cam_position :: "real list"
  cam_opticalRotation :: "real list"
  cam_simTime :: "int \<times> int"

definition pickSnapshot :: "'z snap_scheme \<Rightarrow> snapshot_result option \<times> 'z snap_scheme" where
  "pickSnapshot s =
     (if sn_id (snapshot s) = [] \<or> sn_completed (snapshot s) \<or> sn_captureSubmitted (snapshot s)
      then (None, s)
      else if snapshotRenderPassesToSkip s > 0
      then (None, s\<lparr>snapshotRenderPassesToSkip := snapshotRenderPassesToSkip s - 1\<rparr>)
      else (Some (SnapshotResult\<lparr>sn_id := sn_id (snapshot s),
                    sn_generation := sn_generation (snapshot s),
                    sn_includeRGB := sn_includeRGB (snapshot s)\<rparr>), s))"

definition projectedMatrix :: "(nat \<Rightarrow> nat \<Rightarrow> real) \<Rightarrow> u32 \<Rightarrow> u32 \<Rightarrow> real list" where
  "projectedMatrix projection width height =
     (let w = real (unat width); h = real (unat height) in
      [projection 0 0 * w / 2, projection 0 1 * w / 2, (1 - projection 0 2) * w / 2,
       0, projection 1 1 * h / 2, (1 + projection 1 2) * h / 2, 0, 0, 1])"

definition describeSnapshot ::
  "camera_view \<Rightarrow> snapshot_result \<Rightarrow> 'z snap_scheme \<Rightarrow> snapshot_result" where
  "describeSnapshot cam result s =
     (let r1 = result\<lparr>sn_width := cam_width cam, sn_height := cam_height cam,
                 sn_frameSequence := renderFrameSequence s, sn_jpegQuality := jpegQuality s\<rparr>;
          matrix = projectedMatrix (cam_projection cam) (cam_width cam) (cam_height cam);
          r2 = (if cam_perspective cam
                then r1\<lparr>sn_cameraMatrix := matrix,
                        sn_calibrationValid := (cam_matrixFinite cam \<and> matrix ! 0 > 0 \<and> matrix ! 4 > 0),
                        sn_distortion := (case cam_lens cam of None \<Rightarrow> sn_distortion r1 | Some d \<Rightarrow> d)\<rparr>
                else r1)
      in r2\<lparr>sn_renderPosition := cam_position cam, sn_renderOrientation := cam_opticalRotation cam,
            sn_poseFrameID := snapshotPoseFrameID s, sn_renderPoseValid := True,
            sn_timestampNanoseconds := fst (cam_simTime cam) * 1000000000 + snd (cam_simTime cam)\<rparr>)"

text \<open>
  The OpenGL calls of one pass: what they return, and whether \<open>glGetError\<close> reports success.
  \<open>gc_texture\<close> is the camera texture's name, or 0 when it is not an OpenGL texture.
\<close>

record gl_calls =
  gc_glewInit :: bool
  gc_pixelBuffers :: bool
  gc_genBuffer :: nat
  gc_genFramebuffer :: nat
  gc_bufferData :: bool
  gc_texture :: nat
  gc_complete :: bool
  gc_issued :: bool
  gc_fence :: bool

definition EnsureGLEWDispatch :: "gl_calls \<Rightarrow> 'z snap_scheme \<Rightarrow> bool \<times> 'z snap_scheme" where
  "EnsureGLEWDispatch gl s =
     (if glewInitialized s then (True, s)
      else if \<not> gc_glewInit gl then
        (False, LogEncoderError ''GLEW could not initialize in the Gazebo render context'' s)
      else (True, s\<lparr>glewInitialized := True\<rparr>))"

text \<open>The three statements the code repeats when the asynchronous readback is given up.\<close>

definition abandonPBO :: "string \<Rightarrow> 'z snap_scheme \<Rightarrow> bool \<times> 'z snap_scheme" where
  "abandonPBO reason s =
     (False, LogEncoderError (reason @ ''; using synchronous readback'')
        (s\<lparr>snapshotPBOFailureReason := reason, snapshotPBOAvailable := False\<rparr>))"

definition bindPackBuffer :: "nat \<Rightarrow> 'z snap_scheme \<Rightarrow> 'z snap_scheme" where
  "bindPackBuffer b s = s\<lparr>glState := (glState s)\<lparr>gl_packBuffer := b\<rparr>\<rparr>"

definition EnsureSnapshotPBO :: "gl_calls \<Rightarrow> nat \<Rightarrow> 'z snap_scheme \<Rightarrow> bool \<times> 'z snap_scheme" where
  "EnsureSnapshotPBO gl bytes s =
     (case EnsureGLEWDispatch gl s of (glew, s0) \<Rightarrow>
       if \<not> glew \<or> \<not> gc_pixelBuffers gl
       then abandonPBO ''asynchronous OpenGL PBO readback is unavailable'' s0
       else (let s1 = (if snapshotReadbackBuffer s0 = 0
                       then s0\<lparr>snapshotReadbackBuffer := gc_genBuffer gl\<rparr> else s0);
                 s2 = (if snapshotReadFramebuffer s1 = 0
                       then s1\<lparr>snapshotReadFramebuffer := gc_genFramebuffer gl\<rparr> else s1)
             in if snapshotReadbackBuffer s2 = 0 \<or> snapshotReadFramebuffer s2 = 0
                then abandonPBO ''OpenGL could not allocate snapshot PBO resources'' s2
                else if snapshotReadbackBufferBytes s2 \<noteq> bytes then
                  (let previousBuffer = gl_packBuffer (glState s2);
                       s3 = bindPackBuffer previousBuffer
                              (bindPackBuffer (snapshotReadbackBuffer s2) s2)
                   in if \<not> gc_bufferData gl
                      then abandonPBO ''OpenGL could not size the snapshot PBO'' s3
                      else (True, s3\<lparr>snapshotReadbackBufferBytes := bytes\<rparr>))
                else (True, s2)))"

text \<open>
  \<open>IssueSnapshotPBOReadback\<close>, with the code's \<open>restore\<close>; \<open>between\<close> is what the other threads do
  before the code locks the snapshot again. The result says whether the caller is done.
\<close>

definition restoreGL :: "gl_state \<Rightarrow> 'z snap_scheme \<Rightarrow> 'z snap_scheme" where
  "restoreGL previous s = s\<lparr>glState := (glState s)
     \<lparr>gl_packBuffer := gl_packBuffer previous, gl_packAlignment := gl_packAlignment previous,
      gl_packRowLength := gl_packRowLength previous, gl_packSkipRows := gl_packSkipRows previous,
      gl_packSkipPixels := gl_packSkipPixels previous,
      gl_readFramebuffer := gl_readFramebuffer previous\<rparr>\<rparr>"

definition commitReadback :: "snapshot_result \<Rightarrow> 'z snap_scheme \<Rightarrow> 'z snap_scheme" where
  "commitReadback result s =
     (if sn_id (snapshot s) \<noteq> sn_id result \<or> sn_generation (snapshot s) \<noteq> sn_generation result
         \<or> sn_completed (snapshot s)
      then s\<lparr>glFences := glFences s - 1\<rparr>
      else s\<lparr>snapshot := (snapshot s)\<lparr>sn_captureSubmitted := True\<rparr>,
             snapshotReadbackResult := Some (result\<lparr>sn_jpegReadback := ''opengl-pbo''\<rparr>),
             snapshotReadbackFence := True, snapshotReadbackPending := True\<rparr>)"

definition IssueSnapshotPBOReadback ::
  "gl_calls \<Rightarrow> ('z snap_scheme \<Rightarrow> 'z snap_scheme) \<Rightarrow> snapshot_result \<Rightarrow> nat
     \<Rightarrow> 'z snap_scheme \<Rightarrow> bool \<times> 'z snap_scheme" where
  "IssueSnapshotPBOReadback gl between result bytes s =
     (case EnsureSnapshotPBO gl bytes s of
        (False, s1) \<Rightarrow> (False, s1)
      | (True, s1) \<Rightarrow>
          if gc_texture gl = 0
          then abandonPBO ''Gazebo camera texture is not an OpenGL texture'' s1
          else (let previous = glState s1;
                    s2 = s1\<lparr>glState := (glState s1)
                           \<lparr>gl_readFramebuffer := snapshotReadFramebuffer s1\<rparr>\<rparr>
                in if \<not> gc_complete gl then
                     abandonPBO ''OpenGL could not bind the Gazebo texture for snapshot readback''
                       (restoreGL previous s2)
                   else (let s3 = s2\<lparr>glState := (glState s2)
                               \<lparr>gl_packBuffer := snapshotReadbackBuffer s2, gl_packAlignment := 1,
                                gl_packRowLength := 0, gl_packSkipRows := 0, gl_packSkipPixels := 0\<rparr>,
                               glFences := glFences s2 + of_bool (gc_fence gl)\<rparr>;
                             s4 = restoreGL previous s3
                         in if \<not> gc_issued gl \<or> \<not> gc_fence gl then
                              abandonPBO ''OpenGL could not issue asynchronous snapshot readback''
                                (if gc_fence gl then s4\<lparr>glFences := glFences s4 - 1\<rparr> else s4)
                            else (True, commitReadback result (between s4)))))"

text \<open>
  The synchronous readback: \<open>blit\<close> is the text of the exception or the pixels. Afterwards the code
  locks the snapshot (\<open>env 0\<close> before it) and submits the job (\<open>env 1\<close> before it).
\<close>

definition commitSynchronous :: "snapshot_result \<Rightarrow> 'z snap_scheme \<Rightarrow> bool \<times> 'z snap_scheme" where
  "commitSynchronous result s =
     (if sn_id (snapshot s) \<noteq> sn_id result \<or> sn_generation (snapshot s) \<noteq> sn_generation result
         \<or> sn_completed (snapshot s)
      then (False, s)
      else (True, s\<lparr>snapshot := (snapshot s)\<lparr>sn_captureSubmitted := True\<rparr>\<rparr>))"

definition CaptureSnapshotSynchronously ::
  "string + bytes \<Rightarrow> real \<Rightarrow> (nat \<Rightarrow> 'z snap_scheme \<Rightarrow> 'z snap_scheme) \<Rightarrow> snapshot_result
     \<Rightarrow> 'z snap_scheme \<Rightarrow> bool \<times> 'z snap_scheme" where
  "CaptureSnapshotSynchronously blit milliseconds env result s =
     (case blit of
        Inl message \<Rightarrow>
          (False, CompleteSnapshotFailure (''camera snapshot readback failed: '' @ message) s)
      | Inr pixels \<Rightarrow>
          (let r = result\<lparr>sn_jpegReadback := ''synchronous-cpu'', sn_rgb := pixels,
                          sn_jpegReadbackMilliseconds := milliseconds\<rparr>
           in case commitSynchronous r (env 0 s) of
                (False, s1) \<Rightarrow> (False, s1)
              | (True, s1) \<Rightarrow> submitSnapshot r (env 1 s1)))"

datatype sync_status = SyncTimeout | SyncFailed | SyncSignaled

record gl_map =
  gm_status :: sync_status
  gm_mapped :: "bytes option"
  gm_unmapped :: bool
  gm_noError :: bool
  gm_milliseconds :: real

definition PollSnapshotPBOReadback ::
  "gl_map \<Rightarrow> ('z snap_scheme \<Rightarrow> 'z snap_scheme) \<Rightarrow> 'z snap_scheme \<Rightarrow> bool \<times> 'z snap_scheme" where
  "PollSnapshotPBOReadback gl between s =
     (case snapshotReadbackResult s of
        None \<Rightarrow> (False, s\<lparr>snapshotReadbackPending := False\<rparr>)
      | Some result \<Rightarrow>
          if \<not> snapshotReadbackFence s then (False, s\<lparr>snapshotReadbackPending := False\<rparr>)
          else if gm_status gl = SyncTimeout then (False, s)
          else (let s1 = s\<lparr>snapshotReadbackResult := None, glFences := glFences s - 1,
                          snapshotReadbackFence := False, snapshotReadbackPending := False\<rparr>
                in if gm_status gl = SyncFailed then
                     (False, RearmSnapshotAfterPBOFailure result
                        ''OpenGL snapshot PBO fence wait failed'' s1)
                   else (let previousBuffer = gl_packBuffer (glState s1);
                             s2 = bindPackBuffer (snapshotReadbackBuffer s1) s1
                         in case gm_mapped gl of
                              None \<Rightarrow> (False, RearmSnapshotAfterPBOFailure result
                                ''OpenGL could not map the completed snapshot PBO''
                                (bindPackBuffer previousBuffer s2))
                            | Some mapped \<Rightarrow>
                                (let copied = CopyGazeboPBOToImageOrder mapped
                                       (of_nat (snapshotReadbackBufferBytes s2)) (sn_width result)
                                       (sn_height result);
                                     s3 = bindPackBuffer previousBuffer s2
                                 in if copied = None \<or> \<not> gm_unmapped gl \<or> \<not> gm_noError gl then
                                      (False, RearmSnapshotAfterPBOFailure result
                                        ''OpenGL could not complete the snapshot PBO mapping'' s3)
                                    else submitSnapshot (result\<lparr>sn_rgb := the copied,
                                           sn_jpegReadbackMilliseconds := gm_milliseconds gl\<rparr>)
                                           (between s3)))))"

definition CaptureSnapshot ::
  "camera_view \<Rightarrow> gl_calls \<Rightarrow> gl_map \<Rightarrow> string + bytes \<Rightarrow> real
     \<Rightarrow> (nat \<Rightarrow> 'z snap_scheme \<Rightarrow> 'z snap_scheme) \<Rightarrow> 'z snap_scheme \<Rightarrow> bool \<times> 'z snap_scheme" where
  "CaptureSnapshot cam gl mp blit milliseconds env s =
     (if snapshotReadbackPending s then PollSnapshotPBOReadback mp (env 1) s
      else (case pickSnapshot s of
              (None, s1) \<Rightarrow> (False, s1)
            | (Some result, s1) \<Rightarrow>
                if \<not> cam_renderTexture cam then
                  (False, CompleteSnapshotFailure ''camera render texture is unavailable'' s1)
                else if cam_width cam = 0 \<or> cam_height cam = 0 \<or> cam_width cam > 4096
                        \<or> cam_height cam > 2160 then
                  (False, CompleteSnapshotFailure ''camera dimensions are invalid'' s1)
                else (let bytes = unat (cam_width cam) * unat (cam_height cam) * 3;
                          r1 = describeSnapshot cam result s1;
                          (issued, s2) = (if snapshotPBOAvailable s1
                            then IssueSnapshotPBOReadback gl (env 0) r1 bytes s1 else (False, s1));
                          r2 = (if snapshotPBOFailureReason s2 \<noteq> []
                                then r1\<lparr>sn_jpegFallbackReason := snapshotPBOFailureReason s2\<rparr>
                                else r1)
                      in if issued then (True, s2)
                         else CaptureSnapshotSynchronously blit milliseconds env r2 s2)))"

section \<open>One capture in flight\<close>

text \<open>
  The render thread and the JPEG worker between their critical sections: the render thread has
  picked the request, or holds pixels that it will submit or give back; the worker encodes.
\<close>

datatype render_pc = RenIdle | RenPicked snapshot_result | RenReading snapshot_result
datatype worker_pc = WrkIdle | WrkEncoding snapshot_result

definition sameCapture :: "snapshot_result \<Rightarrow> snapshot_result \<Rightarrow> bool" where
  "sameCapture x y \<longleftrightarrow> sn_id x = sn_id y \<and> sn_generation x = sn_generation y"

text \<open>What the capture protocol depends on.\<close>

definition snapView :: "'z snap_scheme \<Rightarrow> bool \<times> snapshot_result \<times> u64 \<times> bool
    \<times> snapshot_result option \<times> bool \<times> snapshot_result option \<times> bool" where
  "snapView s = (captureSlotHeld s, snapshot s, snapshotGeneration s, snapshotReadbackPending s,
     snapshotReadbackResult s, snapshotReadbackFence s, snapshotEncodeJob s,
     snapshotEncoderStopping s)"

text \<open>
  The atomic steps of the control executor (arm, collect), the render thread and the worker. The
  second component of a configuration is the identifier of the request that was armed last.
\<close>

type_synonym 'z capture_config = "render_pc \<times> worker_pc \<times> string \<times> 'z snap_scheme"

inductive capture_step :: "'z capture_config \<Rightarrow> 'z capture_config \<Rightarrow> bool" where
  arm: "\<not> captureSlotHeld s \<Longrightarrow> i \<noteq> [] \<Longrightarrow>
    capture_step (r, w, a, s) (r, w, i, (armSnapshot i rgb k s)\<lparr>captureSlotHeld := True\<rparr>)"
| collect: "captureSlotHeld s \<Longrightarrow> takeSnapshot expired s = (Some response, s') \<Longrightarrow>
    capture_step (r, w, a, s) (r, w, a, s'\<lparr>captureSlotHeld := False\<rparr>)"
| pick: "\<not> snapshotReadbackPending s \<Longrightarrow> pickSnapshot s = (Some x, s') \<Longrightarrow>
    capture_step (RenIdle, w, a, s) (RenPicked x, w, a, s')"
| fail: "capture_step (RenPicked x, w, a, s) (RenIdle, w, a, CompleteSnapshotFailure m s)"
| issue: "sameCapture y x \<Longrightarrow>
    capture_step (RenPicked x, w, a, s) (RenIdle, w, a, commitReadback y s)"
| read: "sameCapture y x \<Longrightarrow> commitSynchronous y s = (True, s') \<Longrightarrow>
    capture_step (RenPicked x, w, a, s) (RenReading y, w, a, s')"
| late: "sameCapture y x \<Longrightarrow> commitSynchronous y s = (False, s') \<Longrightarrow>
    capture_step (RenPicked x, w, a, s) (RenIdle, w, a, s')"
| poll: "snapshotReadbackPending s \<Longrightarrow> snapshotReadbackResult s = Some x \<Longrightarrow>
    capture_step (RenIdle, w, a, s) (RenReading x, w, a, s\<lparr>snapshotReadbackResult := None,
      snapshotReadbackFence := False, snapshotReadbackPending := False\<rparr>)"
| rearm: "capture_step (RenReading x, w, a, s) (RenIdle, w, a, RearmSnapshotAfterPBOFailure x m s)"
| submit: "sameCapture y x \<Longrightarrow>
    capture_step (RenReading x, w, a, s) (RenIdle, w, a, snd (submitSnapshot y s))"
| job: "\<not> snapshotEncoderStopping s \<Longrightarrow> snapshotEncodeJob s = Some x \<Longrightarrow>
    capture_step (r, WrkIdle, a, s) (r, WrkEncoding x, a, s\<lparr>snapshotEncodeJob := None\<rparr>)"
| deliver: "sameCapture y x \<Longrightarrow> sn_completed y \<Longrightarrow>
    capture_step (r, WrkEncoding x, a, s) (r, WrkIdle, a, deliverSnapshot y s)"
| stop: "capture_step (r, w, a, s) (r, w, a, StopSnapshotEncoder s)"
| other: "snapView s' = snapView s \<Longrightarrow> capture_step (r, w, a, s) (r, w, a, s')"

text \<open>The captured images on their way from the request to the answer.\<close>

definition inFlight :: "render_pc \<Rightarrow> worker_pc \<Rightarrow> 'z snap_scheme \<Rightarrow> snapshot_result list" where
  "inFlight r w s =
     (case r of RenReading x \<Rightarrow> [x] | _ \<Rightarrow> [])
     @ (case snapshotReadbackResult s of None \<Rightarrow> [] | Some x \<Rightarrow> [x])
     @ (case snapshotEncodeJob s of None \<Rightarrow> [] | Some x \<Rightarrow> [x])
     @ (case w of WrkEncoding x \<Rightarrow> [x] | WrkIdle \<Rightarrow> [])"

fun captureInv :: "'z capture_config \<Rightarrow> bool" where
  "captureInv (r, w, a, s) \<longleftrightarrow>
     length (inFlight r w s) \<le> 1
     \<and> (\<forall>x \<in> set (inFlight r w s). sameCapture x (snapshot s) \<and> sn_captureSubmitted (snapshot s)
          \<and> \<not> sn_completed (snapshot s))
     \<and> (sn_captureSubmitted (snapshot s) \<and> \<not> sn_completed (snapshot s) \<longrightarrow>
          inFlight r w s \<noteq> [] \<or> snapshotEncoderStopping s)
     \<and> (captureSlotHeld s \<longleftrightarrow> sn_id (snapshot s) \<noteq> [])
     \<and> (captureSlotHeld s \<longrightarrow>
          sn_id (snapshot s) = a \<and> sn_generation (snapshot s) = snapshotGeneration s)
     \<and> (sn_id (snapshot s) = [] \<longrightarrow>
          \<not> sn_captureSubmitted (snapshot s) \<and> \<not> sn_completed (snapshot s))
     \<and> (snapshotReadbackPending s \<longleftrightarrow> snapshotReadbackResult s \<noteq> None)
     \<and> (snapshotReadbackFence s \<longleftrightarrow> snapshotReadbackResult s \<noteq> None)
     \<and> (\<forall>x. r = RenPicked x \<longrightarrow> sn_id x \<noteq> [] \<and>
          (\<not> sn_captureSubmitted (snapshot s) \<or> sn_completed (snapshot s)))"

lemma SnapshotResult_fields [simp]:
  "sn_id SnapshotResult = []" "\<not> sn_captureSubmitted SnapshotResult"
  "\<not> sn_completed SnapshotResult" "\<not> sn_failed SnapshotResult"
  by (simp_all add: SnapshotResult_def)

lemma snapView_Log [simp]: "snapView (LogEncoderError m s) = snapView s"
  by (simp add: snapView_def LogEncoderError_def Let_def)

lemma snapView_Wake [simp]: "snapView (WakeControl s) = snapView s"
  by (simp add: snapView_def WakeControl_def)

lemma captureInv_view:
  "snapView s' = snapView s \<Longrightarrow> captureInv (r, w, a, s') = captureInv (r, w, a, s)"
  by (simp add: snapView_def inFlight_def)

text \<open>The outcome of the operations on the view, by cases.\<close>

lemma CompleteSnapshotFailure_view:
  "snapView (CompleteSnapshotFailure m s) = snapView (if sn_id (snapshot s) = [] \<or> sn_completed (snapshot s)
     then s else s\<lparr>snapshot := (snapshot s)\<lparr>sn_failed := True, sn_completed := True, sn_error := m\<rparr>\<rparr>)"
  by (simp add: CompleteSnapshotFailure_def)

lemma deliverSnapshot_view:
  "snapView (deliverSnapshot y s) =
     snapView (if sameCapture (snapshot s) y \<and> \<not> sn_completed (snapshot s) then s\<lparr>snapshot := y\<rparr> else s)"
  by (simp add: deliverSnapshot_def sameCapture_def)

lemma Rearm_view:
  "snapView (RearmSnapshotAfterPBOFailure x m s) =
     snapView (if sameCapture (snapshot s) x \<and> \<not> sn_completed (snapshot s)
       then s\<lparr>snapshot := (snapshot s)\<lparr>sn_captureSubmitted := False\<rparr>\<rparr> else s)"
  by (simp add: RearmSnapshotAfterPBOFailure_def Let_def sameCapture_def snapView_def LogEncoderError_def)

lemma inFlight_view:
  "snapView s' = snapView s \<Longrightarrow> inFlight r w s' = inFlight r w s"
  by (simp add: snapView_def inFlight_def)

text \<open>Collecting: the answer is a completed capture, or the deadline passed with nothing in flight.\<close>

lemma takeSnapshot_cases:
  assumes "takeSnapshot expired s = (Some response, s')"
  shows "s' = s\<lparr>snapshot := SnapshotResult, snapshotRenderPassesToSkip := 0\<rparr>
    \<and> (sn_completed (snapshot s) \<and> sn_completed response \<and> sameCapture response (snapshot s)
       \<or> \<not> sn_completed (snapshot s) \<and> \<not> sn_captureSubmitted (snapshot s)
         \<and> \<not> snapshotReadbackPending s \<and> expired \<and> sn_failed response \<and> \<not> sn_completed response)"
  using assms by (auto simp: takeSnapshot_def sameCapture_def Let_def split: if_splits)

lemma captureInv_idle:
  "inFlight r w s = [] \<Longrightarrow> captureInv (r, w, a, s) \<longleftrightarrow>
     (sn_captureSubmitted (snapshot s) \<and> \<not> sn_completed (snapshot s) \<longrightarrow> snapshotEncoderStopping s)
     \<and> (captureSlotHeld s \<longleftrightarrow> sn_id (snapshot s) \<noteq> [])
     \<and> (captureSlotHeld s \<longrightarrow>
          sn_id (snapshot s) = a \<and> sn_generation (snapshot s) = snapshotGeneration s)
     \<and> (sn_id (snapshot s) = [] \<longrightarrow>
          \<not> sn_captureSubmitted (snapshot s) \<and> \<not> sn_completed (snapshot s))
     \<and> (snapshotReadbackPending s \<longleftrightarrow> snapshotReadbackResult s \<noteq> None)
     \<and> (snapshotReadbackFence s \<longleftrightarrow> snapshotReadbackResult s \<noteq> None)
     \<and> (\<forall>x. r = RenPicked x \<longrightarrow> sn_id x \<noteq> [] \<and>
          (\<not> sn_captureSubmitted (snapshot s) \<or> sn_completed (snapshot s)))"
  by simp

lemma captureInv_step:
  "capture_step c c' \<Longrightarrow> captureInv c \<Longrightarrow> captureInv c'"
proof (induction rule: capture_step.induct)
  case (arm s i r w a rgb k)
  then have none: "inFlight r w s = []" by (cases "inFlight r w s") auto
  then have "inFlight r w ((armSnapshot i rgb k s)\<lparr>captureSlotHeld := True\<rparr>) = []"
    by (simp add: inFlight_def armSnapshot_def Let_def)
  with arm none show ?case
    by (simp add: captureInv_idle del: captureInv.simps) (simp add: armSnapshot_def Let_def)
next
  case (collect s expired response s' r w a)
  from takeSnapshot_cases [OF collect(2)]
  have s': "s' = s\<lparr>snapshot := SnapshotResult, snapshotRenderPassesToSkip := 0\<rparr>"
    and "sn_completed (snapshot s) \<or> \<not> sn_captureSubmitted (snapshot s)" by auto
  with collect(3) have none: "inFlight r w s = []" by (cases "inFlight r w s") auto
  then have "inFlight r w (s'\<lparr>captureSlotHeld := False\<rparr>) = []" by (simp add: inFlight_def s')
  with collect(3) none show ?case by (simp add: captureInv_idle s' del: captureInv.simps)
next
  case (pick s x s' w a)
  then show ?case
    by (auto simp: pickSnapshot_def inFlight_def split: if_splits)
next
  case (fail x w a s m)
  then have none: "inFlight (RenPicked x) w s = []" by (cases "inFlight (RenPicked x) w s") auto
  have "captureInv (RenIdle, w, a, if sn_id (snapshot s) = [] \<or> sn_completed (snapshot s)
     then s else s\<lparr>snapshot := (snapshot s)\<lparr>sn_failed := True, sn_completed := True, sn_error := m\<rparr>\<rparr>)"
    using fail none by (auto simp: inFlight_def split: worker_pc.splits option.splits)
  then show ?case using captureInv_view [OF CompleteSnapshotFailure_view] by blast
next
  case (issue y x w a s)
  then have none: "inFlight (RenPicked x) w s = []" by (cases "inFlight (RenPicked x) w s") auto
  have clean: "snapshotReadbackResult s = None" "snapshotEncodeJob s = None" "w = WrkIdle"
    using none by (auto simp: inFlight_def split: worker_pc.splits option.splits)
  have i: "sn_id y \<noteq> []" using issue by (simp add: sameCapture_def)
  have kept: "captureInv (RenIdle, w, a, s)" using issue(2) clean by (simp add: inFlight_def)
  show ?case
  proof (cases "sameCapture (snapshot s) y \<and> \<not> sn_completed (snapshot s)")
    case True
    then have "commitReadback y s = s\<lparr>snapshot := (snapshot s)\<lparr>sn_captureSubmitted := True\<rparr>,
             snapshotReadbackResult := Some (y\<lparr>sn_jpegReadback := ''opengl-pbo''\<rparr>),
             snapshotReadbackFence := True, snapshotReadbackPending := True\<rparr>"
      by (simp add: commitReadback_def sameCapture_def)
    with True i kept clean show ?thesis by (simp add: inFlight_def sameCapture_def)
  next
    case False
    then have "snapView (commitReadback y s) = snapView s"
      by (auto simp: commitReadback_def sameCapture_def snapView_def)
    with kept show ?thesis using captureInv_view by blast
  qed
next
  case (read y x s s' w a)
  then have none: "inFlight (RenPicked x) w s = []" by (cases "inFlight (RenPicked x) w s") auto
  have clean: "snapshotReadbackResult s = None" "snapshotEncodeJob s = None" "w = WrkIdle"
    using none by (auto simp: inFlight_def split: worker_pc.splits option.splits)
  have "sn_id y \<noteq> []" using read by (simp add: sameCapture_def)
  moreover have "sameCapture (snapshot s) y" "\<not> sn_completed (snapshot s)"
    and "s' = s\<lparr>snapshot := (snapshot s)\<lparr>sn_captureSubmitted := True\<rparr>\<rparr>"
    using read(2) by (auto simp: commitSynchronous_def sameCapture_def split: if_splits)
  ultimately show ?case using read(3) clean by (simp add: inFlight_def sameCapture_def)
next
  case (late y x s s' w a)
  then have "s' = s" by (simp add: commitSynchronous_def split: if_splits)
  with late show ?case by (simp add: inFlight_def)
next
  case (poll s x w a)
  then show ?case by (auto simp: inFlight_def split: worker_pc.splits option.splits)
next
  case (rearm x w a s m)
  have only: "inFlight RenIdle w s = []" using rearm by (simp add: inFlight_def)
  have "captureInv (RenIdle, w, a, s\<lparr>snapshot := (snapshot s)\<lparr>sn_captureSubmitted := False\<rparr>\<rparr>)"
    using rearm only by (auto simp: inFlight_def sameCapture_def)
  moreover have "sameCapture (snapshot s) x \<and> \<not> sn_completed (snapshot s)"
    using rearm by (simp add: inFlight_def sameCapture_def)
  ultimately show ?case by (simp only: captureInv_view [OF Rearm_view] if_True simp_thms)
next
  case (submit y x w a s)
  have only: "inFlight RenIdle w s = []" using submit(2) by (simp add: inFlight_def)
  have clean: "snapshotReadbackResult s = None" "snapshotEncodeJob s = None" "w = WrkIdle"
    using only by (auto simp: inFlight_def split: worker_pc.splits option.splits)
  have x: "sameCapture x (snapshot s)" "sn_captureSubmitted (snapshot s)" "\<not> sn_completed (snapshot s)"
    using submit(2) by (simp_all add: inFlight_def)
  show ?case
  proof (cases "snapshotEncoderStopping s \<or> snapshotEncodeJob s \<noteq> None")
    case True
    let ?t = "s\<lparr>snapshot := (snapshot s)\<lparr>sn_failed := True, sn_completed := True,
      sn_error := ''snapshot JPEG worker queue is unavailable''\<rparr>\<rparr>"
    have "snd (submitSnapshot y s)
        = CompleteSnapshotFailure ''snapshot JPEG worker queue is unavailable'' s"
      using True by (simp add: submitSnapshot_def QueueSnapshotEncode_def)
    moreover have "captureInv (RenIdle, w, a, if sn_id (snapshot s) = [] \<or> sn_completed (snapshot s)
       then s else ?t)"
      using submit(2) clean x by (auto simp: inFlight_def)
    ultimately show ?thesis by (simp only: captureInv_view [OF CompleteSnapshotFailure_view])
  next
    case False
    then have "snd (submitSnapshot y s) = s\<lparr>snapshotEncodeJob := Some y\<rparr>"
      by (simp add: submitSnapshot_def QueueSnapshotEncode_def)
    then show ?thesis
      using submit clean by (auto simp: inFlight_def sameCapture_def)
  qed
next
  case (job s x r a)
  then show ?case by (auto simp: inFlight_def split: render_pc.splits option.splits)
next
  case (deliver y x r a s)
  have x: "sameCapture x (snapshot s)" "sn_captureSubmitted (snapshot s)" "\<not> sn_completed (snapshot s)"
    and only: "inFlight r WrkIdle s = []"
    using deliver(3) by (auto simp: inFlight_def)
  have "captureInv (r, WrkIdle, a, s\<lparr>snapshot := y\<rparr>)"
    using deliver x only by (auto simp: inFlight_def sameCapture_def)
  moreover have "sameCapture (snapshot s) y" using x deliver(1) by (simp add: sameCapture_def)
  ultimately show ?case using x
    by (simp only: captureInv_view [OF deliverSnapshot_view] if_True simp_thms)
next
  case (stop r w a s)
  have sub: "set (inFlight r w (StopSnapshotEncoder s)) \<subseteq> set (inFlight r w s)"
    "length (inFlight r w (StopSnapshotEncoder s)) \<le> length (inFlight r w s)"
    by (auto simp: inFlight_def StopSnapshotEncoder_def)
  have same: "snapshot (StopSnapshotEncoder s) = snapshot s"
    "captureSlotHeld (StopSnapshotEncoder s) = captureSlotHeld s"
    "snapshotGeneration (StopSnapshotEncoder s) = snapshotGeneration s"
    "snapshotReadbackPending (StopSnapshotEncoder s) = snapshotReadbackPending s"
    "snapshotReadbackResult (StopSnapshotEncoder s) = snapshotReadbackResult s"
    "snapshotReadbackFence (StopSnapshotEncoder s) = snapshotReadbackFence s"
    "snapshotEncoderStopping (StopSnapshotEncoder s)"
    by (simp_all add: StopSnapshotEncoder_def)
  have inv: "captureInv (r, w, a, s)" by fact
  then have "length (inFlight r w (StopSnapshotEncoder s)) \<le> 1" using sub(2) by simp
  moreover have "\<forall>x \<in> set (inFlight r w (StopSnapshotEncoder s)). sameCapture x (snapshot s)
      \<and> sn_captureSubmitted (snapshot s) \<and> \<not> sn_completed (snapshot s)"
    using inv sub(1) by auto
  ultimately show ?case
    using inv unfolding captureInv.simps same by (elim conjE) (intro conjI; (assumption | simp add: same))
next
  case (other s' s r w a)
  then show ?case using captureInv_view by blast
qed

lemma captureInv_steps:
  "capture_step\<^sup>*\<^sup>* c c' \<Longrightarrow> captureInv c \<Longrightarrow> captureInv c'"
  by (induction rule: rtranclp_induct) (auto simp del: captureInv.simps intro: captureInv_step)

text \<open>The plugin before its first capture.\<close>

definition noCapture :: "'z snap_scheme \<Rightarrow> bool" where
  "noCapture s \<longleftrightarrow> snapshot s = SnapshotResult \<and> \<not> captureSlotHeld s \<and> snapshotReadbackResult s = None
     \<and> \<not> snapshotReadbackPending s \<and> \<not> snapshotReadbackFence s \<and> snapshotEncodeJob s = None"

declare noCapture_def [cam_inv]

lemma captureInv_noCapture: "noCapture s \<Longrightarrow> captureInv (RenIdle, WrkIdle, a, s)"
  by (simp add: noCapture_def inFlight_def)

text \<open>
  C5: In every interleaving of the control executor, the render thread and the JPEG worker at most
  one captured image is on its way; it belongs to the request that is armed, the shared capture
  slot is held for it, and a submitted capture that is not complete has such an image unless the
  worker was stopped, so it cannot be forgotten.
\<close>

theorem capture_single_flight:
  assumes "noCapture s0" and "capture_step\<^sup>*\<^sup>* (RenIdle, WrkIdle, a0, s0) (r, w, a, s)"
  shows "length (inFlight r w s) \<le> 1
    \<and> (\<forall>x \<in> set (inFlight r w s). sn_id x = a \<and> sn_generation x = snapshotGeneration s
         \<and> captureSlotHeld s)
    \<and> (sn_captureSubmitted (snapshot s) \<and> \<not> sn_completed (snapshot s)
         \<and> \<not> snapshotEncoderStopping s \<longrightarrow> length (inFlight r w s) = 1)"
proof -
  have inv: "captureInv (r, w, a, s)"
    by (rule captureInv_steps [OF assms(2)]) (rule captureInv_noCapture [OF assms(1)])
  show ?thesis
  proof (cases "inFlight r w s")
    case Nil
    with inv show ?thesis by auto
  next
    case (Cons x xs)
    with inv show ?thesis by (auto simp: sameCapture_def)
  qed
qed

text \<open>
  C4: The answer to a capture: a completed result carries the identifier and the generation of the
  request that is armed, so no request is answered with the image of another; otherwise the
  deadline has passed and nothing is in flight, so the shared slot is released with no readback or
  encoding left to overlap the next capture.
\<close>

theorem capture_answer_matches:
  assumes "noCapture s0" and "capture_step\<^sup>*\<^sup>* (RenIdle, WrkIdle, a0, s0) (r, w, a, s)"
    and "captureSlotHeld s" and "takeSnapshot expired s = (Some response, s')"
  shows "inFlight r w s = []
    \<and> (if sn_completed response
       then sn_id response = a \<and> sn_generation response = snapshotGeneration s
       else expired \<and> sn_failed response)"
proof -
  have inv: "captureInv (r, w, a, s)"
    by (rule captureInv_steps [OF assms(2)]) (rule captureInv_noCapture [OF assms(1)])
  with takeSnapshot_cases [OF assms(4)] assms(3) show ?thesis
    by (cases "inFlight r w s") (auto simp: sameCapture_def)
qed

definition snapStart :: snap where
  "snapStart = ros.extend rosStart
     \<lparr>jpegQuality = 90, snapshotJpegPolicy = kAuto,
      snapshotJpegBackend = SelectSnapshotJpegBackend True kAuto False [],
      snapshotJpegHardware = closedHardware, snapshotJpegHardwarePreflightError = [],
      snapshotJpegHardwareFusedOff = False, snapshotPoseFrameID = ''world'',
      renderFrameSequence = 0, captureKeyframeGeneration = 0, nativeCaptureKeyframePending = 0,
      nativeCaptureKeyframeApplied = 0, nativeCaptureKeyframeFailed = 0, captureSlotHeld = False,
      snapshot = SnapshotResult, snapshotGeneration = 0, snapshotRenderPassesToSkip = 0,
      snapshotReadbackPending = False, snapshotPBOAvailable = True, snapshotPBOFailureReason = [],
      snapshotReadbackBuffer = 0, snapshotReadFramebuffer = 0, snapshotReadbackFence = False,
      snapshotReadbackBufferBytes = 0, snapshotReadbackResult = None, snapshotEncodeJob = None,
      snapshotEncoderStopping = False, glewInitialized = False,
      glState = \<lparr>gl_readFramebuffer = 4, gl_packBuffer = 5, gl_packAlignment = 4,
        gl_packRowLength = 6, gl_packSkipRows = 7, gl_packSkipPixels = 8\<rparr>, glFences = 0\<rparr>"

definition snapArmed :: snap where
  "snapArmed = (armSnapshot ''a'' True False snapStart)\<lparr>captureSlotHeld := True\<rparr>"

definition snapSkipped :: snap where
  "snapSkipped = snd (pickSnapshot snapArmed)"

definition snapPicked :: snapshot_result where
  "snapPicked = the (fst (pickSnapshot snapSkipped))"

definition snapRead :: snap where
  "snapRead = snd (commitSynchronous snapPicked snapSkipped)"

lemma snapView_skip: "snapView snapSkipped = snapView snapArmed"
  by (simp add: snapSkipped_def snapView_def pickSnapshot_def)

lemma snap_facts:
  "noCapture snapStart" "\<not> captureSlotHeld snapStart"
  "\<not> snapshotReadbackPending snapSkipped"
  "pickSnapshot snapSkipped = (Some snapPicked, snapSkipped)"
  "commitSynchronous snapPicked snapSkipped = (True, snapRead)"
  by (simp_all add: noCapture_def snapStart_def snapArmed_def snapSkipped_def snapPicked_def
      snapRead_def armSnapshot_def pickSnapshot_def commitSynchronous_def ros.extend_def rosStart_def
      Let_def)

lemma snap_run:
  "capture_step\<^sup>*\<^sup>* (RenIdle, WrkIdle, [], snapStart) (RenPicked snapPicked, WrkIdle, ''a'', snapSkipped)"
proof -
  have s1: "capture_step (RenIdle, WrkIdle, [], snapStart) (RenIdle, WrkIdle, ''a'', snapArmed)"
    unfolding snapArmed_def by (rule capture_step.arm) (simp_all add: snap_facts)
  have s2: "capture_step (RenIdle, WrkIdle, ''a'', snapArmed) (RenIdle, WrkIdle, ''a'', snapSkipped)"
    by (rule capture_step.other) (rule snapView_skip)
  have s3: "capture_step (RenIdle, WrkIdle, ''a'', snapSkipped)
      (RenPicked snapPicked, WrkIdle, ''a'', snapSkipped)"
    by (rule capture_step.pick) (simp_all add: snap_facts)
  show ?thesis
    by (rule converse_rtranclp_into_rtranclp [of capture_step, OF s1
          converse_rtranclp_into_rtranclp [of capture_step, OF s2 r_into_rtranclp [of capture_step, OF s3]]])
qed

lemma snap_read_step:
  "capture_step (RenPicked snapPicked, WrkIdle, ''a'', snapSkipped)
     (RenReading snapPicked, WrkIdle, ''a'', snapRead)"
  by (rule capture_step.read [of snapPicked snapPicked]) (simp_all add: sameCapture_def snap_facts)

theorem capture_single_flight_witness:
  "sn_id snapPicked = ''a'' \<and> sn_generation snapPicked = snapshotGeneration snapRead"
  using capture_single_flight [OF snap_facts(1) rtranclp.rtrancl_into_rtrancl
      [of capture_step, OF snap_run snap_read_step]] by (auto simp: inFlight_def)

definition snapFailed :: snap where
  "snapFailed = CompleteSnapshotFailure ''x'' snapSkipped"

theorem capture_answer_matches_witness:
  "\<exists>response s'. takeSnapshot False snapFailed = (Some response, s') \<and> sn_id response = ''a''
     \<and> sn_generation response = snapshotGeneration snapFailed"
proof -
  have s4: "capture_step (RenPicked snapPicked, WrkIdle, ''a'', snapSkipped)
      (RenIdle, WrkIdle, ''a'', snapFailed)"
    unfolding snapFailed_def by (rule capture_step.fail)
  note run = rtranclp.rtrancl_into_rtrancl [of capture_step, OF snap_run s4]
  have held: "captureSlotHeld snapFailed" by code_simp
  have "sn_completed (snapshot snapFailed)" by code_simp
  moreover have "captureKeyframeGeneration snapFailed = 0" by code_simp
  ultimately obtain response s' where take: "takeSnapshot False snapFailed = (Some response, s')"
    and "sn_completed response"
    by (simp add: takeSnapshot_def)
  with capture_answer_matches [OF snap_facts(1) run held take] show ?thesis by auto
qed

section \<open>OpenGL state\<close>

text \<open>Other threads do not touch the render thread's OpenGL context and readback bookkeeping.\<close>

definition glPrivate :: "('z snap_scheme \<Rightarrow> 'z snap_scheme) \<Rightarrow> bool" where
  "glPrivate env \<longleftrightarrow> (\<forall>s. glState (env s) = glState s \<and> glFences (env s) = glFences s
     \<and> snapshotReadbackFence (env s) = snapshotReadbackFence s
     \<and> snapshotReadbackResult (env s) = snapshotReadbackResult s
     \<and> snapshotReadbackPending (env s) = snapshotReadbackPending s)"

definition glView :: "'z snap_scheme \<Rightarrow> gl_state \<times> nat \<times> bool" where
  "glView s = (glState s, glFences s, snapshotReadbackFence s)"

lemma glView_Log [simp]: "glView (LogEncoderError m s) = glView s"
  by (simp add: glView_def LogEncoderError_def Let_def)

lemma glView_Wake [simp]: "glView (WakeControl s) = glView s"
  by (simp add: glView_def WakeControl_def)

lemma glView_abandon [simp]: "glView (snd (abandonPBO r s)) = glView s"
  by (simp add: abandonPBO_def) (simp add: glView_def)

lemma glView_fail [simp]: "glView (CompleteSnapshotFailure m s) = glView s"
  by (simp add: CompleteSnapshotFailure_def) (simp add: glView_def)

lemma glView_rearm [simp]: "glView (RearmSnapshotAfterPBOFailure x m s) = glView s"
  by (simp add: RearmSnapshotAfterPBOFailure_def glView_def LogEncoderError_def Let_def)

lemma glView_submit [simp]: "glView (snd (submitSnapshot x s)) = glView s"
  by (simp add: submitSnapshot_def QueueSnapshotEncode_def) (simp add: glView_def)

lemma restoreGL_previous:
  "gl_state.more g = gl_state.more p \<Longrightarrow> g\<lparr>gl_packBuffer := gl_packBuffer p,
     gl_packAlignment := gl_packAlignment p, gl_packRowLength := gl_packRowLength p,
     gl_packSkipRows := gl_packSkipRows p, gl_packSkipPixels := gl_packSkipPixels p,
     gl_readFramebuffer := gl_readFramebuffer p\<rparr> = (p :: gl_state)"
  by (cases g; cases p) simp

lemma EnsureSnapshotPBO_gl:
  "glView (snd (EnsureSnapshotPBO gl b s)) = glView s"
proof -
  have glew: "glView (snd (EnsureGLEWDispatch gl s)) = glView s"
    by (simp add: EnsureGLEWDispatch_def) (simp add: glView_def)
  obtain ok s0 where e: "EnsureGLEWDispatch gl s = (ok, s0)" by (cases "EnsureGLEWDispatch gl s")
  have s0: "glView s0 = glView s" using glew e by simp
  show ?thesis
    by (simp add: EnsureSnapshotPBO_def e s0 [symmetric] Let_def)
      (simp add: glView_def bindPackBuffer_def)
qed

text \<open>The OpenGL state is \<open>g\<close> and the pending fence is the only sync object.\<close>

definition glOk :: "gl_state \<Rightarrow> 'z snap_scheme \<Rightarrow> bool" where
  "glOk g s \<longleftrightarrow> glState s = g \<and> glFences s = of_bool (snapshotReadbackFence s)"

lemma glOk_view: "glView s' = glView s \<Longrightarrow> glOk g s' = glOk g s"
  by (simp add: glView_def glOk_def)

lemma glOk_simps [simp]:
  "glOk g (CompleteSnapshotFailure m s) = glOk g s"
  "glOk g (RearmSnapshotAfterPBOFailure x m s) = glOk g s"
  "glOk g (snd (submitSnapshot x s)) = glOk g s"
  "glOk g (snd (abandonPBO m s)) = glOk g s"
  by (rule glOk_view, simp)+

lemma glOk_private: "glPrivate env \<Longrightarrow> glOk g (env s) = glOk g s"
  by (simp add: glPrivate_def glOk_def)

lemma restoreGL_bindings:
  "glState (restoreGL g (s\<lparr>glState := g\<lparr>gl_readFramebuffer := f\<rparr>\<rparr>)) = g"
  "glState (restoreGL g (s\<lparr>glState := g\<lparr>gl_readFramebuffer := f, gl_packBuffer := b,
     gl_packAlignment := al, gl_packRowLength := rl, gl_packSkipRows := sr, gl_packSkipPixels := sp\<rparr>,
     glFences := n\<rparr>)) = g"
  by (cases g; simp add: restoreGL_def)+

lemma Issue_gl:
  assumes "glOk g s" and "\<not> snapshotReadbackFence s" and "glPrivate env"
    and "(ok, s') = IssueSnapshotPBOReadback gl env x b s"
  shows "glOk g s'"
proof -
  obtain ready s1 where e: "EnsureSnapshotPBO gl b s = (ready, s1)"
    by (cases "EnsureSnapshotPBO gl b s")
  have v: "glView s1 = glView s" using EnsureSnapshotPBO_gl [of gl b s] e by simp
  have s1: "glState s1 = g" "glFences s1 = 0" "\<not> snapshotReadbackFence s1"
    using v assms(1,2) by (simp_all add: glView_def glOk_def)
  let ?s2 = "s1\<lparr>glState := g\<lparr>gl_readFramebuffer := snapshotReadFramebuffer s1\<rparr>\<rparr>"
  let ?s3 = "s1\<lparr>glState := g\<lparr>gl_readFramebuffer := snapshotReadFramebuffer s1,
       gl_packBuffer := snapshotReadbackBuffer s1, gl_packAlignment := 1,
       gl_packRowLength := 0, gl_packSkipRows := 0, gl_packSkipPixels := 0\<rparr>,
     glFences := of_bool (gc_fence gl)\<rparr>"
  have s2: "glOk g (restoreGL g ?s2)"
    using s1 by (simp add: glOk_def restoreGL_bindings) (simp add: restoreGL_def)
  obtain t where t: "t = restoreGL g ?s3" by simp
  have s3: "glState t = g" "glFences t = of_bool (gc_fence gl)" "\<not> snapshotReadbackFence t"
    using s1 unfolding t by (simp_all add: restoreGL_bindings, simp_all add: restoreGL_def)
  have s4: "glOk g (if gc_fence gl then t\<lparr>glFences := glFences t - 1\<rparr> else t)"
    using s3 by (simp add: glOk_def)
  have s5: "glOk g (commitReadback x (env t))" if "gc_fence gl"
    using s3 that assms(3) by (auto simp: glOk_def glPrivate_def commitReadback_def)
  have "IssueSnapshotPBOReadback gl env x b s = (if \<not> ready then (False, s1)
     else if gc_texture gl = 0 then abandonPBO ''Gazebo camera texture is not an OpenGL texture'' s1
     else if \<not> gc_complete gl
     then abandonPBO ''OpenGL could not bind the Gazebo texture for snapshot readback'' (restoreGL g ?s2)
     else if \<not> gc_issued gl \<or> \<not> gc_fence gl
     then abandonPBO ''OpenGL could not issue asynchronous snapshot readback''
       (if gc_fence gl then t\<lparr>glFences := glFences t - 1\<rparr> else t)
     else (True, commitReadback x (env t)))"
    unfolding t by (simp add: IssueSnapshotPBOReadback_def e s1 Let_def)
  then have s': "s' = (if \<not> ready then s1
     else if gc_texture gl = 0
     then snd (abandonPBO ''Gazebo camera texture is not an OpenGL texture'' s1)
     else if \<not> gc_complete gl then snd (abandonPBO
       ''OpenGL could not bind the Gazebo texture for snapshot readback'' (restoreGL g ?s2))
     else if \<not> gc_issued gl \<or> \<not> gc_fence gl
     then snd (abandonPBO ''OpenGL could not issue asynchronous snapshot readback''
       (if gc_fence gl then t\<lparr>glFences := glFences t - 1\<rparr> else t))
     else commitReadback x (env t))"
    using assms(4) [THEN arg_cong [where f = snd]]
    by (simp only: if_distrib [where f = snd] snd_conv)
  have "glOk g s1" using s1 by (simp add: glOk_def)
  with s2 s4 s5 show ?thesis
    unfolding s' by (simp only: glOk_simps if_distrib [where f = "glOk g"]) presburger
qed

lemma Sync_gl:
  assumes "glOk g s" and "\<forall>i. glPrivate (env i)"
  shows "glOk g (snd (CaptureSnapshotSynchronously blit ms env x s))"
proof (cases blit)
  case (Inl m)
  then show ?thesis
    using assms(1) by (simp add: CaptureSnapshotSynchronously_def)
next
  case (Inr pixels)
  let ?r = "x\<lparr>sn_jpegReadback := ''synchronous-cpu'', sn_rgb := pixels,
    sn_jpegReadbackMilliseconds := ms\<rparr>"
  have "glOk g (snd (commitSynchronous ?r (env 0 s)))"
    using assms glOk_private [of "env 0" g s] by (simp add: commitSynchronous_def) (simp add: glOk_def)
  moreover have "glOk g (snd (submitSnapshot ?r (env 1 u)))" if "glOk g u" for u
    using that assms(2) glOk_private by (simp, blast)
  ultimately show ?thesis
    using Inr by (auto simp: CaptureSnapshotSynchronously_def Let_def split: prod.split bool.split)
qed

lemma Poll_gl:
  assumes "glOk g s" and "glPrivate env"
  shows "glOk g (snd (PollSnapshotPBOReadback mp env s))"
proof (cases "snapshotReadbackResult s")
  case None
  with assms show ?thesis by (simp add: PollSnapshotPBOReadback_def glOk_def)
next
  case (Some x)
  let ?s1 = "s\<lparr>snapshotReadbackResult := None, glFences := glFences s - 1,
    snapshotReadbackFence := False, snapshotReadbackPending := False\<rparr>"
  let ?s3 = "bindPackBuffer (gl_packBuffer (glState ?s1))
    (bindPackBuffer (snapshotReadbackBuffer ?s1) ?s1)"
  have s1: "glOk g ?s1" using assms(1) by (simp add: glOk_def)
  then have s3: "glOk g ?s3" by (simp add: glOk_def bindPackBuffer_def)
  have rearm: "glOk g (RearmSnapshotAfterPBOFailure x m u)" if "glOk g u" for m u
    using that by simp
  have sub: "glOk g (snd (submitSnapshot y (env u)))" if "glOk g u" for y u
    using that assms(2) glOk_private by (simp, blast)
  show ?thesis
    using Some assms(1) rearm [OF s1] rearm [OF s3] sub [OF s3]
    by (simp add: PollSnapshotPBOReadback_def Let_def split: option.split) (simp add: glOk_def)
qed

text \<open>
  C15: A capture pass leaves every OpenGL binding and pixel store parameter it touches as it found
  it, on every path, errors included, and keeps exactly one sync object while a readback is pending
  and none otherwise, whatever the other threads do in between.
\<close>

theorem CaptureSnapshot_restores_gl:
  assumes "glOk g s" and "snapshotReadbackFence s = snapshotReadbackPending s"
    and "\<forall>i. glPrivate (env i)" and "(done, s') = CaptureSnapshot cam gl mp blit ms env s"
  shows "glState s' = g \<and> glFences s' = of_bool (snapshotReadbackFence s')"
proof -
  have "glOk g (snd (CaptureSnapshot cam gl mp blit ms env s))"
  proof (cases "snapshotReadbackPending s")
    case True
    then show ?thesis using assms(1,3) Poll_gl [of g s "env 1"] by (simp add: CaptureSnapshot_def)
  next
    case False
    obtain x s1 where pick: "pickSnapshot s = (x, s1)" by (cases "pickSnapshot s")
    have s1: "glOk g s1" "\<not> snapshotReadbackFence s1"
      using assms(1,2) False pick by (auto simp: pickSnapshot_def glOk_def split: if_splits)
    have issue: "glOk g s2" if "IssueSnapshotPBOReadback gl (env 0) y b s1 = (ok, s2)" for ok s2 y b
      using Issue_gl [OF s1, of "env 0" ok s2 gl y b] that assms(3) by simp
    show ?thesis
      using False pick s1(1) issue Sync_gl [OF _ assms(3)]
      by (cases x) (auto simp: CaptureSnapshot_def Let_def split: prod.splits if_splits)
  qed
  then show ?thesis using assms(4) by (simp add: glOk_def split_pairs)
qed

definition demoView :: camera_view where
  "demoView = \<lparr>cam_renderTexture = True, cam_width = 16, cam_height = 16, cam_perspective = True,
     cam_projection = (\<lambda>i j. 1), cam_matrixFinite = True, cam_lens = None,
     cam_position = [0, 0, 0], cam_opticalRotation = [0, 0, 0, 1], cam_simTime = (1, 2)\<rparr>"

definition demoGL :: gl_calls where
  "demoGL = \<lparr>gc_glewInit = True, gc_pixelBuffers = True, gc_genBuffer = 11, gc_genFramebuffer = 12,
     gc_bufferData = True, gc_texture = 13, gc_complete = True, gc_issued = True, gc_fence = True\<rparr>"

definition demoMap :: gl_map where
  "demoMap = \<lparr>gm_status = SyncTimeout, gm_mapped = None, gm_unmapped = True, gm_noError = True,
     gm_milliseconds = 1\<rparr>"

theorem CaptureSnapshot_restores_gl_witness:
  "gl_packSkipRows (glState (snd (CaptureSnapshot demoView demoGL demoMap (Inl []) 0 (\<lambda>i u. u)
     snapSkipped))) = 7"
proof -
  have quiet: "\<forall>i. glPrivate ((\<lambda>i u. u) (i :: nat) :: snap \<Rightarrow> snap)" by (simp add: glPrivate_def)
  have "glOk (glState snapStart) snapSkipped"
    "snapshotReadbackFence snapSkipped = snapshotReadbackPending snapSkipped"
    by (simp_all add: glOk_def snapSkipped_def snapArmed_def armSnapshot_def pickSnapshot_def
        snapStart_def ros.extend_def rosStart_def Let_def)
  from CaptureSnapshot_restores_gl [OF this(1,2) quiet surjective_pairing [symmetric]]
  have "glState (snd (CaptureSnapshot demoView demoGL demoMap (Inl []) 0 (\<lambda>i u. u)
      snapSkipped)) = glState snapStart" by blast
  moreover have "gl_packSkipRows (glState snapStart) = 7"
    by (simp add: snapStart_def ros.extend_def rosStart_def)
  ultimately show ?thesis by simp
qed

section \<open>The JPEG policy in the worker\<close>

lemma EncodeHardware_failed: "jr_error (fst (EncodeHardware b rgb w h q hw)) \<noteq> [] \<Longrightarrow>
    jr_bytes (fst (EncodeHardware b rgb w h q hw)) = []"
  by (auto simp: EncodeHardware_def Let_def split: option.splits prod.splits if_splits)

lemma EncodeCPU_failed: "jr_error (EncodeSnapshotJpegCPU t jpeg rgb w h q) \<noteq> [] \<Longrightarrow>
    jr_bytes (EncodeSnapshotJpegCPU t jpeg rgb w h q) = []"
  by (auto simp: EncodeSnapshotJpegCPU_def split: option.splits if_splits)

text \<open>
  C27: The worker keeps the operator's policy: under \<open>hardware\<close> libjpeg has no influence on the
  result and a failing module is never fused off, under \<open>cpu\<close> the hardware module is not called,
  and once the hardware has failed under \<open>auto\<close> it is fused off and not called again. In every case
  the result is complete, keeps the identity of the job, and has failed exactly when it has no
  image.
\<close>

theorem encodeSnapshot_policy:
  assumes "snapshotJpegBackend s = SelectSnapshotJpegBackend turbo policy hw name"
    and "bd_available (snapshotJpegBackend s)" and "\<not> sn_failed x"
    and "snapshotJpegHardwareFusedOff s \<Longrightarrow> policy = kAuto"
    and "(y, s') = encodeSnapshot turbo jpeg b ms x s"
  shows "(policy = kHardware \<longrightarrow> \<not> snapshotJpegHardwareFusedOff s'
        \<and> (\<forall>jpeg'. encodeSnapshot turbo jpeg' b ms x s = (y, s')))
    \<and> (policy = kCPU \<or> snapshotJpegHardwareFusedOff s \<longrightarrow>
        snapshotJpegHardware s' = snapshotJpegHardware s)
    \<and> (snapshotJpegHardwareFusedOff s \<longrightarrow> snapshotJpegHardwareFusedOff s')
    \<and> (policy = kAuto \<and> hw \<and> \<not> snapshotJpegHardwareFusedOff s
        \<and> jr_error (fst (EncodeHardware b (sn_rgb x) (sn_width x) (sn_height x)
              (sn_jpegQuality x) (snapshotJpegHardware s))) \<noteq> [] \<longrightarrow> snapshotJpegHardwareFusedOff s')
    \<and> sn_completed y \<and> sameCapture y x \<and> (sn_failed y \<longleftrightarrow> sn_jpeg y = [])"
proof -
  obtain h hs where hw: "EncodeHardware b (sn_rgb x) (sn_width x) (sn_height x)
      (sn_jpegQuality x) (snapshotJpegHardware s) = (h, hs)" by (cases "EncodeHardware b (sn_rgb x)
      (sn_width x) (sn_height x) (sn_jpegQuality x) (snapshotJpegHardware s)")
  have bytes: "jr_error h \<noteq> [] \<Longrightarrow> jr_bytes h = []"
    using EncodeHardware_failed [of b "sn_rgb x" "sn_width x" "sn_height x" "sn_jpegQuality x"
        "snapshotJpegHardware s"] hw by simp
  let ?c = "EncodeSnapshotJpegCPU turbo jpeg (sn_rgb x) (sn_width x) (sn_height x) (sn_jpegQuality x)"
  have cpu: "jr_error ?c \<noteq> [] \<Longrightarrow> jr_bytes ?c = []" by (rule EncodeCPU_failed)
  have log: "snapshotJpegHardwareFusedOff (LogEncoderError m u) = snapshotJpegHardwareFusedOff u"
    "snapshotJpegHardware (LogEncoderError m u) = snapshotJpegHardware u" for m and u :: "'a snap_scheme"
    by (simp_all add: LogEncoderError_def Let_def)
  show ?thesis
    using assms hw bytes cpu
    by (cases policy; cases hw; cases "snapshotJpegHardwareFusedOff s")
      (auto simp: encodeSnapshot_def SelectSnapshotJpegBackend_def sameCapture_def Let_def log
        split: if_splits)
qed

definition snapHardware :: snap where
  "snapHardware = snapStart\<lparr>snapshotJpegBackend := SelectSnapshotJpegBackend True kAuto True ''m'',
     snapshotJpegHardware := closedHardware\<lparr>jh_library := True, jh_encoder :=
       Some (demoModule\<lparr>hw_encode_rgb := Some (\<lambda>rgb w h q. (1, None, ''cuda''))\<rparr>)\<rparr>\<rparr>"

theorem encodeSnapshot_policy_witness:
  "snapshotJpegHardwareFusedOff (snd (encodeSnapshot True (\<lambda>w h q rows. Some [1]) 0 0
     SnapshotResult snapHardware))"
proof -
  have "\<not> snapshotJpegHardwareFusedOff snapHardware" "\<not> sn_failed SnapshotResult"
    "bd_available (snapshotJpegBackend snapHardware)"
    "jr_error (fst (EncodeHardware 0 (sn_rgb SnapshotResult) (sn_width SnapshotResult)
       (sn_height SnapshotResult) (sn_jpegQuality SnapshotResult)
       (snapshotJpegHardware snapHardware))) \<noteq> []"
    by code_simp+
  moreover have "snapshotJpegBackend snapHardware = SelectSnapshotJpegBackend True kAuto True ''m''"
    by (simp add: snapHardware_def)
  ultimately show ?thesis
    using encodeSnapshot_policy [OF _ _ _ _ surjective_pairing [symmetric], of snapHardware True kAuto
        True "''m''" SnapshotResult "\<lambda>w h q rows. Some [1]" 0 0] by simp
qed

end
