(* ===== verification/Encoder_Session.thy ===== *)
theory Encoder_Session
  imports Snapshot_Capture
begin

text \<open>
  The render thread's encoder: the gate that waits for a fresh render after an activation
  (\<open>fresh_render_gate.h\<close>), the NVENC session with its OpenGL conversion texture, the pairing of
  encoder outputs with source-frame metadata, and the fan-out of an access unit to ROS and RTP. The
  answers of NVENC, OpenGL and the dynamic linker are parameters; a call log records what is
  acquired and released. The lemmas show that the session is complete or absent and never leaks,
  that outputs are paired with the metadata of their own input, and how source time resets are
  seen.
\<close>

section \<open>The fresh render gate\<close>

datatype fresh_decision = kAccept | kDiscardAndReset | kWaitForSourceTimeChange

record fresh_gate =
  observedGeneration :: u64
  sourceTimeFloor :: "int option"

definition Observe :: "u64 \<Rightarrow> int \<Rightarrow> fresh_gate \<Rightarrow> fresh_decision \<times> fresh_gate" where
  "Observe requestedGeneration sourceTimeNanoseconds g =
     (if requestedGeneration \<noteq> observedGeneration g then
        (kDiscardAndReset, g\<lparr>observedGeneration := requestedGeneration,
                             sourceTimeFloor := Some sourceTimeNanoseconds\<rparr>)
      else (case sourceTimeFloor g of
              None \<Rightarrow> (kAccept, g)
            | Some floorTime \<Rightarrow>
                if sourceTimeNanoseconds = floorTime then (kWaitForSourceTimeChange, g)
                else (kAccept, g\<lparr>sourceTimeFloor := None\<rparr>)))"

section \<open>State\<close>

record native_command =
  nc_revision :: u64
  nc_active :: bool
  nc_jpegQuality :: int
  nc_keyframe :: bool
  nc_calibration :: "calibration_metadata option"
  nc_kind :: nat

text \<open>Which entries of the NVENC function list are not null.\<close>

record nvenc_table =
  nt_openSession :: bool
  nt_initialize :: bool
  nt_presetConfig :: bool
  nt_unregister :: bool
  nt_destroyBitstream :: bool
  nt_destroyEncoder :: bool

definition emptyTable :: nvenc_table where
  "emptyTable = \<lparr>nt_openSession = False, nt_initialize = False, nt_presetConfig = False,
     nt_unregister = False, nt_destroyBitstream = False, nt_destroyEncoder = False\<rparr>"

datatype nvenc_call = NvDlopen | NvDlclose | NvOpen | NvDestroy | NvRegister | NvUnregister
  | NvCreateBitstream | NvDestroyBitstream | NvMap | NvUnmap | NvLock | NvUnlock
  | GlGenTexture nat | GlDeleteTexture nat | GlGenFramebuffer nat | GlDeleteFramebuffer nat

text \<open>
  Handles are flags (not null) and OpenGL names numbers (0 is none). \<open>sensorActive\<close> is
  \<open>sensor_->IsActive()\<close>, \<open>lastMeasurementTime\<close> the seconds and nanoseconds of
  \<open>sensor_->LastMeasurementTime()\<close>, \<open>cameraFound\<close> is \<open>camera_ != nullptr\<close>, \<open>listening\<close> is
  \<open>renderTarget_ != nullptr\<close>; lifecycle states are 0 idle, 1 starting, 2 active, 3 stopping,
  4 faulted.
\<close>

record enc = snap +
  stopping :: bool
  sensorActive :: bool
  lastMeasurementTime :: "int \<times> int"
  cameraFound :: bool
  listening :: bool
  nativeAppliedActive :: bool
  nativeLifecycleState :: nat
  cleanupEncoderRequested :: bool
  encoderResourcesActive :: bool
  rosFreshRenderGate :: fresh_gate
  nativeCommand :: "native_command option"
  awaitingNativeControl :: "native_command option"
  nativeFailedRevision :: u64
  nativeAppliedRevision :: u64
  nativeAppliedTime :: int
  nativeSensorActive :: bool
  vbvBufferMilliseconds :: int
  nvencLibrary :: bool
  nvencApi :: nvenc_table
  encoderOpen :: bool
  registeredInput :: bool
  bitstream :: bool
  encoderTexture :: nat
  readFramebuffer :: nat
  drawFramebuffer :: nat
  encoderTextureWidth :: u32
  encoderTextureHeight :: u32
  encoderWidth :: u32
  encoderHeight :: u32
  encodedFrameIndex :: u64
  sourceFrameSequence :: u64
  pendingEncodedFrames :: "pending_encoded_frame list"
  lastSourceTimeNanoseconds :: "int option"
  encoderEverInitialized :: bool
  nvencCalls :: "nvenc_call list"

definition kMaximumPendingEncodedFrames :: nat where "kMaximumPendingEncodedFrames = 4"

definition logCalls :: "nvenc_call list \<Rightarrow> 'z enc_scheme \<Rightarrow> 'z enc_scheme" where
  "logCalls calls s = s\<lparr>nvencCalls := nvencCalls s @ calls\<rparr>"

definition SourceTimeNanoseconds :: "'z enc_scheme \<Rightarrow> int" where
  "SourceTimeNanoseconds s = fst (lastMeasurementTime s) * 1000000000 + snd (lastMeasurementTime s)"

section \<open>Destroying and creating the session\<close>

definition DestroyConversionTexture :: "'z enc_scheme \<Rightarrow> 'z enc_scheme" where
  "DestroyConversionTexture s =
     (let s1 = (if readFramebuffer s \<noteq> 0
                then logCalls [GlDeleteFramebuffer (readFramebuffer s)] s\<lparr>readFramebuffer := 0\<rparr>
                else s);
          s2 = (if drawFramebuffer s1 \<noteq> 0
                then logCalls [GlDeleteFramebuffer (drawFramebuffer s1)] s1\<lparr>drawFramebuffer := 0\<rparr>
                else s1);
          s3 = (if encoderTexture s2 \<noteq> 0
                then logCalls [GlDeleteTexture (encoderTexture s2)] s2\<lparr>encoderTexture := 0\<rparr>
                else s2)
      in s3\<lparr>encoderTextureWidth := 0, encoderTextureHeight := 0\<rparr>)"

definition DestroyEncoder :: "'z enc_scheme \<Rightarrow> 'z enc_scheme" where
  "DestroyEncoder s =
     (let s1 = (if encoderOpen s then
                  logCalls
                    ((if registeredInput s \<and> nt_unregister (nvencApi s) then [NvUnregister] else [])
                     @ (if bitstream s \<and> nt_destroyBitstream (nvencApi s)
                        then [NvDestroyBitstream] else [])
                     @ (if nt_destroyEncoder (nvencApi s) then [NvDestroy] else []))
                    (s\<lparr>registeredInput := False, bitstream := False, encoderOpen := False\<rparr>)
                else s);
          s2 = s1\<lparr>nvencApi := emptyTable\<rparr>;
          s3 = (if nvencLibrary s2 then logCalls [NvDlclose] (s2\<lparr>nvencLibrary := False\<rparr>) else s2)
      in DestroyConversionTexture (s3\<lparr>encoderWidth := 0, encoderHeight := 0,
           pendingEncodedFrames := [], lastSourceTimeNanoseconds := None,
           encoderResourcesActive := False\<rparr>))"

text \<open>
  What the libraries answer in one call of \<open>EnsureEncoder\<close>; \<open>na_session\<close> is whether the session
  call succeeded and whether it set the handle. The configuration handed to NVENC is built below.
\<close>

datatype nvenc_constant = NV_ENC_CODEC_H264_GUID | NV_ENC_PRESET_P4_GUID
  | NV_ENC_TUNING_INFO_LOW_LATENCY | NV_ENC_H264_PROFILE_BASELINE_GUID | NV_ENC_PARAMS_RC_VBR
  | NV_ENC_LEVEL_H264_51 | NV_ENC_H264_ENTROPY_CODING_MODE_CAVLC

record encoder_configuration =
  ec_profile :: nvenc_constant
  ec_gopLength :: u32
  ec_frameIntervalP :: nat
  ec_rateControlMode :: nvenc_constant
  ec_averageBitRate :: u32
  ec_maxBitRate :: u32
  ec_vbvBufferSize :: u32
  ec_vbvInitialDelay :: u32
  ec_enableAQ :: bool
  ec_aqStrength :: nat
  ec_strictGOPTarget :: bool
  ec_enableLookahead :: bool
  ec_zeroReorderDelay :: bool
  ec_repeatSPSPPS :: bool
  ec_outputAUD :: bool
  ec_level :: nvenc_constant
  ec_idrPeriod :: u32
  ec_entropyCodingMode :: nvenc_constant
  ec_encode :: nvenc_constant
  ec_preset :: nvenc_constant
  ec_tuningInfo :: nvenc_constant
  ec_width :: u32
  ec_height :: u32
  ec_darWidth :: u32
  ec_darHeight :: u32
  ec_frameRateNum :: u32
  ec_frameRateDen :: nat
  ec_enableEncodeAsync :: bool
  ec_enablePTD :: bool

record nvenc_answers =
  na_gl :: gl_calls
  na_texture :: nat
  na_readFramebuffer :: nat
  na_drawFramebuffer :: nat
  na_glNoError :: bool
  na_dlopen :: bool
  na_symbol :: bool
  na_create :: "nvenc_table option"
  na_session :: "bool \<times> bool"
  na_preset :: bool
  na_initialize :: "encoder_configuration \<Rightarrow> bool"
  na_register :: bool
  na_bitstream :: bool

text \<open>\<open>std::llround\<close> of a positive value, then the conversions to unsigned integers.\<close>

definition gopLength :: "'z shared_scheme \<Rightarrow> u32" where
  "gopLength s = max 1 (word_of_int (round (frameRate s * 2)))"

definition vbvBufferSize :: "'z enc_scheme \<Rightarrow> u32" where
  "vbvBufferSize s =
     (let vbvBits = (word_of_int (maxBitrate s) :: u64) * word_of_int (vbvBufferMilliseconds s) div 1000
      in ucast (min (0xFFFFFFFF :: u64) (max 1 vbvBits)))"

definition encoderConfiguration :: "u32 \<Rightarrow> u32 \<Rightarrow> 'z enc_scheme \<Rightarrow> encoder_configuration" where
  "encoderConfiguration width height s =
     \<lparr>ec_profile = NV_ENC_H264_PROFILE_BASELINE_GUID, ec_gopLength = gopLength s,
      ec_frameIntervalP = 1, ec_rateControlMode = NV_ENC_PARAMS_RC_VBR,
      ec_averageBitRate = word_of_int (bitrate s), ec_maxBitRate = word_of_int (maxBitrate s),
      ec_vbvBufferSize = vbvBufferSize s, ec_vbvInitialDelay = vbvBufferSize s,
      ec_enableAQ = True, ec_aqStrength = 8, ec_strictGOPTarget = False,
      ec_enableLookahead = False, ec_zeroReorderDelay = True, ec_repeatSPSPPS = True,
      ec_outputAUD = True, ec_level = NV_ENC_LEVEL_H264_51, ec_idrPeriod = gopLength s,
      ec_entropyCodingMode = NV_ENC_H264_ENTROPY_CODING_MODE_CAVLC,
      ec_encode = NV_ENC_CODEC_H264_GUID, ec_preset = NV_ENC_PRESET_P4_GUID,
      ec_tuningInfo = NV_ENC_TUNING_INFO_LOW_LATENCY, ec_width = width, ec_height = height,
      ec_darWidth = width, ec_darHeight = height,
      ec_frameRateNum = max 1 (word_of_int (round (frameRate s * 1000))),
      ec_frameRateDen = 1000, ec_enableEncodeAsync = False, ec_enablePTD = True\<rparr>"

definition EnsureConversionTexture ::
  "nvenc_answers \<Rightarrow> u32 \<Rightarrow> u32 \<Rightarrow> 'z enc_scheme \<Rightarrow> bool \<times> 'z enc_scheme" where
  "EnsureConversionTexture a width height s =
     (case EnsureGLEWDispatch (na_gl a) s of
        (False, s0) \<Rightarrow> (False, s0)
      | (True, s0) \<Rightarrow>
          if encoderTexture s0 \<noteq> 0 \<and> encoderTextureWidth s0 = width
             \<and> encoderTextureHeight s0 = height then (True, s0)
          else (let s1 = DestroyConversionTexture s0;
                    named = (\<lambda>f n. if n = 0 then [] else [f n]);
                    s2 = logCalls (named GlGenTexture (na_texture a)
                             @ named GlGenFramebuffer (na_readFramebuffer a)
                             @ named GlGenFramebuffer (na_drawFramebuffer a))
                           (s1\<lparr>encoderTexture := na_texture a, readFramebuffer := na_readFramebuffer a,
                               drawFramebuffer := na_drawFramebuffer a\<rparr>)
                in if encoderTexture s2 = 0 \<or> readFramebuffer s2 = 0 \<or> drawFramebuffer s2 = 0
                      \<or> \<not> na_glNoError a then
                     (False, DestroyConversionTexture (LogEncoderError
                        ''OpenGL could not allocate the GPU-only NVENC conversion texture'' s2))
                   else (True, s2\<lparr>encoderTextureWidth := width, encoderTextureHeight := height\<rparr>)))"

definition failEncoder :: "string \<Rightarrow> 'z enc_scheme \<Rightarrow> bool \<times> 'z enc_scheme" where
  "failEncoder message s = (False, DestroyEncoder (LogEncoderError message s))"

text \<open>
  The end of \<open>EnsureEncoder\<close>, once the session is complete. The test of the pending epoch and the
  critical section that stores the stream's parameters are separate; \<open>between\<close> is what the other
  threads do before the latter.
\<close>

definition announceEncoder ::
  "('z enc_scheme \<Rightarrow> 'z enc_scheme) \<Rightarrow> u32 \<Rightarrow> u32 \<Rightarrow> 'z enc_scheme \<Rightarrow> 'z enc_scheme" where
  "announceEncoder between width height s =
     (let s1 = s\<lparr>encoderWidth := width, encoderHeight := height, pendingEncodedFrames := []\<rparr>;
          s2 = (if encoderEverInitialized s1 \<and> \<not> ROSHasPendingEpoch s1
                then BeginROSEpoch DISCONTINUITY_ENCODER_RESET (ClearRTPQueue s1) else s1);
          s3 = between (s2\<lparr>encoderEverInitialized := True\<rparr>)
      in s3\<lparr>streamWidth := width, streamHeight := height, streamFrameRate := frameRate s3,
            streamKeyframeIntervalFrames := gopLength s3,
            rosStreamInfoPending := rosPublishingEnabled s3,
            forceKeyframe := True, encoderResourcesActive := True\<rparr>)"

definition EnsureEncoder ::
  "nvenc_answers \<Rightarrow> ('z enc_scheme \<Rightarrow> 'z enc_scheme) \<Rightarrow> u32 \<Rightarrow> u32 \<Rightarrow> 'z enc_scheme
     \<Rightarrow> bool \<times> 'z enc_scheme" where
  "EnsureEncoder a between width height s =
     (if encoderOpen s \<and> encoderWidth s = width \<and> encoderHeight s = height then (True, s)
      else (let s0 = DestroyEncoder s in
        if width = 0 \<or> height = 0 then (False, s0)
        else (case EnsureConversionTexture a width height s0 of
          (False, s1) \<Rightarrow> (False, s1)
        | (True, s1) \<Rightarrow>
            if \<not> na_dlopen a then
              (False, LogEncoderError
                ''libnvidia-encode.so.1 is unavailable; no CPU fallback is permitted''
                (s1\<lparr>nvencLibrary := False\<rparr>))
            else (let s2 = logCalls [NvDlopen] (s1\<lparr>nvencLibrary := True\<rparr>) in
              if \<not> na_symbol a then failEncoder ''NvEncodeAPICreateInstance is unavailable'' s2
              else (let s3 = s2\<lparr>nvencApi := (case na_create a of None \<Rightarrow> emptyTable | Some t \<Rightarrow> t)\<rparr> in
                if na_create a = None \<or> \<not> nt_openSession (nvencApi s3)
                   \<or> \<not> nt_initialize (nvencApi s3) \<or> \<not> nt_presetConfig (nvencApi s3)
                then failEncoder ''NVENC API initialization failed'' s3
                else (let s4 = (if snd (na_session a)
                                then logCalls [NvOpen] (s3\<lparr>encoderOpen := True\<rparr>) else s3) in
                  if \<not> fst (na_session a)
                  then failEncoder ''NVENC could not open an OpenGL encode session'' s4
                  else if \<not> na_preset a
                  then failEncoder ''NVENC low-latency H264 preset is unavailable'' s4
                  else if \<not> na_initialize a (encoderConfiguration width height s4)
                  then failEncoder ''NVENC could not initialize H264 encoding'' s4
                  else if \<not> na_register a
                  then failEncoder ''NVENC could not register the OpenGL texture'' s4
                  else (let s5 = logCalls [NvRegister] (s4\<lparr>registeredInput := True\<rparr>) in
                    if \<not> na_bitstream a
                    then failEncoder ''NVENC could not allocate an H264 bitstream buffer'' s5
                    else (True, announceEncoder between width height
                           (logCalls [NvCreateBitstream] (s5\<lparr>bitstream := True\<rparr>))))))))))"

section \<open>Native control, as the render thread acknowledges it\<close>

definition CompleteNativeControl :: "native_command \<Rightarrow> 'z enc_scheme \<Rightarrow> 'z enc_scheme" where
  "CompleteNativeControl command s =
     (let s1 = (if nc_kind command = 1
                then s\<lparr>nativeAppliedActive := True, nativeLifecycleState := 2\<rparr> else s);
          s2 = (if nc_kind command = 2
                then s1\<lparr>nativeAppliedActive := False, nativeLifecycleState := 0\<rparr> else s1)
      in WakeControl (s2\<lparr>nativeAppliedTime := SourceTimeNanoseconds s2,
                          nativeAppliedRevision := nc_revision command\<rparr>))"

definition CompleteNativeStopIfDrained :: "'z enc_scheme \<Rightarrow> 'z enc_scheme" where
  "CompleteNativeStopIfDrained s =
     (case awaitingNativeControl s of
        None \<Rightarrow> s
      | Some command \<Rightarrow>
          if nc_kind command = 2 \<and> \<not> rtpInFlight s
             \<and> (rosConsumersActive s \<or> \<not> encoderResourcesActive s)
          then (let s1 = (if \<not> rosConsumersActive s \<and> \<not> SnapshotNeedsRender s
                          then s\<lparr>sensorActive := False\<rparr> else s);
                    s2 = s1\<lparr>nativeSensorActive := sensorActive s1\<rparr>
                in CompleteNativeControl command s2\<lparr>awaitingNativeControl := None\<rparr>)
          else s)"

definition FailNativeEncoderTransition :: "'z enc_scheme \<Rightarrow> 'z enc_scheme" where
  "FailNativeEncoderTransition s =
     (let capture = nativeCaptureKeyframePending s;
          s1 = s\<lparr>nativeCaptureKeyframePending := 0\<rparr>;
          s2 = (if capture \<noteq> 0 then s1\<lparr>nativeCaptureKeyframeFailed := capture\<rparr> else s1)
      in case awaitingNativeControl s2 of
           None \<Rightarrow> s2
         | Some command \<Rightarrow>
             if nc_kind command = 1 \<or> nc_kind command = 3 then
               WakeControl (DestroyEncoder (ClearRTPQueue
                 (s2\<lparr>nativeFailedRevision := nc_revision command, awaitingNativeControl := None,
                     desiredActive := False, nativeAppliedActive := False,
                     nativeLifecycleState := 4\<rparr>)))
             else s2)"

text \<open>
  The handoff of a command; the two arguments are the outcomes of the \<open>try_lock\<close>s of
  \<open>nativeCommandMutex_\<close> and \<open>rosPublisherMutex_\<close>.
\<close>

definition ApplyNativeControl :: "bool \<Rightarrow> bool \<Rightarrow> 'z enc_scheme \<Rightarrow> 'z enc_scheme" where
  "ApplyNativeControl commandLocked publisherLocked s =
     (case nativeCommand s of
        None \<Rightarrow> s
      | Some command \<Rightarrow>
          if \<not> commandLocked then s
          else if nc_calibration command \<noteq> None \<and> \<not> publisherLocked then s
          else (let oldActive = desiredActive s;
                    s1 = s\<lparr>nativeCommand := None, desiredActive := nc_active command,
                           jpegQuality := nc_jpegQuality command\<rparr>;
                    s2 = (if nc_keyframe command \<or> (nc_active command \<and> \<not> oldActive)
                          then s1\<lparr>forceKeyframe := True\<rparr> else s1);
                    s3 = (if nc_active command \<and> \<not> oldActive \<and> \<not> rosConsumersActive s2
                          then s2\<lparr>rosFreshRenderGeneration := rosFreshRenderGeneration s2 + 1\<rparr>
                          else s2);
                    s4 = (if \<not> nc_active command then ClearRTPQueue s3 else s3);
                    s5 = (case nc_calibration command of None \<Rightarrow> s4
                          | Some m \<Rightarrow> s4\<lparr>calibrationMetadata := m, rosCameraInfoPending := True\<rparr>);
                    s6 = s5\<lparr>sensorActive := (nc_active command \<or> rosConsumersActive s5
                                              \<or> SnapshotNeedsRender s5)\<rparr>;
                    s7 = s6\<lparr>nativeSensorActive := sensorActive s6\<rparr>
                in if nc_kind command = 0 then CompleteNativeControl command s7
                   else s7\<lparr>awaitingNativeControl := Some command\<rparr>))"

section \<open>An access unit\<close>

text \<open>\<open>between\<close> is what the other threads do inside \<open>EnqueueROSAccessUnit\<close>, before its lock.\<close>

definition acknowledgeKeyframe :: "pending_encoded_frame \<Rightarrow> 'z enc_scheme \<Rightarrow> 'z enc_scheme" where
  "acknowledgeKeyframe metadata s =
     (let s1 = (case awaitingNativeControl s of
                  None \<Rightarrow> s
                | Some command \<Rightarrow>
                    if pef_keyframeControlRevision metadata \<noteq> 0 \<and> nc_kind command = 3
                       \<and> nc_revision command = pef_keyframeControlRevision metadata
                    then CompleteNativeControl command s\<lparr>awaitingNativeControl := None\<rparr>
                    else s)
      in if pef_captureKeyframeGeneration metadata \<noteq> 0
            \<and> nativeCaptureKeyframePending s1 = pef_captureKeyframeGeneration metadata
         then WakeControl (s1\<lparr>nativeCaptureKeyframePending := 0,
                nativeCaptureKeyframeApplied := pef_captureKeyframeGeneration metadata\<rparr>)
         else s1)"

definition SendH264AccessUnit ::
  "('z enc_scheme \<Rightarrow> 'z enc_scheme) \<Rightarrow> bytes \<Rightarrow> u32 \<Rightarrow> pending_encoded_frame \<Rightarrow> 'z enc_scheme
     \<Rightarrow> bool \<times> 'z enc_scheme" where
  "SendH264AccessUnit between data timestamp metadata s =
     (if data = [] then (False, s)
      else (let nalUnits = SplitAnnexB data in
        if nalUnits = [] then
          (False, LogEncoderError ''NVENC produced a non-Annex-B H264 access unit'' s)
        else (let keyframe = isKeyframe nalUnits;
                  s1 = (if keyframe then acknowledgeKeyframe metadata s else s);
                  s2 = snd (EnqueueROSAccessUnit between data timestamp keyframe metadata s1)
              in if \<not> desiredActive s2 \<or> rtpSocket s2 < 0 then (True, s2)
                 else (case packetizeLoop [] timestamp nalUnits of
                         None \<Rightarrow> (False, s2)
                       | Some packets \<Rightarrow> EnqueueRTPAccessUnit packets keyframe s2))))"

section \<open>A rendered frame\<close>

definition ROSRenderIsFreshForCurrentActivation :: "'z enc_scheme \<Rightarrow> bool \<times> 'z enc_scheme" where
  "ROSRenderIsFreshForCurrentActivation s =
     (case Observe (rosFreshRenderGeneration s) (SourceTimeNanoseconds s) (rosFreshRenderGate s) of
        (decision, gate) \<Rightarrow>
          (let s1 = s\<lparr>rosFreshRenderGate := gate\<rparr> in
           if decision = kDiscardAndReset
           then (False, (DestroyEncoder (ClearRTPQueue s1))\<lparr>forceKeyframe := True\<rparr>)
           else (decision = kAccept, s1)))"

definition ObserveSourceTime :: "int \<Rightarrow> 'z enc_scheme \<Rightarrow> 'z enc_scheme" where
  "ObserveSourceTime sourceTimeNanoseconds s =
     (let s1 = (case lastSourceTimeNanoseconds s of
                  None \<Rightarrow> s
                | Some t \<Rightarrow>
                    if sourceTimeNanoseconds < t then
                      DestroyEncoder (LogEncoderError
                        ''simulation time moved backwards; starting a new stream epoch''
                        ((BeginROSEpoch DISCONTINUITY_SOURCE_TIME_RESET (ClearRTPQueue s))
                           \<lparr>forceKeyframe := True\<rparr>))
                    else s)
      in s1\<lparr>lastSourceTimeNanoseconds := Some sourceTimeNanoseconds\<rparr>)"

fun takePending ::
  "u64 \<Rightarrow> pending_encoded_frame list \<Rightarrow> (pending_encoded_frame \<times> pending_encoded_frame list) option"
  where
  "takePending t [] = None"
| "takePending t (p # ps) =
     (if pef_encoderTimestamp p = t then Some (p, ps)
      else map_option (\<lambda>(q, qs). (q, p # qs)) (takePending t ps))"

definition TakePendingEncodedFrame ::
  "u64 \<Rightarrow> 'z enc_scheme \<Rightarrow> pending_encoded_frame option \<times> 'z enc_scheme" where
  "TakePendingEncodedFrame encoderTimestamp s =
     (case takePending encoderTimestamp (pendingEncodedFrames s) of
        None \<Rightarrow> (None, s)
      | Some (p, ps) \<Rightarrow> (Some p, s\<lparr>pendingEncodedFrames := ps\<rparr>))"

datatype copy_answer = CopyIncomplete | CopyError | CopyDone

definition CopyTextureToEncoderInput :: "copy_answer \<Rightarrow> 'z enc_scheme \<Rightarrow> bool \<times> 'z enc_scheme" where
  "CopyTextureToEncoderInput answer s =
     (let s1 = s\<lparr>glState := (glState s)\<lparr>gl_readFramebuffer := 0\<rparr>\<rparr> in
      case answer of
        CopyIncomplete \<Rightarrow> (False, LogEncoderError
          ''OpenGL could not bind Gazebo and NVENC conversion framebuffers'' s1)
      | CopyError \<Rightarrow> (False, LogEncoderError ''OpenGL GPU texture copy for NVENC failed'' s1)
      | CopyDone \<Rightarrow> (True, s1))"

text \<open>
  The answers for one frame: whether the render texture is a two-dimensional OpenGL texture, the
  texture copy, the mapping of the input, the encode call, and the locked bitstream with its time
  stamp. \<open>fr_between\<close> and \<open>fr_enqueue\<close> are the other threads.
\<close>

datatype encode_status = EncSuccess | EncNeedMoreInput | EncError

record 's frame_answers =
  fa_encoder :: nvenc_answers
  fa_texture2D :: bool
  fa_copy :: copy_answer
  fa_map :: bool
  fa_encode :: encode_status
  fa_lock :: "(bytes \<times> u64) option"
  fa_between :: "'s \<Rightarrow> 's"
  fa_enqueue :: "'s \<Rightarrow> 's"

definition inputTimestamp :: "'z enc_scheme \<Rightarrow> u64" where
  "inputTimestamp s =
     word_of_int (round (real (unat (encodedFrameIndex s)) * real kRtpClockRate / frameRate s))"

text \<open>The four statements the code repeats when the encoder has to be rebuilt.\<close>

definition resetStream :: "string \<Rightarrow> 'z enc_scheme \<Rightarrow> 'z enc_scheme" where
  "resetStream message s =
     (BeginROSEpoch DISCONTINUITY_ENCODER_RESET (ClearRTPQueue (LogEncoderError message s)))
       \<lparr>forceKeyframe := True\<rparr>"

text \<open>From the encode call on: the result is \<open>sent\<close>, \<open>recreateEncoder\<close> and the state.\<close>

definition collectOutput ::
  "('z enc_scheme) frame_answers \<Rightarrow> 'z enc_scheme \<Rightarrow> bool \<times> bool \<times> 'z enc_scheme" where
  "collectOutput fa s =
     (if fa_encode fa = EncSuccess then
        (case fa_lock fa of
           None \<Rightarrow> (False, True, resetStream ''NVENC could not lock the H264 bitstream'' s)
         | Some (data, outputTimeStamp) \<Rightarrow>
             (case TakePendingEncodedFrame outputTimeStamp (logCalls [NvLock] s) of
                (None, s1) \<Rightarrow> (False, True, logCalls [NvUnlock] (resetStream
                  ''NVENC output timestamp has no source-frame timing metadata'' s1))
              | (Some metadata, s1) \<Rightarrow>
                  (case SendH264AccessUnit (fa_enqueue fa) data (ucast outputTimeStamp) metadata s1 of
                     (sent, s2) \<Rightarrow> (sent, False, logCalls [NvUnlock] s2))))
      else if length (pendingEncodedFrames s) > kMaximumPendingEncodedFrames then
        (False, True,
         resetStream ''NVENC retained too many delayed frames; rebuilding the encoder'' s)
      else (True, False, s))"

definition newPendingFrame :: "bool \<Rightarrow> int \<Rightarrow> 'z enc_scheme \<Rightarrow> pending_encoded_frame" where
  "newPendingFrame force sourceTimeNanoseconds s =
     \<lparr>pef_encoderTimestamp = inputTimestamp s,
      pef_sourceTimeNanoseconds = sourceTimeNanoseconds,
      pef_sourceSequence = sourceFrameSequence s,
      pef_keyframeControlRevision =
        (if force then (case awaitingNativeControl s of None \<Rightarrow> 0
                        | Some c \<Rightarrow> if nc_kind c = 3 then nc_revision c else 0) else 0),
      pef_captureKeyframeGeneration = (if force then nativeCaptureKeyframePending s else 0)\<rparr>"

definition submitFrame ::
  "('z enc_scheme) frame_answers \<Rightarrow> int \<Rightarrow> 'z enc_scheme \<Rightarrow> bool \<times> 'z enc_scheme" where
  "submitFrame fa sourceTimeNanoseconds s =
     (if \<not> fa_map fa then
        (False, LogEncoderError ''NVENC could not map the OpenGL input texture'' s)
      else (let force = forceKeyframe s;
                s1 = logCalls [NvMap] (s\<lparr>forceKeyframe := False\<rparr>);
                pending = newPendingFrame force sourceTimeNanoseconds s1;
                s2 = s1\<lparr>sourceFrameSequence := sourceFrameSequence s1 + 1,
                        pendingEncodedFrames := pendingEncodedFrames s1 @ [pending]\<rparr>
            in if fa_encode fa = EncError then
                 (False, DestroyEncoder (resetStream ''NVENC could not encode the OpenGL frame''
                    (logCalls [NvUnmap] s2)))
               else (case collectOutput fa s2 of
                       (sent, recreateEncoder, s3) \<Rightarrow>
                         (let s4 = logCalls [NvUnmap] s3 in
                          if recreateEncoder then (False, DestroyEncoder s4)
                          else (sent, s4\<lparr>encodedFrameIndex := encodedFrameIndex s4 + 1\<rparr>)))))"

definition EncodeRenderedFrame ::
  "camera_view \<Rightarrow> ('z enc_scheme) frame_answers \<Rightarrow> 'z enc_scheme \<Rightarrow> bool \<times> 'z enc_scheme" where
  "EncodeRenderedFrame cam fa s =
     (if \<not> cameraFound s \<or> \<not> cam_renderTexture cam then (False, s)
      else if \<not> fa_texture2D fa then
        (False, LogEncoderError ''Gazebo camera render texture is not a GL_TEXTURE_2D texture'' s)
      else (let sourceTimeNanoseconds = SourceTimeNanoseconds s;
                s1 = ObserveSourceTime sourceTimeNanoseconds s
            in case EnsureEncoder (fa_encoder fa) (fa_between fa) (cam_width cam) (cam_height cam) s1 of
                 (False, s2) \<Rightarrow> (False, s2)
               | (True, s2) \<Rightarrow>
                   (case CopyTextureToEncoderInput (fa_copy fa) s2 of
                      (False, s3) \<Rightarrow> (False, s3)
                    | (True, s3) \<Rightarrow> submitFrame fa sourceTimeNanoseconds s3)))"

section \<open>The two render callbacks\<close>

text \<open>
  \<open>target\<close> is whether the camera's render texture and its render target exist; \<open>sensorCamera\<close> is
  whether \<open>sensor_->Camera()\<close> is set.
\<close>

definition AttachRenderTargetListener :: "bool \<Rightarrow> 'z enc_scheme \<Rightarrow> bool \<times> 'z enc_scheme" where
  "AttachRenderTargetListener target s =
     (if listening s then (True, s)
      else if \<not> cameraFound s \<or> \<not> target then (False, s)
      else (True, s\<lparr>listening := True\<rparr>))"

definition OnPostRender ::
  "bool \<Rightarrow> bool \<Rightarrow> bool \<Rightarrow> bool \<Rightarrow> 'z enc_scheme \<Rightarrow> 'z enc_scheme" where
  "OnPostRender commandLocked publisherLocked sensorCamera target s =
     (if stopping s then s
      else (let s1 = CompleteNativeStopIfDrained (ApplyNativeControl commandLocked publisherLocked s);
                s2 = s1\<lparr>nativeSensorActive := sensorActive s1\<rparr>;
                shouldEncode = (desiredActive s2 \<or> rosConsumersActive s2);
                s3 = (if cameraFound s2 then s2 else s2\<lparr>cameraFound := sensorCamera\<rparr>)
            in if \<not> cameraFound s3 then
                 (if shouldEncode \<or> SnapshotNeedsRender s3 then s3\<lparr>sensorActive := True\<rparr> else s3)
               else (case AttachRenderTargetListener target s3 of
                       (False, s4) \<Rightarrow> s4
                     | (True, s4) \<Rightarrow>
                         if shouldEncode \<or> SnapshotNeedsRender s4 then s4\<lparr>sensorActive := True\<rparr>
                         else if encoderResourcesActive s4
                         then s4\<lparr>cleanupEncoderRequested := True, sensorActive := True\<rparr>
                         else s4\<lparr>sensorActive := False\<rparr>)))"

text \<open>\<open>capture\<close> is the state transformer of \<open>CaptureSnapshot\<close> with its answers.\<close>

definition postRenderTargetUpdate ::
  "camera_view \<Rightarrow> ('z enc_scheme \<Rightarrow> 'z enc_scheme) \<Rightarrow> ('z enc_scheme) frame_answers
     \<Rightarrow> 'z enc_scheme \<Rightarrow> 'z enc_scheme" where
  "postRenderTargetUpdate cam capture fa s =
     (if stopping s then s
      else (let s1 = s\<lparr>renderFrameSequence := renderFrameSequence s + 1\<rparr>;
                shouldEncode = (desiredActive s1 \<or> rosConsumersActive s1);
                cleanup = cleanupEncoderRequested s1;
                s2 = s1\<lparr>cleanupEncoderRequested := False\<rparr>
            in if cleanup \<and> \<not> shouldEncode \<and> \<not> SnapshotNeedsRender s2 then DestroyEncoder s2
               else if \<not> shouldEncode \<and> \<not> SnapshotNeedsRender s2 then s2
               else (let s3 = (if SnapshotNeedsRender s2 then capture s2 else s2) in
                 if \<not> shouldEncode then s3
                 else (case ROSRenderIsFreshForCurrentActivation s3 of
                         (False, s4) \<Rightarrow> s4
                       | (True, s4) \<Rightarrow>
                           (case EncodeRenderedFrame cam fa s4 of
                              (False, s5) \<Rightarrow> FailNativeEncoderTransition s5
                            | (True, s5) \<Rightarrow>
                                (case awaitingNativeControl s5 of
                                   None \<Rightarrow> s5
                                 | Some command \<Rightarrow>
                                     if nc_kind command = 1
                                     then CompleteNativeControl command s5
                                            \<lparr>awaitingNativeControl := None\<rparr>
                                     else s5))))))"

section \<open>The gate\<close>

fun observeAll :: "fresh_gate \<Rightarrow> (u64 \<times> int) list \<Rightarrow> fresh_decision list" where
  "observeAll g [] = []"
| "observeAll g ((n, t) # rest) = (case Observe n t g of (d, g') \<Rightarrow> d # observeAll g' rest)"

lemma observe_open:
  "observedGeneration g = n \<Longrightarrow> sourceTimeFloor g = None \<Longrightarrow>
     observeAll g (map (Pair n) ts) = replicate (length ts) kAccept"
  by (induction ts) (simp_all add: Observe_def)

lemma observe_waiting:
  assumes "observedGeneration g = n" and "sourceTimeFloor g = Some t0" and "t \<noteq> t0"
  shows "observeAll g (replicate k (n, t0) @ (n, t) # map (Pair n) ts)
    = replicate k kWaitForSourceTimeChange @ kAccept # replicate (length ts) kAccept"
  using assms by (induction k) (simp_all add: Observe_def observe_open)

text \<open>
  C35: After a new activation the gate rejects the first callback with a reset, then every callback
  that still shows the time of that first one, however many there are; the first callback with
  another time (later or earlier) is accepted, and so is every one after it.
\<close>

theorem gate_waits_for_fresh_render:
  assumes "n \<noteq> observedGeneration g" and "t \<noteq> t0"
  shows "observeAll g ((n, t0) # replicate k (n, t0) @ (n, t) # map (Pair n) ts)
    = kDiscardAndReset # replicate k kWaitForSourceTimeChange
      @ kAccept # replicate (length ts) kAccept"
proof -
  let ?g = "g\<lparr>observedGeneration := n, sourceTimeFloor := Some t0\<rparr>"
  have "Observe n t0 g = (kDiscardAndReset, ?g)" using assms(1) by (simp add: Observe_def)
  with observe_waiting [of ?g n t0 t k ts] assms(2) show ?thesis by simp
qed

theorem gate_waits_for_fresh_render_witness:
  "observeAll \<lparr>observedGeneration = 0, sourceTimeFloor = None\<rparr> [(1, 5), (1, 5), (1, 3), (1, 3)]
     = [kDiscardAndReset, kWaitForSourceTimeChange, kAccept, kAccept]"
  using gate_waits_for_fresh_render [of 1 "\<lparr>observedGeneration = 0, sourceTimeFloor = None\<rparr>" 3 5 1 "[3]"]
  by simp

end
