(* ===== verification/Encoder_Lifetime.thy ===== *)
theory Encoder_Lifetime
  imports Encoder_Session
begin

text \<open>
  Lifetimes in \<open>Encoder_Session\<close>: the NVENC session with its OpenGL texture is complete or absent and
  never leaks.
\<close>

section \<open>What the fan-out leaves alone\<close>

text \<open>
  A view of the state that neither the diagnostics nor the queues of the publisher and the pacer
  write is kept by what an access unit passes through after the encoder; one that the
  acknowledgement of commands does not write either is kept by the whole fan-out, which is why this
  cannot disturb the session or its bookkeeping.
\<close>

definition keeps :: "('s \<Rightarrow> 'v) \<Rightarrow> ('s \<Rightarrow> 's) \<Rightarrow> bool" where
  "keeps view env \<longleftrightarrow> (\<forall>s. view (env s) = view s)"

locale queue_view =
  fixes view :: "'z enc_scheme \<Rightarrow> 'v"
  assumes diagnostics [simp]:
    "view (LogEncoderError m s) = view s" "view (WakeControl s) = view s"
    and queues [simp]:
    "view (rtpQueue_update f1 s) = view s"
    "view (rtpQueuedBytes_update f2 s) = view s"
    "view (rtpQueueGeneration_update f3 s) = view s"
    "view (rosDroppedFramesBeforeIDR_update f4 s) = view s"
    "view (nextPublishedFrameSequence_update f5 s) = view s"
    "view (rosFrameQueue_update f6 s) = view s"
    "view (pendingDiscontinuity_update f7 s) = view s"
    "view (rosWaitingForIDR_update f8 s) = view s"
    "view (forceKeyframe_update f9 s) = view s"
    "view (streamEpoch_update f10 s) = view s"
    "view (rosPublisherGeneration_update f11 s) = view s"
    "view (rosStreamInfoPending_update f12 s) = view s"
begin

lemma epochs [simp]:
  "view (AdvanceROSEpochLocked d n s) = view s" "view (BeginROSEpoch d s) = view s"
  "view (ClearRTPQueue s) = view s" "view (pushROSFrame f s) = view s"
  by (simp_all add: AdvanceROSEpochLocked_def BeginROSEpoch_def ClearRTPQueue_def pushROSFrame_def
      Let_def)

lemma resetStream [simp]: "view (resetStream m s) = view s"
  unfolding resetStream_def by simp

lemma EnqueueROS:
  assumes "keeps view between"
  shows "view (snd (EnqueueROSAccessUnit between data t k m s)) = view s"
proof -
  have "view (snd (enqueueROSLocked f u)) = view u" for f u
    by (simp add: enqueueROSLocked_def Let_def)
  with assms show ?thesis by (simp add: EnqueueROSAccessUnit_def keeps_def)
qed

lemma EnqueueRTP: "view (snd (EnqueueRTPAccessUnit packets k s)) = view s"
  by (simp add: EnqueueRTPAccessUnit_def Let_def)

end

locale fan_out_view = queue_view +
  assumes commands [simp]:
    "view (awaitingNativeControl_update g1 s) = view s"
    "view (nativeAppliedActive_update g2 s) = view s"
    "view (nativeLifecycleState_update g3 s) = view s"
    "view (nativeAppliedTime_update g4 s) = view s"
    "view (nativeAppliedRevision_update g5 s) = view s"
    "view (nativeCaptureKeyframePending_update g6 s) = view s"
    "view (nativeCaptureKeyframeApplied_update g7 s) = view s"
begin

lemma CompleteNativeControl [simp]: "view (CompleteNativeControl c s) = view s"
  by (simp add: CompleteNativeControl_def Let_def)

lemma acknowledgeKeyframe: "view (acknowledgeKeyframe m s) = view s"
  by (simp add: acknowledgeKeyframe_def Let_def split: option.split)

lemma SendH264AccessUnit:
  assumes "keeps view between"
  shows "view (snd (SendH264AccessUnit between data t m s)) = view s"
proof -
  let ?k = "isKeyframe (SplitAnnexB data)"
  obtain s1 where s1: "s1 = (if ?k then acknowledgeKeyframe m s else s)" by simp
  obtain s2 where s2: "s2 = snd (EnqueueROSAccessUnit between data t ?k m s1)" by simp
  have v: "view s2 = view s"
    using EnqueueROS [OF assms] acknowledgeKeyframe [of m s] by (simp add: s2 s1)
  have "SendH264AccessUnit between data t m s = (if data = [] then (False, s)
     else if SplitAnnexB data = [] then
       (False, LogEncoderError ''NVENC produced a non-Annex-B H264 access unit'' s)
     else if \<not> desiredActive s2 \<or> rtpSocket s2 < 0 then (True, s2)
     else case packetizeLoop [] t (SplitAnnexB data) of None \<Rightarrow> (False, s2)
       | Some packets \<Rightarrow> EnqueueRTPAccessUnit packets ?k s2)"
    unfolding s2 s1 by (simp only: SendH264AccessUnit_def Let_def)
  moreover obtain m' where "m' = ''NVENC produced a non-Annex-B H264 access unit''" by simp
  ultimately show ?thesis using v EnqueueRTP [of _ ?k s2] by (simp split: option.split)
qed

end

section \<open>The session is complete or absent\<close>

text \<open>What the session consists of.\<close>

definition nvView :: "'z enc_scheme \<Rightarrow> (bool \<times> nvenc_table \<times> bool \<times> bool \<times> bool) \<times> nat \<times> nat \<times> nat
    \<times> nvenc_call list \<times> bool" where
  "nvView s = ((nvencLibrary s, nvencApi s, encoderOpen s, registeredInput s, bitstream s),
     encoderTexture s, readFramebuffer s, drawFramebuffer s, nvencCalls s,
     encoderResourcesActive s)"

definition fullTable :: "nvenc_table \<Rightarrow> bool" where
  "fullTable t \<longleftrightarrow> nt_unregister t \<and> nt_destroyBitstream t \<and> nt_destroyEncoder t"

text \<open>Every acquisition is released or still held.\<close>

definition nvBalanced :: "'z enc_scheme \<Rightarrow> bool" where
  "nvBalanced s \<longleftrightarrow>
     (let n = count_list (nvencCalls s) in
      n NvDlopen = n NvDlclose + of_bool (nvencLibrary s)
      \<and> n NvOpen = n NvDestroy + of_bool (encoderOpen s)
      \<and> n NvRegister = n NvUnregister + of_bool (registeredInput s)
      \<and> n NvCreateBitstream = n NvDestroyBitstream + of_bool (bitstream s)
      \<and> n NvMap = n NvUnmap \<and> n NvLock = n NvUnlock
      \<and> (\<forall>i. i \<noteq> 0 \<longrightarrow> n (GlGenTexture i) = n (GlDeleteTexture i) + of_bool (encoderTexture s = i)
           \<and> n (GlGenFramebuffer i) = n (GlDeleteFramebuffer i)
               + of_bool (readFramebuffer s = i) + of_bool (drawFramebuffer s = i)))"

text \<open>A session under construction, and a finished or absent one.\<close>

definition nvPartial :: "'z enc_scheme \<Rightarrow> bool" where
  "nvPartial s \<longleftrightarrow> nvBalanced s \<and> (registeredInput s \<or> bitstream s \<longrightarrow> encoderOpen s)
     \<and> (encoderOpen s \<longrightarrow> nvencLibrary s \<and> fullTable (nvencApi s))"

definition nvComplete :: "'z enc_scheme \<Rightarrow> bool" where
  "nvComplete s \<longleftrightarrow> nvPartial s
     \<and> (if encoderOpen s
        then registeredInput s \<and> bitstream s \<and> encoderTexture s \<noteq> 0 \<and> readFramebuffer s \<noteq> 0
             \<and> drawFramebuffer s \<noteq> 0
        else \<not> nvencLibrary s \<and> \<not> encoderResourcesActive s)"

declare nvBalanced_def [cam_inv] and nvPartial_def [cam_inv] and nvComplete_def [cam_inv]

lemma nv_view:
  assumes "nvView s' = nvView s"
  shows "nvBalanced s' = nvBalanced s" "nvPartial s' = nvPartial s" "nvComplete s' = nvComplete s"
  using assms by (simp_all add: nvView_def nvBalanced_def nvPartial_def nvComplete_def Let_def)

lemma nvView_more [simp]:
  "nvView (pendingEncodedFrames_update f1 s) = nvView s"
  "nvView (sourceFrameSequence_update f2 s) = nvView s"
  "nvView (encodedFrameIndex_update f3 s) = nvView s"
  "nvView (lastSourceTimeNanoseconds_update f4 s) = nvView s"
  "nvView (glState_update f5 s) = nvView s"
  "nvView (sensorActive_update f6 s) = nvView s"
  "nvView (nativeSensorActive_update f7 s) = nvView s"
  "nvView (cameraFound_update f8 s) = nvView s"
  "nvView (listening_update f9 s) = nvView s"
  "nvView (cleanupEncoderRequested_update f10 s) = nvView s"
  "nvView (nativeCommand_update f11 s) = nvView s"
  "nvView (desiredActive_update f12 s) = nvView s"
  "nvView (jpegQuality_update f13 s) = nvView s"
  "nvView (rosFreshRenderGeneration_update f14 s) = nvView s"
  "nvView (calibrationMetadata_update f15 s) = nvView s"
  "nvView (rosCameraInfoPending_update f16 s) = nvView s"
  "nvView (nativeFailedRevision_update f17 s) = nvView s"
  "nvView (nativeCaptureKeyframeFailed_update f18 s) = nvView s"
  "nvView (renderFrameSequence_update f19 s) = nvView s"
  "nvView (rosFreshRenderGate_update f20 s) = nvView s"
  by (simp_all add: nvView_def)

interpretation nv: fan_out_view nvView
  by unfold_locales (simp_all add: nvView_def LogEncoderError_def WakeControl_def Let_def)

text \<open>The other threads do not touch the session.\<close>

abbreviation nvPrivate :: "('z enc_scheme \<Rightarrow> 'z enc_scheme) \<Rightarrow> bool" where
  "nvPrivate env \<equiv> keeps nvView env"

lemma DestroyConversionTexture_nv:
  assumes "nvPartial s"
  shows "nvPartial (DestroyConversionTexture s)
    \<and> encoderTexture (DestroyConversionTexture s) = 0
    \<and> readFramebuffer (DestroyConversionTexture s) = 0
    \<and> drawFramebuffer (DestroyConversionTexture s) = 0
    \<and> encoderOpen (DestroyConversionTexture s) = encoderOpen s
    \<and> nvencLibrary (DestroyConversionTexture s) = nvencLibrary s
    \<and> encoderResourcesActive (DestroyConversionTexture s) = encoderResourcesActive s"
  using assms
  by (auto simp: DestroyConversionTexture_def logCalls_def nvPartial_def nvBalanced_def Let_def)

lemma DestroyEncoder_nv:
  assumes "nvPartial s"
  shows "nvComplete (DestroyEncoder s) \<and> \<not> encoderOpen (DestroyEncoder s)
    \<and> encoderTexture (DestroyEncoder s) = 0"
proof -
  let ?u = "(if encoderOpen s then
      logCalls
        ((if registeredInput s \<and> nt_unregister (nvencApi s) then [NvUnregister] else [])
         @ (if bitstream s \<and> nt_destroyBitstream (nvencApi s) then [NvDestroyBitstream] else [])
         @ (if nt_destroyEncoder (nvencApi s) then [NvDestroy] else []))
        (s\<lparr>registeredInput := False, bitstream := False, encoderOpen := False\<rparr>)
    else s)\<lparr>nvencApi := emptyTable\<rparr>"
  have u: "nvPartial ?u \<and> \<not> encoderOpen ?u"
    using assms by (cases "encoderOpen s"; cases "registeredInput s"; cases "bitstream s")
      (simp_all add: nvPartial_def nvBalanced_def logCalls_def fullTable_def Let_def)
  obtain u where U: "u = ?u" by simp
  let ?v = "(if nvencLibrary u then logCalls [NvDlclose] (u\<lparr>nvencLibrary := False\<rparr>) else u)
    \<lparr>encoderWidth := 0, encoderHeight := 0, pendingEncodedFrames := [],
     lastSourceTimeNanoseconds := None, encoderResourcesActive := False\<rparr>"
  have v: "nvPartial ?v \<and> \<not> encoderOpen ?v \<and> \<not> nvencLibrary ?v \<and> \<not> encoderResourcesActive ?v"
    using u unfolding U [symmetric]
    by (cases "nvencLibrary u") (auto simp: nvPartial_def nvBalanced_def logCalls_def Let_def)
  have "DestroyEncoder s = DestroyConversionTexture ?v"
    by (simp add: DestroyEncoder_def U Let_def)
  with v DestroyConversionTexture_nv [of ?v] show ?thesis by (simp add: nvComplete_def)
qed

text \<open>The libraries behave as documented: a created table is full, an opened session has a handle.\<close>

definition honestAnswers :: "nvenc_answers \<Rightarrow> bool" where
  "honestAnswers a \<longleftrightarrow> (\<forall>t. na_create a = Some t \<longrightarrow> fullTable t)
     \<and> (fst (na_session a) \<longrightarrow> snd (na_session a))"

lemma EnsureConversionTexture_nv:
  assumes "nvPartial s" and "encoderTexture s = 0"
    and "(ok, s') = EnsureConversionTexture a w h s"
  shows "nvPartial s' \<and> encoderOpen s' = encoderOpen s \<and> nvencLibrary s' = nvencLibrary s
    \<and> encoderResourcesActive s' = encoderResourcesActive s
    \<and> (ok \<longrightarrow> encoderTexture s' \<noteq> 0 \<and> readFramebuffer s' \<noteq> 0 \<and> drawFramebuffer s' \<noteq> 0)"
proof -
  obtain glew s0 where g: "EnsureGLEWDispatch (na_gl a) s = (glew, s0)"
    by (cases "EnsureGLEWDispatch (na_gl a) s")
  have "nvView s0 = nvView s"
    using g by (auto simp: EnsureGLEWDispatch_def nvView_def LogEncoderError_def Let_def split: if_splits)
  then have s0: "nvPartial s0" "encoderOpen s0 = encoderOpen s" "nvencLibrary s0 = nvencLibrary s"
    "encoderResourcesActive s0 = encoderResourcesActive s" "encoderTexture s0 = encoderTexture s"
    "readFramebuffer s0 = readFramebuffer s" "drawFramebuffer s0 = drawFramebuffer s"
    using nv_view(2) [of s0 s] assms(1) by (simp_all add: nvView_def)
  obtain s1 where s1: "s1 = DestroyConversionTexture s0" by simp
  let ?named = "\<lambda>f n. if n = 0 then [] else [f n]"
  obtain s2 where s2: "s2 = logCalls (?named GlGenTexture (na_texture a)
      @ ?named GlGenFramebuffer (na_readFramebuffer a) @ ?named GlGenFramebuffer (na_drawFramebuffer a))
    (s1\<lparr>encoderTexture := na_texture a, readFramebuffer := na_readFramebuffer a,
        drawFramebuffer := na_drawFramebuffer a\<rparr>)" by simp
  have d: "nvPartial s1" "encoderTexture s1 = 0" "readFramebuffer s1 = 0" "drawFramebuffer s1 = 0"
    "encoderOpen s1 = encoderOpen s" "nvencLibrary s1 = nvencLibrary s"
    "encoderResourcesActive s1 = encoderResourcesActive s"
    using DestroyConversionTexture_nv [OF s0(1)] s0 by (simp_all add: s1)
  then have p2: "nvPartial s2" "encoderOpen s2 = encoderOpen s" "nvencLibrary s2 = nvencLibrary s"
    "encoderResourcesActive s2 = encoderResourcesActive s" "encoderTexture s2 = na_texture a"
    "readFramebuffer s2 = na_readFramebuffer a" "drawFramebuffer s2 = na_drawFramebuffer a"
    by (auto simp: s2 nvPartial_def nvBalanced_def logCalls_def Let_def)
  obtain m where m: "m = ''OpenGL could not allocate the GPU-only NVENC conversion texture''" by simp
  have log: "nvView (LogEncoderError m s2) = nvView s2" by simp
  then have p3: "nvPartial (LogEncoderError m s2)" "encoderOpen (LogEncoderError m s2) = encoderOpen s"
    "nvencLibrary (LogEncoderError m s2) = nvencLibrary s"
    "encoderResourcesActive (LogEncoderError m s2) = encoderResourcesActive s"
    using nv_view(2) [OF log] p2 by (simp_all add: nvView_def)
  note failed = DestroyConversionTexture_nv [OF p3(1)]
  have wide: "nvPartial (s2\<lparr>encoderTextureWidth := w, encoderTextureHeight := h\<rparr>)"
    using p2(1) nv_view(2) [of "s2\<lparr>encoderTextureWidth := w, encoderTextureHeight := h\<rparr>" s2]
    by (simp add: nvView_def)
  have "(ok, s') = (if \<not> glew then (False, s0)
      else if encoderTexture s2 = 0 \<or> readFramebuffer s2 = 0 \<or> drawFramebuffer s2 = 0
        \<or> \<not> na_glNoError a then (False, DestroyConversionTexture (LogEncoderError m s2))
      else (True, s2\<lparr>encoderTextureWidth := w, encoderTextureHeight := h\<rparr>))"
    using assms(2) s0(5) unfolding assms(3) m s1 s2 by (simp add: EnsureConversionTexture_def g Let_def)
  then consider "\<not> glew" "\<not> ok" "s' = s0"
    | "\<not> ok" "s' = DestroyConversionTexture (LogEncoderError m s2)"
    | "ok" "s' = s2\<lparr>encoderTextureWidth := w, encoderTextureHeight := h\<rparr>"
      "encoderTexture s2 \<noteq> 0" "readFramebuffer s2 \<noteq> 0" "drawFramebuffer s2 \<noteq> 0"
    by (metis Pair_inject)
  then show ?thesis
  proof cases
    case 1
    with s0 show ?thesis by simp
  next
    case 2
    with failed p3 show ?thesis by simp
  next
    case 3
    with wide p2 show ?thesis by simp
  qed
qed

text \<open>What \<open>EnsureEncoder\<close> promises of its result.\<close>

definition ensured :: "bool \<times> 'z enc_scheme \<Rightarrow> bool" where
  "ensured r \<longleftrightarrow> nvComplete (snd r)
     \<and> (if fst r then encoderOpen (snd r) else \<not> encoderOpen (snd r) \<and> \<not> nvencLibrary (snd r))"

lemma ensured_if: "(b \<Longrightarrow> ensured x) \<Longrightarrow> (\<not> b \<Longrightarrow> ensured y) \<Longrightarrow> ensured (if b then x else y)"
  by simp

lemma ensured_fail: "nvPartial s \<Longrightarrow> ensured (failEncoder m s)"
proof -
  assume "nvPartial s"
  then have "nvPartial (LogEncoderError m s)" using nv_view(2) [of "LogEncoderError m s" s] by simp
  from DestroyEncoder_nv [OF this] show ?thesis
    by (simp add: ensured_def failEncoder_def nvComplete_def)
qed

lemma announceEncoder_nv:
  assumes "nvPrivate between"
  shows "nvView (announceEncoder between w h s) = nvView (s\<lparr>encoderResourcesActive := True\<rparr>)"
proof -
  let ?s1 = "s\<lparr>encoderWidth := w, encoderHeight := h, pendingEncodedFrames := []\<rparr>"
  obtain s2 where s2: "s2 = (if encoderEverInitialized ?s1 \<and> \<not> ROSHasPendingEpoch ?s1
    then BeginROSEpoch DISCONTINUITY_ENCODER_RESET (ClearRTPQueue ?s1) else ?s1)" by simp
  have v2: "nvView s2 = nvView ?s1" by (simp add: s2)
  obtain s3 where s3: "s3 = between (s2\<lparr>encoderEverInitialized := True\<rparr>)" by simp
  have "nvView s3 = nvView (s2\<lparr>encoderEverInitialized := True\<rparr>)"
    using assms by (simp add: s3 keeps_def)
  with v2 have "nvView s3 = nvView s" by (simp add: nvView_def)
  moreover have "announceEncoder between w h s = s3\<lparr>streamWidth := w, streamHeight := h,
      streamFrameRate := frameRate s3, streamKeyframeIntervalFrames := gopLength s3,
      rosStreamInfoPending := rosPublishingEnabled s3, forceKeyframe := True,
      encoderResourcesActive := True\<rparr>"
    unfolding s3 s2 by (simp only: announceEncoder_def Let_def)
  ultimately show ?thesis by (simp add: nvView_def)
qed

lemma EnsureEncoder_nv:
  assumes "nvComplete s" and "honestAnswers a" and "nvPrivate between"
  shows "ensured (EnsureEncoder a between w h s)"
proof (cases "encoderOpen s \<and> encoderWidth s = w \<and> encoderHeight s = h")
  case True
  with assms(1) show ?thesis by (simp add: EnsureEncoder_def ensured_def)
next
  case False
  let ?s0 = "DestroyEncoder s"
  have "nvPartial s" using assms(1) by (simp add: nvComplete_def)
  from DestroyEncoder_nv [OF this]
  have s0: "nvComplete ?s0" "\<not> encoderOpen ?s0" "encoderTexture ?s0 = 0" "nvPartial ?s0"
    "\<not> nvencLibrary ?s0" "\<not> encoderResourcesActive ?s0"
    by (auto simp: nvComplete_def)
  obtain ok s1 where e: "EnsureConversionTexture a w h ?s0 = (ok, s1)"
    by (cases "EnsureConversionTexture a w h ?s0")
  note c = EnsureConversionTexture_nv [OF s0(4,3) e [symmetric]]
  have bare: "ensured (False, u)"
    if "nvPartial u" "\<not> encoderOpen u" "\<not> nvencLibrary u" "\<not> encoderResourcesActive u" for u :: "'a enc_scheme"
    using that by (simp add: ensured_def nvComplete_def)
  have bare1: "ensured (False, s1)" using c s0 by (intro bare) auto
  have bare_log: "ensured (False, LogEncoderError m (s1\<lparr>nvencLibrary := False\<rparr>))" for m
  proof -
    let ?u = "s1\<lparr>nvencLibrary := False\<rparr>"
    have "nvView (LogEncoderError m ?u) = nvView ?u" by simp
    also have "nvView ?u = nvView s1" using c s0 by (simp add: nvView_def)
    finally have v: "nvView (LogEncoderError m ?u) = nvView s1" .
    from nv_view(2) [OF v] show ?thesis
      using v c s0 by (intro bare) (auto simp: nvView_def)
  qed
  have bare0: "ensured (False, ?s0)" using s0 by (intro bare) auto
  let ?s2 = "logCalls [NvDlopen] (s1\<lparr>nvencLibrary := True\<rparr>)"
  let ?s3 = "?s2\<lparr>nvencApi := (case na_create a of None \<Rightarrow> emptyTable | Some t \<Rightarrow> t)\<rparr>"
  let ?s4 = "if snd (na_session a) then logCalls [NvOpen] (?s3\<lparr>encoderOpen := True\<rparr>) else ?s3"
  let ?s5 = "logCalls [NvRegister] (?s4\<lparr>registeredInput := True\<rparr>)"
  let ?s6 = "logCalls [NvCreateBitstream] (?s5\<lparr>bitstream := True\<rparr>)"
  have s2: "nvPartial ?s2" "\<not> encoderOpen ?s2"
    using c s0 by (auto simp: nvPartial_def nvBalanced_def logCalls_def Let_def)
  have s3: "nvPartial ?s3" "\<not> encoderOpen ?s3" "\<not> registeredInput ?s3" "\<not> bitstream ?s3"
    using s2 by (auto simp: nvPartial_def nvBalanced_def logCalls_def Let_def)
  have s4: "nvPartial ?s4" if "na_create a \<noteq> None"
    using s3 that assms(2)
    by (auto simp: nvPartial_def nvBalanced_def logCalls_def honestAnswers_def Let_def)
  have s5: "nvPartial ?s5" if "na_create a \<noteq> None" "fst (na_session a)"
    using s3 that assms(2)
    by (auto simp: nvPartial_def nvBalanced_def logCalls_def honestAnswers_def Let_def)
  have s6: "nvPartial ?s6" if "na_create a \<noteq> None" "fst (na_session a)"
    using s3 that assms(2)
    by (auto simp: nvPartial_def nvBalanced_def logCalls_def honestAnswers_def Let_def)
  have complete: "ensured (True, announceEncoder between w h ?s6)"
    if "na_create a \<noteq> None" "fst (na_session a)" ok
  proof -
    have v: "nvView (announceEncoder between w h ?s6) = nvView (?s6\<lparr>encoderResourcesActive := True\<rparr>)"
      by (rule announceEncoder_nv) fact
    have "nvComplete (?s6\<lparr>encoderResourcesActive := True\<rparr>)"
      using s6 [OF that(1,2)] that assms(2) c
      by (simp add: nvComplete_def nvPartial_def nvBalanced_def logCalls_def honestAnswers_def Let_def)
    with v nv_view(3) [OF v] that assms(2) show ?thesis
      by (simp add: ensured_def nvView_def honestAnswers_def logCalls_def)
  qed
  obtain S2 where S2: "S2 = ?s2" by simp
  obtain S3 where S3: "S3 = ?s3" by simp
  obtain S4 where S4: "S4 = ?s4" by simp
  obtain S5 where S5: "S5 = ?s5" by simp
  obtain S6 where S6: "S6 = ?s6" by simp
  have eq: "EnsureEncoder a between w h s = (if w = 0 \<or> h = 0 then (False, ?s0)
    else if \<not> ok then (False, s1)
    else if \<not> na_dlopen a then (False, LogEncoderError
      ''libnvidia-encode.so.1 is unavailable; no CPU fallback is permitted'' (s1\<lparr>nvencLibrary := False\<rparr>))
    else if \<not> na_symbol a then failEncoder ''NvEncodeAPICreateInstance is unavailable'' S2
    else if na_create a = None \<or> \<not> nt_openSession (nvencApi S3) \<or> \<not> nt_initialize (nvencApi S3)
      \<or> \<not> nt_presetConfig (nvencApi S3) then failEncoder ''NVENC API initialization failed'' S3
    else if \<not> fst (na_session a)
    then failEncoder ''NVENC could not open an OpenGL encode session'' S4
    else if \<not> na_preset a then failEncoder ''NVENC low-latency H264 preset is unavailable'' S4
    else if \<not> na_initialize a (encoderConfiguration w h S4)
    then failEncoder ''NVENC could not initialize H264 encoding'' S4
    else if \<not> na_register a then failEncoder ''NVENC could not register the OpenGL texture'' S4
    else if \<not> na_bitstream a
    then failEncoder ''NVENC could not allocate an H264 bitstream buffer'' S5
    else (True, announceEncoder between w h S6))"
    unfolding S6 S5 S4 S3 S2 using False
    by (cases ok) (simp_all only: EnsureEncoder_def Let_def e prod.case bool.case if_False not_True_eq_False not_False_eq_True if_True if_cancel)
  have e2: "ensured (failEncoder m S2)" for m unfolding S2 by (intro ensured_fail s2)
  have e3: "ensured (failEncoder m S3)" for m unfolding S3 by (intro ensured_fail s3)
  have e4: "na_create a \<noteq> None \<Longrightarrow> ensured (failEncoder m S4)" for m
    unfolding S4 by (intro ensured_fail s4)
  have e5: "na_create a \<noteq> None \<Longrightarrow> fst (na_session a) \<Longrightarrow> ensured (failEncoder m S5)" for m
    unfolding S5 by (intro ensured_fail s5)
  note e6 = complete [folded S6]
  show ?thesis
    by (subst eq, (rule ensured_if | rule bare0 bare1 bare_log e2 e3 e4 e5 e6 | assumption | simp only: de_Morgan_disj not_not simp_thms)+)
qed

lemma nvComplete_Destroy: "nvComplete s \<Longrightarrow> nvComplete (DestroyEncoder s)"
  using DestroyEncoder_nv [of s] by (simp add: nvComplete_def)

lemma nvComplete_view: "nvView s' = nvView s \<Longrightarrow> nvComplete s \<Longrightarrow> nvComplete s'"
  using nv_view(3) by blast

lemma nvView_log: "nvView s' = nvView s \<Longrightarrow> nvView (logCalls cs s') = nvView (logCalls cs s)"
  by (simp add: nvView_def logCalls_def)

lemma logCalls_append: "logCalls cs (logCalls ds s) = logCalls (ds @ cs) s"
  by (simp add: logCalls_def)

text \<open>Every resource was released as often as it was acquired.\<close>

definition nvReleased :: "nvenc_call list \<Rightarrow> bool" where
  "nvReleased calls \<longleftrightarrow>
     (let n = count_list calls in
      n NvDlopen = n NvDlclose \<and> n NvOpen = n NvDestroy \<and> n NvRegister = n NvUnregister
      \<and> n NvCreateBitstream = n NvDestroyBitstream \<and> n NvMap = n NvUnmap \<and> n NvLock = n NvUnlock
      \<and> (\<forall>i. i \<noteq> 0 \<longrightarrow> n (GlGenTexture i) = n (GlDeleteTexture i)
           \<and> n (GlGenFramebuffer i) = n (GlDeleteFramebuffer i)))"

lemma nvComplete_released:
  assumes "nvComplete s" and "\<not> encoderOpen s" and "encoderTexture s = 0"
    and "readFramebuffer s = 0" and "drawFramebuffer s = 0"
  shows "nvReleased (nvencCalls s)"
proof -
  have gone: "nvencLibrary s = False" "registeredInput s = False" "bitstream s = False"
    "encoderOpen s = False" and b: "nvBalanced s"
    using assms(1,2) by (auto simp: nvComplete_def nvPartial_def)
  have "nvReleased (nvencCalls s) \<longleftrightarrow> nvBalanced s"
    unfolding nvBalanced_def nvReleased_def Let_def gone assms(3-5) of_bool_eq add_0_right
    by (intro arg_cong2 [where f = "(\<and>)"] refl all_cong) auto
  with b show ?thesis by blast
qed

text \<open>A bracket of calls that acquires and releases.\<close>

definition bracket :: "nvenc_call list \<Rightarrow> bool" where
  "bracket cs \<longleftrightarrow> cs = [NvMap, NvUnmap] \<or> cs = [NvMap, NvLock, NvUnlock, NvUnmap]"

lemma bracket_counts:
  assumes "bracket cs"
  shows "count_list cs NvMap = count_list cs NvUnmap" "count_list cs NvLock = count_list cs NvUnlock"
    "c \<notin> {NvMap, NvUnmap, NvLock, NvUnlock} \<Longrightarrow> count_list cs c = 0"
  using assms by (auto simp: bracket_def)

lemma nvComplete_calls:
  assumes "nvComplete s" and "bracket cs"
  shows "nvComplete (logCalls cs s)"
proof -
  obtain u where u: "u = logCalls cs s" by simp
  have same: "nvencLibrary u = nvencLibrary s" "encoderOpen u = encoderOpen s"
    "registeredInput u = registeredInput s" "bitstream u = bitstream s"
    "encoderTexture u = encoderTexture s" "readFramebuffer u = readFramebuffer s"
    "drawFramebuffer u = drawFramebuffer s" "nvencApi u = nvencApi s"
    "encoderResourcesActive u = encoderResourcesActive s"
    by (simp_all add: u logCalls_def)
  have other: "count_list (nvencCalls u) c = count_list (nvencCalls s) c"
    if "c \<notin> {NvMap, NvUnmap, NvLock, NvUnlock}" for c
    using bracket_counts(3) [OF assms(2) that] by (simp add: u logCalls_def)
  have others:
    "count_list (nvencCalls u) NvDlopen = count_list (nvencCalls s) NvDlopen"
    "count_list (nvencCalls u) NvDlclose = count_list (nvencCalls s) NvDlclose"
    "count_list (nvencCalls u) NvOpen = count_list (nvencCalls s) NvOpen"
    "count_list (nvencCalls u) NvDestroy = count_list (nvencCalls s) NvDestroy"
    "count_list (nvencCalls u) NvRegister = count_list (nvencCalls s) NvRegister"
    "count_list (nvencCalls u) NvUnregister = count_list (nvencCalls s) NvUnregister"
    "count_list (nvencCalls u) NvCreateBitstream = count_list (nvencCalls s) NvCreateBitstream"
    "count_list (nvencCalls u) NvDestroyBitstream = count_list (nvencCalls s) NvDestroyBitstream"
    "count_list (nvencCalls u) (GlGenTexture i) = count_list (nvencCalls s) (GlGenTexture i)"
    "count_list (nvencCalls u) (GlDeleteTexture i) = count_list (nvencCalls s) (GlDeleteTexture i)"
    "count_list (nvencCalls u) (GlGenFramebuffer i) = count_list (nvencCalls s) (GlGenFramebuffer i)"
    "count_list (nvencCalls u) (GlDeleteFramebuffer i) = count_list (nvencCalls s) (GlDeleteFramebuffer i)" for i
    by (rule other, simp)+
  have pairs: "(count_list (nvencCalls u) NvMap = count_list (nvencCalls u) NvUnmap)
      = (count_list (nvencCalls s) NvMap = count_list (nvencCalls s) NvUnmap)"
    "(count_list (nvencCalls u) NvLock = count_list (nvencCalls u) NvUnlock)
      = (count_list (nvencCalls s) NvLock = count_list (nvencCalls s) NvUnlock)"
    using bracket_counts(1,2) [OF assms(2)] by (simp_all add: u logCalls_def)
  have "nvBalanced u = nvBalanced s"
    unfolding nvBalanced_def Let_def same pairs others by (rule refl)
  then have "nvComplete u = nvComplete s"
    by (simp only: nvComplete_def nvPartial_def same)
  with assms(1) show ?thesis by (simp only: u)
qed

definition nvLog :: "nvenc_call list \<Rightarrow> 'a \<times> nat \<times> nat \<times> nat \<times> nvenc_call list \<times> bool
    \<Rightarrow> 'a \<times> nat \<times> nat \<times> nat \<times> nvenc_call list \<times> bool" where
  "nvLog cs v = (case v of (a, x, y, z, calls, b) \<Rightarrow> (a, x, y, z, calls @ cs, b))"

lemma nvLog_simps [simp]:
  "nvView (logCalls cs s) = nvLog cs (nvView s)"
  "nvLog cs (nvLog ds v) = nvLog (ds @ cs) v"
  "nvLog [] v = v"
  by (simp_all add: nvView_def nvLog_def logCalls_def split: prod.split)

lemma nvComplete_nvLog:
  assumes "nvComplete s" and "bracket cs" and "nvView s' = nvLog cs (nvView s)"
  shows "nvComplete s'"
  using nvComplete_view [of s' "logCalls cs s"] nvComplete_calls [OF assms(1,2)] assms(3) by simp

lemma collectOutput_view:
  assumes "nvPrivate (fa_enqueue fa)"
  shows "\<exists>cs. (cs = [] \<or> cs = [NvLock, NvUnlock])
    \<and> nvView (snd (snd (collectOutput fa s))) = nvLog cs (nvView s)"
proof -
  have lock: "nvView (snd (TakePendingEncodedFrame t u)) = nvView u" for t and u :: "'a enc_scheme"
    by (simp add: TakePendingEncodedFrame_def split: option.split prod.split)
  obtain m1 m2 m3 where m: "m1 = ''NVENC could not lock the H264 bitstream''"
    "m2 = ''NVENC output timestamp has no source-frame timing metadata''"
    "m3 = ''NVENC retained too many delayed frames; rebuilding the encoder''" by simp
  show ?thesis
  proof (cases "fa_encode fa = EncSuccess")
    case False
    then show ?thesis unfolding collectOutput_def m [symmetric] by (auto intro!: exI [of _ "[]"])
  next
    case True
    show ?thesis
    proof (cases "fa_lock fa")
      case None
      with True show ?thesis
        unfolding collectOutput_def m [symmetric] by (auto intro!: exI [of _ "[]"])
    next
      case (Some p)
      obtain data ts where p: "p = (data, ts)" by (cases p)
      obtain r s1 where take: "TakePendingEncodedFrame ts (logCalls [NvLock] s) = (r, s1)"
        by (cases "TakePendingEncodedFrame ts (logCalls [NvLock] s)")
      have s1: "nvView s1 = nvLog [NvLock] (nvView s)"
        using lock [of ts "logCalls [NvLock] s"] by (simp add: take)
      show ?thesis
      proof (cases r)
        case None
        with True Some p take s1 show ?thesis
          unfolding collectOutput_def m [symmetric]
          by (auto intro!: exI [of _ "[NvLock, NvUnlock]"])
      next
        case (Some md)
        obtain sent s2 where send:
          "SendH264AccessUnit (fa_enqueue fa) data (ucast ts) md s1 = (sent, s2)"
          by (cases "SendH264AccessUnit (fa_enqueue fa) data (ucast ts) md s1")
        have "nvView s2 = nvView s1"
          using nv.SendH264AccessUnit [OF assms, of data "ucast ts" md s1] by (simp add: send)
        with True \<open>fa_lock fa = Some p\<close> p take s1 send Some show ?thesis
          unfolding collectOutput_def
          by (auto intro!: exI [of _ "[NvLock, NvUnlock]"])
      qed
    qed
  qed
qed

definition nvQuiet :: "('z enc_scheme) frame_answers \<Rightarrow> bool" where
  "nvQuiet fa \<longleftrightarrow> honestAnswers (fa_encoder fa) \<and> nvPrivate (fa_between fa) \<and> nvPrivate (fa_enqueue fa)"

lemma submitFrame_nv:
  assumes "nvComplete s" and "nvQuiet fa"
  shows "nvComplete (snd (submitFrame fa t s))"
proof -
  obtain m1 m2 where m: "m1 = ''NVENC could not map the OpenGL input texture''"
    "m2 = ''NVENC could not encode the OpenGL frame''" by simp
  let ?s1 = "logCalls [NvMap] (s\<lparr>forceKeyframe := False\<rparr>)"
  obtain s2 where s2: "s2 = ?s1\<lparr>sourceFrameSequence := sourceFrameSequence ?s1 + 1,
      pendingEncodedFrames := pendingEncodedFrames ?s1 @ [newPendingFrame (forceKeyframe s) t ?s1]\<rparr>"
    by simp
  have v2: "nvView s2 = nvLog [NvMap] (nvView s)" by (simp add: s2)
  obtain sent recreate s3 where c: "collectOutput fa s2 = (sent, recreate, s3)"
    by (cases "collectOutput fa s2")
  obtain cs where cs: "cs = [] \<or> cs = [NvLock, NvUnlock]" and v3: "nvView s3 = nvLog cs (nvView s2)"
    using collectOutput_view [of fa s2] assms(2) by (auto simp: c nvQuiet_def)
  have b: "bracket ((NvMap # cs) @ [NvUnmap])" "bracket [NvMap, NvUnmap]"
    using cs by (auto simp: bracket_def)
  have finished: "nvComplete (logCalls [NvUnmap] s3)"
    by (rule nvComplete_nvLog [OF assms(1) b(1)]) (simp add: v3 v2)
  have failed: "nvComplete (resetStream m2 (logCalls [NvUnmap] s2))"
    by (rule nvComplete_nvLog [OF assms(1) b(2)]) (simp add: v2)
  have log: "nvComplete (LogEncoderError m1 s)" by (rule nvComplete_view [OF _ assms(1)]) simp
  have last: "nvComplete ((logCalls [NvUnmap] s3)\<lparr>encodedFrameIndex := n\<rparr>)" for n
    by (rule nvComplete_view [OF _ finished]) simp
  have "submitFrame fa t s = (if \<not> fa_map fa then (False, LogEncoderError m1 s)
      else if fa_encode fa = EncError
      then (False, DestroyEncoder (resetStream m2 (logCalls [NvUnmap] s2)))
      else if recreate then (False, DestroyEncoder (logCalls [NvUnmap] s3))
      else (sent, (logCalls [NvUnmap] s3)
        \<lparr>encodedFrameIndex := encodedFrameIndex (logCalls [NvUnmap] s3) + 1\<rparr>))"
    unfolding m s2 submitFrame_def Let_def c [unfolded s2] prod.case by (rule refl)
  then show ?thesis using nvComplete_Destroy [OF finished] nvComplete_Destroy [OF failed] log last
    by simp
qed

lemma ObserveSourceTime_nv:
  assumes "nvComplete s"
  shows "nvComplete (ObserveSourceTime t s)"
proof -
  obtain m where m: "m = ''simulation time moved backwards; starting a new stream epoch''" by simp
  have "nvComplete (LogEncoderError m ((BeginROSEpoch DISCONTINUITY_SOURCE_TIME_RESET (ClearRTPQueue s))
      \<lparr>forceKeyframe := True\<rparr>))"
    by (rule nvComplete_view [OF _ assms]) simp
  note d = nvComplete_Destroy [OF this]
  have w: "nvComplete (u\<lparr>lastSourceTimeNanoseconds := x\<rparr>)" if "nvComplete u" for u :: "'a enc_scheme" and x
    by (rule nvComplete_view [OF _ that]) simp
  show ?thesis
    unfolding ObserveSourceTime_def Let_def m [symmetric]
    using assms d by (intro w) (simp split: option.split)
qed

lemma CopyTexture_view: "nvView (snd (CopyTextureToEncoderInput a s)) = nvView s"
  unfolding CopyTextureToEncoderInput_def Let_def by (cases a) simp_all

lemma EncodeRenderedFrame_nv:
  assumes "nvComplete s" and "nvQuiet fa"
  shows "nvComplete (snd (EncodeRenderedFrame cam fa s))"
proof -
  obtain m where m: "m = ''Gazebo camera render texture is not a GL_TEXTURE_2D texture''" by simp
  have log: "nvComplete (LogEncoderError m s)" by (rule nvComplete_view [OF _ assms(1)]) simp
  obtain s1 where s1: "s1 = ObserveSourceTime (SourceTimeNanoseconds s) s" by simp
  obtain e s2 where e: "EnsureEncoder (fa_encoder fa) (fa_between fa) (cam_width cam) (cam_height cam) s1
      = (e, s2)" by (cases "EnsureEncoder (fa_encoder fa) (fa_between fa) (cam_width cam) (cam_height cam) s1")
  have "nvComplete s1" unfolding s1 by (rule ObserveSourceTime_nv) fact
  from EnsureEncoder_nv [OF this] assms(2) have c2: "nvComplete s2"
    by (metis e ensured_def nvQuiet_def snd_conv)
  obtain k s3 where k: "CopyTextureToEncoderInput (fa_copy fa) s2 = (k, s3)"
    by (cases "CopyTextureToEncoderInput (fa_copy fa) s2")
  have c3: "nvComplete s3"
    by (rule nvComplete_view [OF _ c2]) (metis k CopyTexture_view snd_conv)
  have "EncodeRenderedFrame cam fa s =
     (if \<not> cameraFound s \<or> \<not> cam_renderTexture cam then (False, s)
      else if \<not> fa_texture2D fa then (False, LogEncoderError m s)
      else if \<not> e then (False, s2) else if \<not> k then (False, s3)
      else submitFrame fa (SourceTimeNanoseconds s) s3)"
    unfolding m EncodeRenderedFrame_def Let_def s1 [symmetric] e prod.case k
    by (cases e; cases k) simp_all
  then show ?thesis using assms(1) log c2 c3 submitFrame_nv [OF c3 assms(2)] by simp
qed

text \<open>A capture leaves alone whatever depends on none of the fields of the snapshot.\<close>

locale capture_view = queue_view +
  assumes snapshot_fields [simp]:
    "view (snapshot_update h1 s) = view s"
    "view (snapshotRenderPassesToSkip_update h2 s) = view s"
    "view (snapshotReadbackPending_update h3 s) = view s"
    "view (snapshotPBOAvailable_update h4 s) = view s"
    "view (snapshotPBOFailureReason_update h5 s) = view s"
    "view (snapshotReadbackBuffer_update h6 s) = view s"
    "view (snapshotReadFramebuffer_update h7 s) = view s"
    "view (snapshotReadbackFence_update h8 s) = view s"
    "view (snapshotReadbackBufferBytes_update h9 s) = view s"
    "view (snapshotReadbackResult_update h10 s) = view s"
    "view (snapshotEncodeJob_update h11 s) = view s"
    "view (glewInitialized_update h12 s) = view s"
    "view (glFences_update h13 s) = view s"
    "view (glState_update h14 s) = view s"
begin

lemma capture_steps [simp]:
  "view (CompleteSnapshotFailure m s) = view s"
  "view (snd (abandonPBO m s)) = view s"
  "view (RearmSnapshotAfterPBOFailure x m s) = view s"
  "view (bindPackBuffer b s) = view s"
  "view (restoreGL g s) = view s"
  "view (commitReadback x s) = view s"
  "view (snd (commitSynchronous x s)) = view s"
  "view (snd (QueueSnapshotEncode x s)) = view s"
  "view (snd (pickSnapshot s)) = view s"
  by (simp_all add: CompleteSnapshotFailure_def abandonPBO_def RearmSnapshotAfterPBOFailure_def
      bindPackBuffer_def restoreGL_def commitReadback_def commitSynchronous_def
      QueueSnapshotEncode_def pickSnapshot_def Let_def)

lemma capture_more [simp]:
  "view (snd (submitSnapshot x s)) = view s"
  "view (snd (EnsureGLEWDispatch gl s)) = view s"
proof -
  obtain m where m: "m = ''snapshot JPEG worker queue is unavailable''" by simp
  show "view (snd (submitSnapshot x s)) = view s"
    unfolding submitSnapshot_def m [symmetric]
    using capture_steps(8) [of x s]
    by (cases "QueueSnapshotEncode x s") (simp split: bool.split)
  obtain m where m: "m = ''GLEW could not initialize in the Gazebo render context''" by simp
  show "view (snd (EnsureGLEWDispatch gl s)) = view s"
    unfolding EnsureGLEWDispatch_def m [symmetric] by simp
qed

lemma EnsureSnapshotPBO_view [simp]: "view (snd (EnsureSnapshotPBO gl b s)) = view s"
proof -
  obtain m1 m2 m3 where m: "m1 = ''asynchronous OpenGL PBO readback is unavailable''"
    "m2 = ''OpenGL could not allocate snapshot PBO resources''"
    "m3 = ''OpenGL could not size the snapshot PBO''" by simp
  obtain glew s0 where e: "EnsureGLEWDispatch gl s = (glew, s0)" by (cases "EnsureGLEWDispatch gl s")
  then have s0: "view s0 = view s" using capture_more(2) [of gl s] by simp
  show ?thesis
    unfolding EnsureSnapshotPBO_def m [symmetric] e Let_def by (simp add: s0)
qed

lemma IssueSnapshotPBOReadback_view:
  assumes "keeps view env"
  shows "view (snd (IssueSnapshotPBOReadback gl env x b s)) = view s"
proof -
  obtain m1 m2 m3 where m: "m1 = ''Gazebo camera texture is not an OpenGL texture''"
    "m2 = ''OpenGL could not bind the Gazebo texture for snapshot readback''"
    "m3 = ''OpenGL could not issue asynchronous snapshot readback''" by simp
  obtain ready s1 where e: "EnsureSnapshotPBO gl b s = (ready, s1)"
    by (cases "EnsureSnapshotPBO gl b s")
  then have s1: "view s1 = view s" using EnsureSnapshotPBO_view [of gl b s] by simp
  have env: "view (env u) = view u" for u using assms by (simp add: keeps_def)
  show ?thesis
    unfolding IssueSnapshotPBOReadback_def m [symmetric] e Let_def
    by (simp add: s1 env split: bool.split)
qed

lemma CaptureSnapshotSynchronously_view:
  assumes "\<forall>i. keeps view (env i)"
  shows "view (snd (CaptureSnapshotSynchronously blit ms env x s)) = view s"
proof (cases blit)
  case (Inl m)
  then show ?thesis by (simp add: CaptureSnapshotSynchronously_def)
next
  case (Inr pixels)
  obtain r where r: "r = x\<lparr>sn_jpegReadback := ''synchronous-cpu'', sn_rgb := pixels,
    sn_jpegReadbackMilliseconds := ms\<rparr>" by simp
  have env: "view (env i u) = view u" for i u using assms by (simp add: keeps_def)
  obtain k u where c: "commitSynchronous r (env 0 s) = (k, u)"
    by (cases "commitSynchronous r (env 0 s)")
  then have "view u = view s" using capture_steps(7) [of r "env 0 s"] env by simp
  then show ?thesis
    unfolding CaptureSnapshotSynchronously_def Inr Let_def sum.case r [symmetric]
    by (simp add: c env split: bool.split)
qed

lemma PollSnapshotPBOReadback_view:
  assumes "keeps view env"
  shows "view (snd (PollSnapshotPBOReadback mp env s)) = view s"
proof -
  obtain m1 m2 m3 where m: "m1 = ''OpenGL snapshot PBO fence wait failed''"
    "m2 = ''OpenGL could not map the completed snapshot PBO''"
    "m3 = ''OpenGL could not complete the snapshot PBO mapping''" by simp
  have env: "view (env u) = view u" for u using assms by (simp add: keeps_def)
  show ?thesis
    unfolding PollSnapshotPBOReadback_def m [symmetric] Let_def
    by (simp add: env split: option.split)
qed

lemma CaptureSnapshot_view:
  assumes "\<forall>i. keeps view (env i)"
  shows "view (snd (CaptureSnapshot cam gl mp blit ms env s)) = view s"
proof -
  obtain m1 m2 where m: "m1 = ''camera render texture is unavailable''"
    "m2 = ''camera dimensions are invalid''" by simp
  obtain x s1 where pick: "pickSnapshot s = (x, s1)" by (cases "pickSnapshot s")
  then have s1: "view s1 = view s" using capture_steps(9) [of s] by simp
  have issue: "view s2 = view s1"
    if "IssueSnapshotPBOReadback gl (env 0) y b s1 = (ok, s2)" for ok s2 y b
    using IssueSnapshotPBOReadback_view [of "env 0" gl y b s1] that assms by simp
  have poll: "view (snd (PollSnapshotPBOReadback mp (env 1) s)) = view s"
    using PollSnapshotPBOReadback_view [of "env 1"] assms by simp
  show ?thesis
    unfolding CaptureSnapshot_def m [symmetric] Let_def pick
    using issue poll s1 CaptureSnapshotSynchronously_view [OF assms]
    by (cases x) (auto split: prod.splits if_splits)
qed

end

interpretation nvc: capture_view nvView
  by unfold_locales (simp_all add: nvView_def)

lemma DestroyEncoder_gone:
  "readFramebuffer (DestroyEncoder s) = 0 \<and> drawFramebuffer (DestroyEncoder s) = 0"
  by (simp add: DestroyEncoder_def DestroyConversionTexture_def logCalls_def Let_def)

section \<open>The render callbacks keep the session complete or absent\<close>

lemma nvComplete_same: "nvView s' = nvView s \<Longrightarrow> nvComplete s' = nvComplete s"
  by (rule nv_view(3))

lemma ApplyNativeControl_view: "nvView (ApplyNativeControl c p s) = nvView s"
  by (simp add: ApplyNativeControl_def Let_def split: option.split)

lemma CompleteNativeStop_view: "nvView (CompleteNativeStopIfDrained s) = nvView s"
  by (simp add: CompleteNativeStopIfDrained_def Let_def split: option.split)

lemma FailNativeEncoderTransition_nv:
  assumes "nvComplete s"
  shows "nvComplete (FailNativeEncoderTransition s)"
proof -
  let ?s1 = "s\<lparr>nativeCaptureKeyframePending := 0\<rparr>"
  obtain s2 where s2: "s2 = (if nativeCaptureKeyframePending s \<noteq> 0
    then ?s1\<lparr>nativeCaptureKeyframeFailed := nativeCaptureKeyframePending s\<rparr> else ?s1)" by simp
  have v2: "nvView s2 = nvView s" by (simp add: s2)
  show ?thesis
  proof (cases "awaitingNativeControl s2")
    case None
    then show ?thesis
      using nvComplete_view [OF v2 assms] by (simp add: FailNativeEncoderTransition_def s2 Let_def)
  next
    case (Some command)
    obtain s3 where s3: "s3 = ClearRTPQueue (s2\<lparr>nativeFailedRevision := nc_revision command,
        awaitingNativeControl := None, desiredActive := False, nativeAppliedActive := False,
        nativeLifecycleState := 4\<rparr>)" by simp
    have "nvView s3 = nvView s" by (simp add: s3 v2)
    from nvComplete_Destroy [OF nvComplete_view [OF this assms]]
    have d: "nvComplete (DestroyEncoder s3)" .
    have "nvView (WakeControl (DestroyEncoder s3)) = nvView (DestroyEncoder s3)" by simp
    from nvComplete_view [OF this d] have w: "nvComplete (WakeControl (DestroyEncoder s3))" .
    have "FailNativeEncoderTransition s =
        (if nc_kind command = 1 \<or> nc_kind command = 3 then WakeControl (DestroyEncoder s3) else s2)"
      unfolding s3 FailNativeEncoderTransition_def Let_def s2 [symmetric]
      by (simp only: Some option.case)
    then show ?thesis using w nvComplete_view [OF v2 assms] by simp
  qed
qed

lemma ROSRenderIsFresh_nv:
  assumes "nvComplete s"
  shows "nvComplete (snd (ROSRenderIsFreshForCurrentActivation s))"
proof -
  obtain d g where o: "Observe (rosFreshRenderGeneration s) (SourceTimeNanoseconds s)
      (rosFreshRenderGate s) = (d, g)"
    by (cases "Observe (rosFreshRenderGeneration s) (SourceTimeNanoseconds s) (rosFreshRenderGate s)")
  obtain s1 where s1: "s1 = s\<lparr>rosFreshRenderGate := g\<rparr>" by simp
  have v1: "nvView s1 = nvView s" by (simp add: s1)
  have "nvView (ClearRTPQueue s1) = nvView s" by (simp add: v1)
  from nvComplete_Destroy [OF nvComplete_view [OF this assms]]
  have d: "nvComplete (DestroyEncoder (ClearRTPQueue s1))" .
  have "nvComplete ((DestroyEncoder (ClearRTPQueue s1))\<lparr>forceKeyframe := True\<rparr>)"
    by (rule nvComplete_view [OF _ d]) simp
  with nvComplete_view [OF v1 assms] show ?thesis
    unfolding ROSRenderIsFreshForCurrentActivation_def o prod.case Let_def s1 [symmetric] by simp
qed

lemma OnPostRender_view: "nvView (OnPostRender c p x y s) = nvView s"
proof -
  have a: "nvView (snd (AttachRenderTargetListener y u)) = nvView u" for u :: "'a enc_scheme"
    by (simp add: AttachRenderTargetListener_def)
  obtain s1 where s1: "s1 = CompleteNativeStopIfDrained (ApplyNativeControl c p s)" by simp
  have v1: "nvView s1 = nvView s" by (simp add: s1 CompleteNativeStop_view ApplyNativeControl_view)
  obtain s2 where s2: "s2 = s1\<lparr>nativeSensorActive := sensorActive s1\<rparr>" by simp
  obtain s3 where s3: "s3 = (if cameraFound s2 then s2 else s2\<lparr>cameraFound := x\<rparr>)" by simp
  have v3: "nvView s3 = nvView s" by (simp add: s3 s2 v1)
  obtain k s4 where k: "AttachRenderTargetListener y s3 = (k, s4)"
    by (cases "AttachRenderTargetListener y s3")
  then have v4: "nvView s4 = nvView s" using a [of s3] v3 by simp
  show ?thesis
    unfolding OnPostRender_def Let_def s1 [symmetric] s2 [symmetric] s3 [symmetric] k prod.case
    by (simp add: v3 v4 split: bool.split)
qed

lemma postRenderTargetUpdate_nv:
  assumes "nvComplete s" and "nvQuiet fa" and "\<And>u. nvView (capture u) = nvView u"
  shows "nvComplete (postRenderTargetUpdate cam capture fa s)"
proof -
  let ?s1 = "s\<lparr>renderFrameSequence := renderFrameSequence s + 1\<rparr>"
  obtain s2 where s2: "s2 = ?s1\<lparr>cleanupEncoderRequested := False\<rparr>" by simp
  have c2: "nvComplete s2" by (rule nvComplete_view [OF _ assms(1)]) (simp add: s2)
  note d2 = nvComplete_Destroy [OF c2]
  obtain s3 where s3: "s3 = (if SnapshotNeedsRender s2 then capture s2 else s2)" by simp
  have c3: "nvComplete s3" by (rule nvComplete_view [OF _ c2]) (simp add: s3 assms(3))
  obtain f s4 where f: "ROSRenderIsFreshForCurrentActivation s3 = (f, s4)"
    by (cases "ROSRenderIsFreshForCurrentActivation s3")
  have c4: "nvComplete s4" using ROSRenderIsFresh_nv [OF c3] by (simp add: f)
  obtain e s5 where e: "EncodeRenderedFrame cam fa s4 = (e, s5)"
    by (cases "EncodeRenderedFrame cam fa s4")
  have c5: "nvComplete s5" using EncodeRenderedFrame_nv [OF c4 assms(2), of cam] by (simp add: e)
  have fin: "nvComplete (CompleteNativeControl c s5\<lparr>awaitingNativeControl := None\<rparr>)" for c
    by (rule nvComplete_view [OF _ c5]) simp
  show ?thesis
    unfolding postRenderTargetUpdate_def Let_def s2 [symmetric] s3 [symmetric] f e prod.case
    using assms(1) c2 d2 c3 c4 c5 fin FailNativeEncoderTransition_nv [OF c5]
    by (simp split: bool.split option.split)
qed

text \<open>
  The steps of the render thread, with the other threads in between; these leave the session alone.
\<close>

inductive render_step :: "'z enc_scheme \<Rightarrow> 'z enc_scheme \<Rightarrow> bool" where
  post_render: "render_step s (OnPostRender c p x y s)"
| target_update: "nvQuiet fa \<Longrightarrow> \<forall>i. nvPrivate (env i) \<Longrightarrow>
    render_step s (postRenderTargetUpdate cam
      (\<lambda>u. snd (CaptureSnapshot cam gl mp blit ms env u)) fa s)"
| other_thread: "nvView s' = nvView s \<Longrightarrow> render_step s s'"

lemma render_step_nv: "render_step s s' \<Longrightarrow> nvComplete s \<Longrightarrow> nvComplete s'"
proof (induction rule: render_step.induct)
  case (post_render s c p x y)
  then show ?case using nvComplete_view OnPostRender_view by blast
next
  case (target_update fa env s cam gl mp blit ms)
  then show ?case by (intro postRenderTargetUpdate_nv nvc.CaptureSnapshot_view) auto
next
  case (other_thread s' s)
  then show ?case by (rule nvComplete_view)
qed

lemma render_steps_nv:
  assumes "render_step\<^sup>*\<^sup>* s s'" and "nvComplete s"
  shows "nvComplete s'"
  using assms by (induction) (auto dest: render_step_nv)

text \<open>
  C6: Whatever the render callbacks and the other threads do, and whichever NVENC, OpenGL or linker
  call fails, the encoder session is complete (session, registered texture, bitstream buffer and
  conversion texture all present) or NVENC is entirely absent. Destroying it at any such moment leaves
  each resource acquired so far, the texture included, released exactly as often as acquired.
\<close>

theorem encoder_session_never_leaks:
  assumes "render_step\<^sup>*\<^sup>* s0 s" and "nvComplete s0"
  shows "(encoderOpen s \<longrightarrow> nvencLibrary s \<and> registeredInput s \<and> bitstream s \<and> encoderTexture s \<noteq> 0)
    \<and> (\<not> encoderOpen s \<longrightarrow> \<not> nvencLibrary s \<and> \<not> registeredInput s \<and> \<not> bitstream s
         \<and> \<not> encoderResourcesActive s)
    \<and> nvReleased (nvencCalls (DestroyEncoder s))"
proof -
  have c: "nvComplete s" using render_steps_nv [OF assms] .
  then have p: "nvPartial s" by (simp add: nvComplete_def)
  have "nvReleased (nvencCalls (DestroyEncoder s))"
    using DestroyEncoder_nv [OF p] DestroyEncoder_gone [of s] by (intro nvComplete_released) auto
  moreover have "encoderOpen s \<longrightarrow> nvencLibrary s" "registeredInput s \<or> bitstream s \<longrightarrow> encoderOpen s"
    using p unfolding nvPartial_def by blast+
  moreover have "encoderOpen s \<Longrightarrow> registeredInput s \<and> bitstream s \<and> encoderTexture s \<noteq> 0"
    "\<not> encoderOpen s \<Longrightarrow> \<not> nvencLibrary s \<and> \<not> encoderResourcesActive s"
    using c by (simp_all only: nvComplete_def if_True if_False simp_thms)
  ultimately show ?thesis by blast
qed

section \<open>The clock and pairing state over the session\<close>

text \<open>The clock and pairing state of the render thread.\<close>

definition timeView :: "'z enc_scheme \<Rightarrow> u64 \<times> real \<times> pending_encoded_frame list \<times> int option" where
  "timeView s = (encodedFrameIndex s, sensorUpdateRate s, pendingEncodedFrames s,
     lastSourceTimeNanoseconds s)"

lemma timeView_fields:
  assumes "timeView s' = timeView s"
  shows "encodedFrameIndex s' = encodedFrameIndex s" "sensorUpdateRate s' = sensorUpdateRate s"
    "pendingEncodedFrames s' = pendingEncodedFrames s"
    "lastSourceTimeNanoseconds s' = lastSourceTimeNanoseconds s"
    "frameRate s' = frameRate s" "inputTimestamp s' = inputTimestamp s"
  using assms by (simp_all add: timeView_def frameRate_def inputTimestamp_def)

interpretation tv: fan_out_view timeView
  by unfold_locales (simp_all add: timeView_def LogEncoderError_def WakeControl_def Let_def)

text \<open>What destroying the encoder does to it.\<close>

definition cleared :: "u64 \<times> real \<times> pending_encoded_frame list \<times> int option
    \<Rightarrow> u64 \<times> real \<times> pending_encoded_frame list \<times> int option" where
  "cleared v = (case v of (i, r, ps, t) \<Rightarrow> (i, r, [], None))"

lemma cleared_idem [simp]: "cleared (cleared v) = cleared v"
  by (simp add: cleared_def split: prod.split)

lemma logCalls_time [simp]: "timeView (logCalls cs s) = timeView s"
  by (simp add: timeView_def logCalls_def)

lemma timeView_session [simp]:
  "timeView (nvencLibrary_update g1 s) = timeView s"
  "timeView (nvencApi_update g2 s) = timeView s"
  "timeView (encoderOpen_update g3 s) = timeView s"
  "timeView (registeredInput_update g4 s) = timeView s"
  "timeView (bitstream_update g5 s) = timeView s"
  "timeView (encoderTexture_update g6 s) = timeView s"
  "timeView (readFramebuffer_update g7 s) = timeView s"
  "timeView (drawFramebuffer_update g8 s) = timeView s"
  "timeView (encoderTextureWidth_update g9 s) = timeView s"
  "timeView (encoderTextureHeight_update g10 s) = timeView s"
  "timeView (encoderWidth_update g11 s) = timeView s"
  "timeView (encoderHeight_update g12 s) = timeView s"
  "timeView (encoderEverInitialized_update g13 s) = timeView s"
  "timeView (encoderResourcesActive_update g14 s) = timeView s"
  "timeView (glewInitialized_update g15 s) = timeView s"
  "timeView (glState_update g16 s) = timeView s"
  "timeView (streamWidth_update g17 s) = timeView s"
  "timeView (streamHeight_update g18 s) = timeView s"
  "timeView (streamFrameRate_update g19 s) = timeView s"
  "timeView (streamKeyframeIntervalFrames_update g20 s) = timeView s"
  "timeView (sourceFrameSequence_update g21 s) = timeView s"
  by (simp_all add: timeView_def)

lemma DestroyConversionTexture_time [simp]: "timeView (DestroyConversionTexture s) = timeView s"
  by (simp add: DestroyConversionTexture_def Let_def)

lemma DestroyEncoder_time [simp]: "timeView (DestroyEncoder s) = cleared (timeView s)"
proof -
  obtain s3 where s3: "s3 = (let s1 = (if encoderOpen s then
        logCalls
          ((if registeredInput s \<and> nt_unregister (nvencApi s) then [NvUnregister] else [])
           @ (if bitstream s \<and> nt_destroyBitstream (nvencApi s) then [NvDestroyBitstream] else [])
           @ (if nt_destroyEncoder (nvencApi s) then [NvDestroy] else []))
          (s\<lparr>registeredInput := False, bitstream := False, encoderOpen := False\<rparr>)
      else s); s2 = s1\<lparr>nvencApi := emptyTable\<rparr>
    in if nvencLibrary s2 then logCalls [NvDlclose] (s2\<lparr>nvencLibrary := False\<rparr>) else s2)" by simp
  have "timeView s3 = timeView s" unfolding s3 Let_def by simp
  then have "timeView (s3\<lparr>encoderWidth := 0, encoderHeight := 0, pendingEncodedFrames := [],
      lastSourceTimeNanoseconds := None, encoderResourcesActive := False\<rparr>) = cleared (timeView s)"
    by (simp add: timeView_def cleared_def)
  then show ?thesis unfolding DestroyEncoder_def Let_def s3 by simp
qed

lemma EnsureGLEWDispatch_time [simp]: "timeView (snd (EnsureGLEWDispatch gl s)) = timeView s"
proof -
  obtain m where m: "m = ''GLEW could not initialize in the Gazebo render context''" by simp
  show ?thesis unfolding EnsureGLEWDispatch_def m [symmetric] by simp
qed

lemma EnsureConversionTexture_time [simp]:
  "timeView (snd (EnsureConversionTexture a w h s)) = timeView s"
proof -
  obtain glew s0 where g: "EnsureGLEWDispatch (na_gl a) s = (glew, s0)"
    by (cases "EnsureGLEWDispatch (na_gl a) s")
  then have s0: "timeView s0 = timeView s" using EnsureGLEWDispatch_time [of "na_gl a" s] by simp
  obtain m where m: "m = ''OpenGL could not allocate the GPU-only NVENC conversion texture''" by simp
  show ?thesis
    unfolding EnsureConversionTexture_def m [symmetric] g prod.case
    by (cases glew) (simp_all add: s0 Let_def)
qed

end
