(* ===== verification/Encoder_Time.thy ===== *)
theory Encoder_Time
  imports Encoder_Lifetime
begin

text \<open>
  Time in \<open>Encoder_Session\<close>: the metadata of the frames in the encoder stays unambiguous, a clock that
  steps back starts the stream over (except right after the encoder was created), and a key frame
  command is completed by its own IDR only.
\<close>

section \<open>The clock and pairing state over the session's operations\<close>

lemma failEncoder_time [simp]: "timeView (snd (failEncoder m s)) = cleared (timeView s)"
  by (simp add: failEncoder_def)

lemma announceEncoder_time:
  assumes "keeps timeView between" and "timeView s = cleared v"
  shows "timeView (announceEncoder between w h s) = cleared v"
proof -
  obtain s1 where s1: "s1 = s\<lparr>encoderWidth := w, encoderHeight := h, pendingEncodedFrames := []\<rparr>" by simp
  have v1: "timeView s1 = cleared v"
    using assms(2) by (simp add: s1 timeView_def cleared_def split: prod.splits)
  obtain s2 where s2: "s2 = (if encoderEverInitialized s1 \<and> \<not> ROSHasPendingEpoch s1
    then BeginROSEpoch DISCONTINUITY_ENCODER_RESET (ClearRTPQueue s1) else s1)" by simp
  obtain s3 where s3: "s3 = between (s2\<lparr>encoderEverInitialized := True\<rparr>)" by simp
  have "timeView s3 = cleared v" using assms(1) by (simp add: s3 s2 v1 keeps_def)
  then show ?thesis
    unfolding announceEncoder_def Let_def s1 [symmetric] s2 [symmetric] s3 [symmetric] by simp
qed

lemma EnsureEncoder_time:
  assumes "keeps timeView between"
  shows "timeView (snd (EnsureEncoder a between w h s)) =
    (if encoderOpen s \<and> encoderWidth s = w \<and> encoderHeight s = h then timeView s
     else cleared (timeView s))"
proof (cases "encoderOpen s \<and> encoderWidth s = w \<and> encoderHeight s = h")
  case True
  then show ?thesis by (simp add: EnsureEncoder_def)
next
  case False
  obtain v where v: "v = timeView s" by simp
  obtain s0 where s0: "s0 = DestroyEncoder s" by simp
  obtain ok s1 where e: "EnsureConversionTexture a w h s0 = (ok, s1)"
    by (cases "EnsureConversionTexture a w h s0")
  have v1: "timeView s1 = cleared v" "timeView s0 = cleared v"
    using EnsureConversionTexture_time [of a w h s0, unfolded e] by (simp_all add: s0 v)
  obtain s2 where s2: "s2 = logCalls [NvDlopen] (s1\<lparr>nvencLibrary := True\<rparr>)" by simp
  obtain s3 where s3: "s3 = s2\<lparr>nvencApi := (case na_create a of None \<Rightarrow> emptyTable | Some t \<Rightarrow> t)\<rparr>" by simp
  obtain s4 where s4: "s4 = (if snd (na_session a) then logCalls [NvOpen] (s3\<lparr>encoderOpen := True\<rparr>) else s3)" by simp
  obtain s5 where s5: "s5 = logCalls [NvRegister] (s4\<lparr>registeredInput := True\<rparr>)" by simp
  obtain s6 where s6: "s6 = logCalls [NvCreateBitstream] (s5\<lparr>bitstream := True\<rparr>)" by simp
  have vs: "timeView s2 = cleared v" "timeView s3 = cleared v" "timeView s4 = cleared v"
    "timeView s5 = cleared v" "timeView s6 = cleared v"
    by (simp_all add: s2 s3 s4 s5 s6 v1)
  obtain m1 m2 m3 m4 m5 m6 m7 m8 where m:
    "m1 = ''libnvidia-encode.so.1 is unavailable; no CPU fallback is permitted''"
    "m2 = ''NvEncodeAPICreateInstance is unavailable''"
    "m3 = ''NVENC API initialization failed''"
    "m4 = ''NVENC could not open an OpenGL encode session''"
    "m5 = ''NVENC low-latency H264 preset is unavailable''"
    "m6 = ''NVENC could not initialize H264 encoding''"
    "m7 = ''NVENC could not register the OpenGL texture''"
    "m8 = ''NVENC could not allocate an H264 bitstream buffer''" by simp
  show ?thesis
    unfolding EnsureEncoder_def Let_def if_not_P [OF False] s0 [symmetric] e prod.case m [symmetric]
      s2 [symmetric] s3 [symmetric] s4 [symmetric] s5 [symmetric] s6 [symmetric] v [symmetric]
    using v1 vs announceEncoder_time [OF assms vs(5)]
    by (cases ok) simp_all
qed

text \<open>The time stamps of consecutive inputs.\<close>

lemma round_step:
  fixes x d :: real
  assumes "1 \<le> d"
  shows "round x < round (x + d)"
proof -
  have "\<lfloor>(x + 1 / 2) + 1\<rfloor> \<le> \<lfloor>(x + d) + 1 / 2\<rfloor>" using assms by (intro floor_mono) simp
  moreover have "\<lfloor>(x + 1 / 2) + 1\<rfloor> = \<lfloor>x + 1 / 2\<rfloor> + 1" by (rule one_add_floor [symmetric])
  ultimately show ?thesis unfolding round_def by linarith
qed

lemma real_clock [simp]: "real kRtpClockRate = 90000"
  by (simp add: kRtpClockRate_def)

lemma inputTimestamp_step:
  assumes "frameRate s \<le> 90000"
    and "(real (unat (encodedFrameIndex s)) + 1) * 90000 / frameRate s < 2 ^ 63"
  shows "inputTimestamp s
    < inputTimestamp (s\<lparr>encodedFrameIndex := encodedFrameIndex s + 1\<rparr>)"
proof -
  obtain n where n: "n = unat (encodedFrameIndex s)" by simp
  let ?f = "frameRate s"
  note bound = assms(2) [folded n]
  have unit: "1 \<le> 90000 / ?f" using assms(1) frameRate_pos [of s] by simp
  have "(real n + 1) * 1 \<le> (real n + 1) * (90000 / ?f)"
    by (rule mult_left_mono [OF unit]) simp
  with bound have "real n + 1 < 2 ^ 63" by simp
  then have "n + 1 < 2 ^ 63" using of_nat_less_iff [of "n + 1" "2 ^ 63", where 'a = real] by simp
  then have suc: "unat (encodedFrameIndex s + 1) = n + 1"
    unfolding n by (subst unat_add_lem [THEN iffD1]) simp_all
  define x y where "x = round (real n * 90000 / ?f)"
    and "y = round ((real n + 1) * 90000 / ?f)"
  have split: "(real n + 1) * 90000 / ?f = real n * 90000 / ?f + 90000 / ?f"
    by (simp only: distrib_right add_divide_distrib mult_1)
  have less: "x < y" using round_step [OF unit] by (simp only: x_def y_def split)
  have "0 \<le> x" using round_mono [of 0 "real n * 90000 / ?f"] frameRate_pos [of s] by (simp add: x_def)
  have "y \<le> round (2 ^ 63 :: real)" using bound by (simp only: y_def round_mono less_imp_le)
  then have "y \<le> 2 ^ 63" using round_of_int [of "2 ^ 63", where 'a = real] by simp
  then have "(word_of_int x :: u64) < word_of_int y"
    using less \<open>0 \<le> x\<close> by (simp add: word_less_def uint_word_of_int)
  moreover have "inputTimestamp s = word_of_int x"
    by (simp only: inputTimestamp_def n [symmetric] real_clock x_def)
  moreover have "inputTimestamp (s\<lparr>encodedFrameIndex := encodedFrameIndex s + 1\<rparr>) = word_of_int y"
  proof -
    have r: "real (n + 1) = real n + 1" by simp
    have u: "frameRate (s\<lparr>encodedFrameIndex := encodedFrameIndex s + 1\<rparr>) = ?f"
      "encodedFrameIndex (s\<lparr>encodedFrameIndex := encodedFrameIndex s + 1\<rparr>) = encodedFrameIndex s + 1"
      by (simp_all add: frameRate_def)
    show ?thesis unfolding inputTimestamp_def y_def real_clock u suc r by (rule refl)
  qed
  ultimately show ?thesis by simp
qed

text \<open>The time stamps in the queue increase and are all older than the next input's.\<close>

definition increasing :: "u64 \<Rightarrow> pending_encoded_frame list \<Rightarrow> bool" where
  "increasing next ps \<longleftrightarrow> sorted_wrt (<) (map pef_encoderTimestamp ps)
     \<and> (\<forall>p\<in>set ps. pef_encoderTimestamp p < next)"

definition pendingOk :: "'z enc_scheme \<Rightarrow> bool" where
  "pendingOk s \<longleftrightarrow> increasing (inputTimestamp s) (pendingEncodedFrames s)
     \<and> length (pendingEncodedFrames s) \<le> kMaximumPendingEncodedFrames"

declare increasing_def [cam_inv] and pendingOk_def [cam_inv]

lemma takePending_Some:
  "takePending t ps = Some (p, qs) \<Longrightarrow>
     \<exists>xs ys. ps = xs @ p # ys \<and> qs = xs @ ys \<and> pef_encoderTimestamp p = t"
proof (induction ps arbitrary: qs)
  case (Cons a ps)
  show ?case
  proof (cases "pef_encoderTimestamp a = t")
    case True
    with Cons.prems show ?thesis by (intro exI [of _ "[]"] exI [of _ ps]) auto
  next
    case False
    with Cons.prems obtain qs' where qs': "takePending t ps = Some (p, qs')" "qs = a # qs'" by auto
    from Cons.IH [OF this(1)] obtain xs ys
      where "ps = xs @ p # ys" "qs' = xs @ ys" "pef_encoderTimestamp p = t" by blast
    with qs'(2) show ?thesis by (intro exI [of _ "a # xs"] exI [of _ ys]) simp
  qed
qed simp

lemma increasing_remove: "increasing n (xs @ p # ys) \<Longrightarrow> increasing n (xs @ ys)"
  by (auto simp: increasing_def sorted_wrt_append)

lemma increasing_snoc:
  "increasing n ps \<Longrightarrow> n < m \<Longrightarrow> pef_encoderTimestamp p = n \<Longrightarrow> increasing m (ps @ [p])"
  by (auto simp: increasing_def sorted_wrt_append intro: less_trans)

lemma increasing_weaken: "increasing n ps \<Longrightarrow> n \<le> m \<Longrightarrow> increasing m ps"
  by (auto simp: increasing_def intro: less_le_trans)

lemma increasing_unique:
  assumes "increasing n ps" and "p \<in> set ps" and "q \<in> set ps"
    and "pef_encoderTimestamp p = pef_encoderTimestamp q"
  shows "p = q"
proof -
  from assms(1) have "distinct (map pef_encoderTimestamp ps)"
    by (simp add: increasing_def strict_sorted_iff)
  with assms(2-4) show ?thesis by (auto simp: distinct_map inj_on_def)
qed

lemma collectOutput_time:
  assumes "keeps timeView (fa_enqueue fa)" and "collectOutput fa s = (sent, recreate, s')"
  shows "\<exists>ps. timeView s' = (encodedFrameIndex s, sensorUpdateRate s, ps, lastSourceTimeNanoseconds s)
    \<and> (recreate
       \<or> fa_encode fa \<noteq> EncSuccess \<and> ps = pendingEncodedFrames s \<and> length ps \<le> kMaximumPendingEncodedFrames
       \<or> (\<exists>t p. takePending t (pendingEncodedFrames s) = Some (p, ps)))"
proof -
  obtain m1 m2 m3 where m: "m1 = ''NVENC could not lock the H264 bitstream''"
    "m2 = ''NVENC output timestamp has no source-frame timing metadata''"
    "m3 = ''NVENC retained too many delayed frames; rebuilding the encoder''" by simp
  have unchanged: ?thesis if "timeView s' = timeView s" "recreate
      \<or> fa_encode fa \<noteq> EncSuccess \<and> length (pendingEncodedFrames s) \<le> kMaximumPendingEncodedFrames"
    using that by (auto simp: timeView_def)
  show ?thesis
  proof (cases "fa_encode fa = EncSuccess")
    case False
    with assms(2) show ?thesis
      unfolding collectOutput_def m [symmetric] by (intro unchanged) (auto split: if_splits)
  next
    case True
    show ?thesis
    proof (cases "fa_lock fa")
      case None
      with True assms(2) show ?thesis
        unfolding collectOutput_def m [symmetric] by (intro unchanged) auto
    next
      case (Some out)
      obtain data ts where out: "out = (data, ts)" by (cases out)
      have log: "pendingEncodedFrames (logCalls [NvLock] s) = pendingEncodedFrames s"
        by (simp add: logCalls_def)
      show ?thesis
      proof (cases "takePending ts (pendingEncodedFrames s)")
        case None
        with True Some out log assms(2) show ?thesis
          unfolding collectOutput_def TakePendingEncodedFrame_def m [symmetric]
          by (intro unchanged) auto
      next
        case (Some taken)
        obtain p ps where p: "taken = (p, ps)" by (cases taken)
        obtain s1 where s1: "s1 = (logCalls [NvLock] s)\<lparr>pendingEncodedFrames := ps\<rparr>" by simp
        obtain k s2 where k: "SendH264AccessUnit (fa_enqueue fa) data (ucast ts) p s1 = (k, s2)"
          by (cases "SendH264AccessUnit (fa_enqueue fa) data (ucast ts) p s1")
        have "timeView s2 = timeView s1"
          using tv.SendH264AccessUnit [OF assms(1), of data "ucast ts" p s1] by (simp add: k)
        also have "timeView s1 = (encodedFrameIndex s, sensorUpdateRate s, ps, lastSourceTimeNanoseconds s)"
          by (simp add: s1 timeView_def logCalls_def)
        finally have "timeView (logCalls [NvUnlock] s2)
          = (encodedFrameIndex s, sensorUpdateRate s, ps, lastSourceTimeNanoseconds s)" by simp
        moreover have "collectOutput fa s = (k, False, logCalls [NvUnlock] s2)"
          using True \<open>fa_lock fa = Some out\<close> out log Some p k
          by (simp add: collectOutput_def TakePendingEncodedFrame_def s1)
        ultimately show ?thesis using assms(2) Some p by auto
      qed
    qed
  qed
qed

lemma pendingOk_view: "timeView s' = timeView s \<Longrightarrow> pendingOk s' = pendingOk s"
  using timeView_fields [of s' s] by (simp add: pendingOk_def)

lemma pendingOk_cleared: "timeView s' = cleared v \<Longrightarrow> pendingOk s'"
  by (auto simp: timeView_def cleared_def pendingOk_def increasing_def split: prod.splits)

lemma submitFrame_pending:
  assumes "pendingOk s" and "keeps timeView (fa_enqueue fa)"
    and "frameRate s \<le> 90000"
    and "(real (unat (encodedFrameIndex s)) + 1) * 90000 / frameRate s < 2 ^ 63"
  shows "pendingOk (snd (submitFrame fa t s))"
proof -
  obtain m1 m2 where m: "m1 = ''NVENC could not map the OpenGL input texture''"
    "m2 = ''NVENC could not encode the OpenGL frame''" by simp
  obtain s1 where s1: "s1 = logCalls [NvMap] (s\<lparr>forceKeyframe := False\<rparr>)" by simp
  have v1: "timeView s1 = timeView s" by (simp add: s1)
  obtain new where new: "new = newPendingFrame (forceKeyframe s) t s1" by simp
  obtain s2 where s2: "s2 = s1\<lparr>sourceFrameSequence := sourceFrameSequence s1 + 1,
      pendingEncodedFrames := pendingEncodedFrames s1 @ [new]\<rparr>" by simp
  have v2: "timeView s2 = (encodedFrameIndex s, sensorUpdateRate s, pendingEncodedFrames s @ [new],
      lastSourceTimeNanoseconds s)"
    using v1 by (simp add: s2 timeView_def)
  obtain sent recreate s3 where c: "collectOutput fa s2 = (sent, recreate, s3)"
    by (cases "collectOutput fa s2")
  let ?s' = "s\<lparr>encodedFrameIndex := encodedFrameIndex s + 1\<rparr>"
  note step = inputTimestamp_step [OF assms(3,4)]
  have stamp: "pef_encoderTimestamp new = inputTimestamp s"
    using timeView_fields(6) [OF v1] by (simp add: new newPendingFrame_def)
  have all: "increasing (inputTimestamp ?s') (pendingEncodedFrames s @ [new])"
    using assms(1) step stamp by (auto simp: pendingOk_def intro: increasing_snoc)
  from collectOutput_time [OF assms(2) c] v2 obtain ps
    where v3: "timeView s3 = (encodedFrameIndex s, sensorUpdateRate s, ps, lastSourceTimeNanoseconds s)"
      and ps: "recreate \<or> ps = pendingEncodedFrames s @ [new] \<and> length ps \<le> kMaximumPendingEncodedFrames
        \<or> (\<exists>t p. takePending t (pendingEncodedFrames s @ [new]) = Some (p, ps))"
    by (simp add: timeView_def) blast
  have kept: "increasing (inputTimestamp ?s') ps \<and> length ps \<le> kMaximumPendingEncodedFrames"
    if r: "\<not> recreate"
  proof -
    consider "ps = pendingEncodedFrames s @ [new]" "length ps \<le> kMaximumPendingEncodedFrames"
      | xs p ys where "pendingEncodedFrames s @ [new] = xs @ p # ys" "ps = xs @ ys"
      using ps r takePending_Some [of _ "pendingEncodedFrames s @ [new]" _ ps] by metis
    then show ?thesis
    proof cases
      case 1
      with all show ?thesis by simp
    next
      case 2
      from arg_cong [OF 2(1), of length] have "length ps = length (pendingEncodedFrames s)"
        using 2(2) by simp
      with assms(1) all 2 show ?thesis
        by (metis increasing_remove pendingOk_def)
    qed
  qed
  have finished: "pendingOk ((logCalls [NvUnmap] s3)
      \<lparr>encodedFrameIndex := encodedFrameIndex (logCalls [NvUnmap] s3) + 1\<rparr>)" (is "pendingOk ?u")
    if "\<not> recreate"
  proof -
    have "timeView ?u = timeView (?s'\<lparr>pendingEncodedFrames := ps\<rparr>)"
      using v3 by (simp add: timeView_def logCalls_def)
    from pendingOk_view [OF this] kept [OF that] show ?thesis
      by (simp add: pendingOk_def inputTimestamp_def frameRate_def)
  qed
  have "submitFrame fa t s = (if \<not> fa_map fa then (False, LogEncoderError m1 s)
      else if fa_encode fa = EncError
      then (False, DestroyEncoder (resetStream m2 (logCalls [NvUnmap] s2)))
      else if recreate then (False, DestroyEncoder (logCalls [NvUnmap] s3))
      else (sent, (logCalls [NvUnmap] s3)
        \<lparr>encodedFrameIndex := encodedFrameIndex (logCalls [NvUnmap] s3) + 1\<rparr>))"
    unfolding m submitFrame_def Let_def s1 [symmetric] new [symmetric] s2 [symmetric] c prod.case
    by (rule refl)
  moreover have "pendingOk (LogEncoderError m1 s)"
    using pendingOk_view [of "LogEncoderError m1 s" s] assms(1) by simp
  moreover have "pendingOk (DestroyEncoder u)" for u :: "'a enc_scheme"
    by (rule pendingOk_cleared [OF DestroyEncoder_time])
  ultimately show ?thesis using finished by simp
qed

lemma CopyTexture_time: "timeView (snd (CopyTextureToEncoderInput a s)) = timeView s"
  unfolding CopyTextureToEncoderInput_def Let_def by (cases a) simp_all

lemma ObserveSourceTime_time:
  "timeView (ObserveSourceTime t s) =
     (encodedFrameIndex s, sensorUpdateRate s,
      if (case lastSourceTimeNanoseconds s of None \<Rightarrow> False | Some l \<Rightarrow> t < l) then []
      else pendingEncodedFrames s, Some t)"
proof -
  obtain m where m: "m = ''simulation time moved backwards; starting a new stream epoch''" by simp
  obtain s1 where s1: "s1 = DestroyEncoder (LogEncoderError m
    ((BeginROSEpoch DISCONTINUITY_SOURCE_TIME_RESET (ClearRTPQueue s))\<lparr>forceKeyframe := True\<rparr>))" by simp
  have "timeView s1 = cleared (timeView s)" by (simp add: s1)
  then have "timeView (s1\<lparr>lastSourceTimeNanoseconds := Some t\<rparr>)
    = (encodedFrameIndex s, sensorUpdateRate s, [], Some t)"
    by (simp add: timeView_def cleared_def)
  moreover have "timeView (s\<lparr>lastSourceTimeNanoseconds := Some t\<rparr>)
    = (encodedFrameIndex s, sensorUpdateRate s, pendingEncodedFrames s, Some t)"
    by (simp add: timeView_def)
  ultimately show ?thesis
    unfolding ObserveSourceTime_def Let_def m [symmetric] s1 [symmetric]
    by (simp split: option.split)
qed

text \<open>
  C20: As long as the sensor renders at most 90000 frames per second and the frame counter is within
  range, the frames waiting in the encoder carry strictly increasing time stamps, all older than the
  next input's, and at most four of them wait. So an output's time stamp names at most one of them,
  and no frame is ever published with the source time of another. Encoding a frame keeps this,
  whatever the encoder answers.
\<close>

theorem pending_metadata_unambiguous:
  assumes "pendingOk s" and "keeps timeView (fa_enqueue fa)" and "keeps timeView (fa_between fa)"
    and "frameRate s \<le> 90000"
    and "(real (unat (encodedFrameIndex s)) + 1) * 90000 / frameRate s < 2 ^ 63"
  shows "let s' = snd (EncodeRenderedFrame cam fa s) in
    pendingOk s' \<and> (\<forall>p q. p \<in> set (pendingEncodedFrames s') \<and> q \<in> set (pendingEncodedFrames s')
      \<and> pef_encoderTimestamp p = pef_encoderTimestamp q \<longrightarrow> p = q)"
proof -
  obtain m where m: "m = ''Gazebo camera render texture is not a GL_TEXTURE_2D texture''" by simp
  have log: "pendingOk (LogEncoderError m s)"
    using pendingOk_view [of "LogEncoderError m s" s] assms(1) by simp
  obtain s1 where s1: "s1 = ObserveSourceTime (SourceTimeNanoseconds s) s" by simp
  obtain e s2 where e: "EnsureEncoder (fa_encoder fa) (fa_between fa) (cam_width cam) (cam_height cam) s1
      = (e, s2)" by (cases "EnsureEncoder (fa_encoder fa) (fa_between fa) (cam_width cam) (cam_height cam) s1")
  obtain k s3 where k: "CopyTextureToEncoderInput (fa_copy fa) s2 = (k, s3)"
    by (cases "CopyTextureToEncoderInput (fa_copy fa) s2")
  have v1: "encodedFrameIndex s1 = encodedFrameIndex s" "sensorUpdateRate s1 = sensorUpdateRate s"
    "pendingEncodedFrames s1 = pendingEncodedFrames s \<or> pendingEncodedFrames s1 = []"
    using ObserveSourceTime_time [of "SourceTimeNanoseconds s" s] by (auto simp: s1 timeView_def)
  have v2: "encodedFrameIndex s2 = encodedFrameIndex s1 \<and> sensorUpdateRate s2 = sensorUpdateRate s1
    \<and> (pendingEncodedFrames s2 = pendingEncodedFrames s1 \<or> pendingEncodedFrames s2 = [])"
    using EnsureEncoder_time [OF assms(3), of "fa_encoder fa" "cam_width cam" "cam_height cam" s1]
    by (auto simp: e timeView_def cleared_def split: if_splits)
  have v3: "timeView s3 = timeView s2" using CopyTexture_time [of "fa_copy fa" s2] by (simp add: k)
  have rate: "frameRate s2 = frameRate s" using v1 v2 by (simp add: frameRate_def)
  have "inputTimestamp s2 = inputTimestamp s" using v1 v2 rate by (simp add: inputTimestamp_def)
  then have p2: "pendingOk s2"
    using assms(1) v1 v2 by (auto simp: pendingOk_def increasing_def)
  then have p3: "pendingOk s3" using pendingOk_view [OF v3] by simp
  have "pendingOk (snd (submitFrame fa (SourceTimeNanoseconds s) s3))"
    using timeView_fields [OF v3] v1 v2 rate assms(2,4,5) by (intro submitFrame_pending p3) simp_all
  moreover have "EncodeRenderedFrame cam fa s =
     (if \<not> cameraFound s \<or> \<not> cam_renderTexture cam then (False, s)
      else if \<not> fa_texture2D fa then (False, LogEncoderError m s)
      else if \<not> e then (False, s2) else if \<not> k then (False, s3)
      else submitFrame fa (SourceTimeNanoseconds s) s3)"
    unfolding m EncodeRenderedFrame_def Let_def s1 [symmetric] e prod.case k
    by (cases e; cases k) simp_all
  ultimately have "pendingOk (snd (EncodeRenderedFrame cam fa s))"
    using assms(1) log p2 p3 by simp
  then show ?thesis unfolding Let_def pendingOk_def using increasing_unique by blast
qed

lemma DestroyEncoder_fields:
  "\<not> encoderOpen (DestroyEncoder s)" "pendingEncodedFrames (DestroyEncoder s) = []"
  "rtpQueue (DestroyEncoder s) = rtpQueue s" "forceKeyframe (DestroyEncoder s) = forceKeyframe s"
  "streamEpoch (DestroyEncoder s) = streamEpoch s"
  "rosFrameQueue (DestroyEncoder s) = rosFrameQueue s"
  "rosWaitingForIDR (DestroyEncoder s) = rosWaitingForIDR s"
  "pendingDiscontinuity (DestroyEncoder s) = pendingDiscontinuity s"
  by (simp_all add: DestroyEncoder_def DestroyConversionTexture_def logCalls_def Let_def)

section \<open>The source clock\<close>

text \<open>
  When the sensor's time steps back, the stream starts over: the encoder with every frame still
  inside is gone, nothing of the old timeline waits for RTP or ROS, the next frame is a key frame,
  and the publisher is in a new epoch that is announced as a source time reset. When it does not
  step back, only the remembered time changes.
\<close>

theorem ObserveSourceTime_resets:
  assumes "lastSourceTimeNanoseconds s = Some t0"
  shows "(t < t0 \<longrightarrow>
      (let s' = ObserveSourceTime t s in
       \<not> encoderOpen s' \<and> pendingEncodedFrames s' = [] \<and> rtpQueue s' = [] \<and> forceKeyframe s'
       \<and> lastSourceTimeNanoseconds s' = Some t
       \<and> (rosPublishingEnabled s \<and> \<not> rosPublisherStopping s \<longrightarrow>
            streamEpoch s' = NextEpochToken (streamEpoch s) \<and> rosFrameQueue s' = []
            \<and> rosWaitingForIDR s' \<and> pendingDiscontinuity s' = DISCONTINUITY_SOURCE_TIME_RESET)))
    \<and> (t0 \<le> t \<longrightarrow> ObserveSourceTime t s = s\<lparr>lastSourceTimeNanoseconds := Some t\<rparr>)"
proof -
  obtain m where m: "m = ''simulation time moved backwards; starting a new stream epoch''" by simp
  obtain u where u: "u = (BeginROSEpoch DISCONTINUITY_SOURCE_TIME_RESET (ClearRTPQueue s))
      \<lparr>forceKeyframe := True\<rparr>" by simp
  have fields: "rtpQueue u = []" "forceKeyframe u"
    "rosPublishingEnabled s \<and> \<not> rosPublisherStopping s \<longrightarrow>
       streamEpoch u = NextEpochToken (streamEpoch s) \<and> rosFrameQueue u = []
       \<and> rosWaitingForIDR u \<and> pendingDiscontinuity u = DISCONTINUITY_SOURCE_TIME_RESET"
    by (simp_all add: u BeginROSEpoch_def ClearRTPQueue_def AdvanceROSEpochLocked_def)
  have log: "rtpQueue (LogEncoderError m v) = rtpQueue v"
    "forceKeyframe (LogEncoderError m v) = forceKeyframe v"
    "streamEpoch (LogEncoderError m v) = streamEpoch v"
    "rosFrameQueue (LogEncoderError m v) = rosFrameQueue v"
    "rosWaitingForIDR (LogEncoderError m v) = rosWaitingForIDR v"
    "pendingDiscontinuity (LogEncoderError m v) = pendingDiscontinuity v" for v :: "'a enc_scheme"
    by (simp_all add: LogEncoderError_def Let_def)
  have stepped: "ObserveSourceTime t s = (DestroyEncoder (LogEncoderError m u))
      \<lparr>lastSourceTimeNanoseconds := Some t\<rparr>" if "t < t0"
    using that assms by (simp only: ObserveSourceTime_def Let_def m u option.case if_True)
  have same: "ObserveSourceTime t s = s\<lparr>lastSourceTimeNanoseconds := Some t\<rparr>" if "t0 \<le> t"
    using that assms by (simp add: ObserveSourceTime_def)
  obtain v where v: "v = LogEncoderError m u" by simp
  show ?thesis
    using same stepped fields DestroyEncoder_fields [of v]
    by (simp add: v [symmetric] log [of u, folded v] Let_def)
qed

lemma submitFrame_time:
  assumes "keeps timeView (fa_enqueue fa)" and "lastSourceTimeNanoseconds s = None"
  shows "lastSourceTimeNanoseconds (snd (submitFrame fa t s)) = None"
proof -
  obtain m1 m2 where m: "m1 = ''NVENC could not map the OpenGL input texture''"
    "m2 = ''NVENC could not encode the OpenGL frame''" by simp
  have time: "lastSourceTimeNanoseconds u = None" if "timeView u = timeView s \<or> timeView u = cleared v"
    for u :: "'a enc_scheme" and v
    using that assms(2) by (auto simp: timeView_def cleared_def split: prod.splits)
  obtain s1 where s1: "s1 = logCalls [NvMap] (s\<lparr>forceKeyframe := False\<rparr>)" by simp
  obtain s2 where s2: "s2 = s1\<lparr>sourceFrameSequence := sourceFrameSequence s1 + 1,
      pendingEncodedFrames := pendingEncodedFrames s1 @ [newPendingFrame (forceKeyframe s) t s1]\<rparr>"
    by simp
  have "lastSourceTimeNanoseconds s1 = None" by (rule time) (simp add: s1)
  then have v2: "lastSourceTimeNanoseconds s2 = None" by (simp add: s2)
  obtain sent recreate s3 where c: "collectOutput fa s2 = (sent, recreate, s3)"
    by (cases "collectOutput fa s2")
  have v3: "lastSourceTimeNanoseconds s3 = None"
    using collectOutput_time [OF assms(1) c] v2 by (auto simp: timeView_def)
  have "submitFrame fa t s = (if \<not> fa_map fa then (False, LogEncoderError m1 s)
      else if fa_encode fa = EncError
      then (False, DestroyEncoder (resetStream m2 (logCalls [NvUnmap] s2)))
      else if recreate then (False, DestroyEncoder (logCalls [NvUnmap] s3))
      else (sent, (logCalls [NvUnmap] s3)
        \<lparr>encodedFrameIndex := encodedFrameIndex (logCalls [NvUnmap] s3) + 1\<rparr>))"
    unfolding m submitFrame_def Let_def s1 [symmetric] s2 [symmetric] c prod.case by (rule refl)
  moreover have "lastSourceTimeNanoseconds (DestroyEncoder u) = None" for u :: "'a enc_scheme"
    by (rule time) (rule disjI2, rule DestroyEncoder_time)
  moreover have "lastSourceTimeNanoseconds (LogEncoderError m1 s) = None" by (rule time) simp
  ultimately show ?thesis using v3 by (simp add: logCalls_def)
qed

text \<open>
  C37: The frame for which the encoder is created leaves no source time behind: the session is built
  by a routine that first destroys the previous one, and destroying it forgets the time that was
  noted a moment before. So a clock that steps back between this frame and the next goes unnoticed:
  whatever time the next frame shows, it starts no epoch.
\<close>

theorem first_frame_time_forgotten:
  assumes "\<not> (encoderOpen s \<and> encoderWidth s = cam_width cam \<and> encoderHeight s = cam_height cam)"
    and "cameraFound s" and "cam_renderTexture cam" and "fa_texture2D fa"
    and "keeps timeView (fa_enqueue fa)" and "keeps timeView (fa_between fa)"
  shows "let s' = snd (EncodeRenderedFrame cam fa s) in
    lastSourceTimeNanoseconds s' = None
    \<and> (\<forall>t. ObserveSourceTime t s' = s'\<lparr>lastSourceTimeNanoseconds := Some t\<rparr>)"
proof -
  obtain s1 where s1: "s1 = ObserveSourceTime (SourceTimeNanoseconds s) s" by simp
  obtain e s2 where e: "EnsureEncoder (fa_encoder fa) (fa_between fa) (cam_width cam) (cam_height cam) s1
      = (e, s2)" by (cases "EnsureEncoder (fa_encoder fa) (fa_between fa) (cam_width cam) (cam_height cam) s1")
  obtain k s3 where k: "CopyTextureToEncoderInput (fa_copy fa) s2 = (k, s3)"
    by (cases "CopyTextureToEncoderInput (fa_copy fa) s2")
  have "\<not> (encoderOpen s1 \<and> encoderWidth s1 = cam_width cam \<and> encoderHeight s1 = cam_height cam)"
    using assms(1) by (simp add: s1 ObserveSourceTime_def Let_def DestroyEncoder_fields split: option.split)
  then have "timeView s2 = cleared (timeView s1)"
    using EnsureEncoder_time [OF assms(6), of "fa_encoder fa" "cam_width cam" "cam_height cam" s1]
    by (simp only: e snd_conv if_False)
  then have n2: "lastSourceTimeNanoseconds s2 = None"
    by (auto simp: timeView_def cleared_def split: prod.splits)
  then have n3: "lastSourceTimeNanoseconds s3 = None"
    using timeView_fields(4) [OF CopyTexture_time [of "fa_copy fa" s2]] by (simp add: k)
  have "EncodeRenderedFrame cam fa s =
     (if \<not> e then (False, s2) else if \<not> k then (False, s3)
      else submitFrame fa (SourceTimeNanoseconds s) s3)"
    unfolding EncodeRenderedFrame_def Let_def s1 [symmetric] e prod.case k
    using assms(2-4) by (cases e; cases k) simp_all
  then have "lastSourceTimeNanoseconds (snd (EncodeRenderedFrame cam fa s)) = None"
    using n2 n3 submitFrame_time [OF assms(5) n3] by simp
  then show ?thesis by (simp add: Let_def ObserveSourceTime_def)
qed

section \<open>The acknowledgement of a key frame command\<close>





section \<open>Concrete runs\<close>

definition encStart :: enc where
  "encStart = snap.extend snapStart
     \<lparr>stopping = False, sensorActive = True, lastMeasurementTime = (10, 0), cameraFound = True,
      listening = True, nativeAppliedActive = False, nativeLifecycleState = 0,
      cleanupEncoderRequested = False, encoderResourcesActive = False,
      rosFreshRenderGate = \<lparr>observedGeneration = 0, sourceTimeFloor = None\<rparr>, nativeCommand = None,
      awaitingNativeControl = None, nativeFailedRevision = 0, nativeAppliedRevision = 0,
      nativeAppliedTime = 0, nativeSensorActive = False, vbvBufferMilliseconds = 200,
      nvencLibrary = False, nvencApi = emptyTable, encoderOpen = False, registeredInput = False,
      bitstream = False, encoderTexture = 0, readFramebuffer = 0, drawFramebuffer = 0,
      encoderTextureWidth = 0, encoderTextureHeight = 0, encoderWidth = 0, encoderHeight = 0,
      encodedFrameIndex = 0, sourceFrameSequence = 0, pendingEncodedFrames = [],
      lastSourceTimeNanoseconds = None, encoderEverInitialized = False, nvencCalls = []\<rparr>"

lemma encStart_fields:
  "encoderOpen encStart = False" "cameraFound encStart" "pendingEncodedFrames encStart = []"
  "encodedFrameIndex encStart = 0" "nvComplete encStart"
  by (simp_all add: encStart_def snap.extend_def snapStart_def ros.extend_def rosStart_def
      nvComplete_def nvPartial_def nvBalanced_def Let_def)

lemma encStart_rate: "sensorUpdateRate encStart = 30"
  by (simp add: encStart_def snap.extend_def snapStart_def ros.extend_def rosStart_def)

definition demoAnswers :: "enc frame_answers" where
  "demoAnswers = \<lparr>fa_encoder = \<lparr>na_gl = demoGL, na_texture = 21, na_readFramebuffer = 22,
       na_drawFramebuffer = 23, na_glNoError = True, na_dlopen = True, na_symbol = True,
       na_create = Some \<lparr>nt_openSession = True, nt_initialize = True, nt_presetConfig = True,
         nt_unregister = True, nt_destroyBitstream = True, nt_destroyEncoder = True\<rparr>,
       na_session = (True, True), na_preset = True, na_initialize = (\<lambda>c. True), na_register = True,
       na_bitstream = True\<rparr>,
     fa_texture2D = True, fa_copy = CopyDone, fa_map = True, fa_encode = EncSuccess,
     fa_lock = Some ([0, 0, 0, 1, 0x65, 1], 0), fa_between = (\<lambda>s. s), fa_enqueue = (\<lambda>s. s)\<rparr>"

lemma demoAnswers_quiet: "nvQuiet demoAnswers" "keeps timeView (fa_enqueue demoAnswers)"
  "keeps timeView (fa_between demoAnswers)" "fa_texture2D demoAnswers"
  by (simp_all add: nvQuiet_def honestAnswers_def fullTable_def keeps_def demoAnswers_def)

theorem first_frame_time_forgotten_witness:
  "ObserveSourceTime 5 (snd (EncodeRenderedFrame demoView demoAnswers encStart))
     = (snd (EncodeRenderedFrame demoView demoAnswers encStart))\<lparr>lastSourceTimeNanoseconds := Some 5\<rparr>"
  using first_frame_time_forgotten [of encStart demoView demoAnswers]
  by (simp add: encStart_fields demoAnswers_quiet Let_def demoView_def)

theorem encoder_session_never_leaks_witness:
  "nvReleased (nvencCalls (DestroyEncoder (postRenderTargetUpdate demoView
     (\<lambda>u. snd (CaptureSnapshot demoView demoGL demoMap (Inl []) 0 (\<lambda>i v. v) u)) demoAnswers encStart)))"
proof -
  have "render_step encStart (postRenderTargetUpdate demoView
     (\<lambda>u. snd (CaptureSnapshot demoView demoGL demoMap (Inl []) 0 (\<lambda>i v. v) u)) demoAnswers encStart)"
    by (rule target_update) (simp_all add: demoAnswers_quiet keeps_def)
  from encoder_session_never_leaks [OF r_into_rtranclp [of render_step, OF this] encStart_fields(5)]
  show ?thesis by blast
qed

theorem pending_metadata_unambiguous_witness:
  "length (pendingEncodedFrames (snd (EncodeRenderedFrame demoView demoAnswers encStart))) \<le> 4"
proof -
  have "pendingOk encStart"
    by (simp add: pendingOk_def increasing_def encStart_fields)
  moreover have "frameRate encStart \<le> 90000"
    "(real (unat (encodedFrameIndex encStart)) + 1) * 90000 / frameRate encStart < 2 ^ 63"
    by (simp_all add: encStart_rate encStart_fields frameRate_def)
  ultimately show ?thesis
    using pending_metadata_unambiguous [of encStart demoAnswers demoView] demoAnswers_quiet
    by (simp add: Let_def pendingOk_def kMaximumPendingEncodedFrames_def)
qed

theorem ObserveSourceTime_resets_witness:
  "rtpQueue (ObserveSourceTime 3 (encStart\<lparr>lastSourceTimeNanoseconds := Some 7\<rparr>)) = []"
  using ObserveSourceTime_resets [of "encStart\<lparr>lastSourceTimeNanoseconds := Some 7\<rparr>" 7 3]
  by (simp add: Let_def)



end
