(* ===== verification/Control_Json.thy ===== *)
theory Control_Json
  imports Prelude "HOL-Library.AList" "HOL-Library.Char_ord"
begin

text \<open>
  What the control components share: JSON values with the accessors of the JSON library the code
  uses, the exceptions and responses of a request, and decimal numbers in request paths. The text
  of a JSON value is left to the library: its parser is a parameter where it is called, and a
  response keeps the value that its printer would print.
\<close>

section \<open>JSON values\<close>

text \<open>
  An object is an association list whose keys count once; \<open>JInt\<close> stands for the library's signed
  and unsigned integer types.
\<close>

datatype json = JNull | JBool bool | JInt int | JReal real | JString string
  | JArray "json list" | JObject "(string \<times> json) list"

fun isObject :: "json \<Rightarrow> bool" where
  "isObject (JObject m) = True"
| "isObject _ = False"

fun jfields :: "json \<Rightarrow> (string \<times> json) list" where
  "jfields (JObject m) = m"
| "jfields _ = []"

definition isMember :: "string \<Rightarrow> json \<Rightarrow> bool" where
  "isMember k v \<longleftrightarrow> map_of (jfields v) k \<noteq> None"

text \<open>The constant \<open>operator[]\<close>: the null value for an absent member.\<close>

definition jget :: "string \<Rightarrow> json \<Rightarrow> json" where
  "jget k v = (case map_of (jfields v) k of None \<Rightarrow> JNull | Some x \<Rightarrow> x)"

text \<open>Assignment through \<open>operator[]\<close>; the null value becomes an object.\<close>

definition jset :: "string \<Rightarrow> json \<Rightarrow> json \<Rightarrow> json" where
  "jset k x v = JObject (AList.update k x (jfields v))"

fun isBool :: "json \<Rightarrow> bool" where
  "isBool (JBool b) = True"
| "isBool _ = False"

fun isString :: "json \<Rightarrow> bool" where
  "isString (JString s) = True"
| "isString _ = False"

fun asBool :: "json \<Rightarrow> bool" where
  "asBool (JBool b) = b"
| "asBool _ = False"

text \<open>The null value reads as the empty string.\<close>

fun asString :: "json \<Rightarrow> string" where
  "asString (JString s) = s"
| "asString _ = []"

fun asInt :: "json \<Rightarrow> int" where
  "asInt (JInt n) = n"
| "asInt _ = 0"

text \<open>An integer value in a range; the C++ tests the integer type before the range.\<close>

fun isIntIn :: "int \<Rightarrow> int \<Rightarrow> json \<Rightarrow> bool" where
  "isIntIn lo hi (JInt n) = (lo \<le> n \<and> n \<le> hi)"
| "isIntIn lo hi _ = False"

definition isUInt64 :: "json \<Rightarrow> bool" where "isUInt64 = isIntIn 0 (2 ^ 64 - 1)"
definition isUInt32 :: "json \<Rightarrow> bool" where "isUInt32 = isIntIn 0 (2 ^ 32 - 1)"
definition isInt32 :: "json \<Rightarrow> bool" where "isInt32 = isIntIn (- (2 ^ 31)) (2 ^ 31 - 1)"

text \<open>\<open>asDouble\<close> of a numeric value; a real number is always finite.\<close>

fun asReal :: "json \<Rightarrow> real option" where
  "asReal (JInt n) = Some (of_int n)"
| "asReal (JReal x) = Some x"
| "asReal _ = None"

fun elements :: "json \<Rightarrow> json list option" where
  "elements (JArray xs) = Some xs"
| "elements _ = None"

definition jempty :: "json \<Rightarrow> bool" where
  "jempty v \<longleftrightarrow> v = JNull \<or> v = JArray [] \<or> v = JObject []"

lemma jget_jset [simp]: "jget k (jset k' x v) = (if k = k' then x else jget k v)"
  by (simp add: jget_def jset_def update_conv')

lemma isMember_jset [simp]: "isMember k (jset k' x v) = (k = k' \<or> isMember k v)"
  by (auto simp: isMember_def jset_def update_conv')

lemma jget_absent: "\<not> isMember k v \<Longrightarrow> jget k v = JNull"
  by (simp add: isMember_def jget_def)

section \<open>Requests, exceptions and responses\<close>

text \<open>The exceptions the code throws, with their texts.\<close>

datatype control_exn = InvalidArgument string | RuntimeError string

record control_request =
  rq_method :: string
  rq_target :: string
  rq_body :: string
  rq_request_id :: string
  rq_deadline :: int

text \<open>
  The body of an error response is made by the HTTP library from the code and the message, that of
  a JSON response by the JSON library from the value.
\<close>

datatype response_body = ErrorBody string string | JsonBody json | RawBody bytes

record control_response =
  rs_status :: int
  rs_headers :: "(string \<times> string) list"
  rs_body :: response_body

definition ControlError :: "int \<Rightarrow> string \<Rightarrow> string \<Rightarrow> control_response" where
  "ControlError status code message =
     \<lparr>rs_status = status, rs_headers = [], rs_body = ErrorBody code message\<rparr>"

definition JSONResponse :: "json \<Rightarrow> control_response" where
  "JSONResponse v = \<lparr>rs_status = 200, rs_headers = [(''Content-Type'', ''application/json'')],
     rs_body = JsonBody v\<rparr>"

definition ParseControlJSON :: "(string \<Rightarrow> json option) \<Rightarrow> string \<Rightarrow> control_exn + json" where
  "ParseControlJSON parse body =
     (if body = [] then Inr (JObject [])
      else (case parse body of
              None \<Rightarrow> Inl (InvalidArgument ''camera request must be a strict JSON object'')
            | Some v \<Rightarrow> if isObject v then Inr v
                else Inl (InvalidArgument ''camera request must be a strict JSON object'')))"

definition SafeSourceIdentifier :: "string \<Rightarrow> bool" where
  "SafeSourceIdentifier v \<longleftrightarrow> v \<noteq> [] \<and> length v \<le> 128
     \<and> list_all (\<lambda>c. (CHR ''a'' \<le> c \<and> c \<le> CHR ''z'') \<or> (CHR ''A'' \<le> c \<and> c \<le> CHR ''Z'')
          \<or> (CHR ''0'' \<le> c \<and> c \<le> CHR ''9'') \<or> c = CHR ''-'' \<or> c = CHR ''_'' \<or> c = CHR ''.'') v"

section \<open>Decimal numbers\<close>

definition isDigit :: "char \<Rightarrow> bool" where
  "isDigit c \<longleftrightarrow> CHR ''0'' \<le> c \<and> c \<le> CHR ''9''"

definition digitValue :: "char \<Rightarrow> nat" where
  "digitValue c = of_char c - 48"

definition digitChar :: "nat \<Rightarrow> char" where
  "digitChar n = char_of (48 + n)"

definition decimalValue :: "string \<Rightarrow> nat" where
  "decimalValue s = foldl (\<lambda>n c. 10 * n + digitValue c) 0 s"

text \<open>The text of a number, without leading zeros.\<close>

fun decimal :: "nat \<Rightarrow> string" where
  "decimal n = (if n < 10 then [digitChar n] else decimal (n div 10) @ [digitChar (n mod 10)])"

declare decimal.simps [simp del]

definition canonicalDecimal :: "string \<Rightarrow> bool" where
  "canonicalDecimal s \<longleftrightarrow> s \<noteq> [] \<and> list_all isDigit s \<and> (length s > 1 \<longrightarrow> hd s \<noteq> CHR ''0'')"

lemma digit_code: "isDigit c \<longleftrightarrow> 48 \<le> (of_char c :: nat) \<and> (of_char c :: nat) \<le> 57"
  by (simp add: isDigit_def less_eq_char_def)

lemma digitChar_value [simp]: "isDigit c \<Longrightarrow> digitChar (digitValue c) = c"
  by (auto simp: digit_code digitChar_def digitValue_def)

lemma digitValue_bound: "isDigit c \<Longrightarrow> digitValue c < 10"
  by (auto simp: digit_code digitValue_def)

lemma digitChar_digit: "n < 10 \<Longrightarrow> isDigit (digitChar n)"
  by (simp add: digit_code digitChar_def)

lemma digitValue_char [simp]: "n < 10 \<Longrightarrow> digitValue (digitChar n) = n"
  by (simp add: digitValue_def digitChar_def)

lemma digitChar_zero: "n < 10 \<Longrightarrow> digitChar n = CHR ''0'' \<longleftrightarrow> n = 0"
proof -
  assume "n < 10"
  moreover have "digitValue (CHR ''0'') = 0" by (simp add: digitValue_def)
  moreover have "digitChar 0 = CHR ''0''" by code_simp
  ultimately show ?thesis by (metis digitValue_char)
qed

lemma decimalValue_snoc: "decimalValue (s @ [c]) = 10 * decimalValue s + digitValue c"
  by (simp add: decimalValue_def)

lemma decimal_nonempty [simp]: "decimal n \<noteq> []"
  by (subst decimal.simps) simp

lemma decimalValue_decimal [simp]: "decimalValue (decimal n) = n"
proof (induction n rule: decimal.induct)
  case (1 n)
  then show ?case
    by (subst decimal.simps) (simp add: decimalValue_snoc, simp add: decimalValue_def)
qed

lemma decimal_digits: "list_all isDigit (decimal n) \<and> (0 < n \<longrightarrow> hd (decimal n) \<noteq> CHR ''0'')"
proof (induction n rule: decimal.induct)
  case (1 n)
  show ?case
  proof (cases "n < 10")
    case True
    then show ?thesis by (subst (1 2) decimal.simps) (simp add: digitChar_digit digitChar_zero)
  next
    case False
    with 1 show ?thesis by (subst (1 2) decimal.simps) (simp add: digitChar_digit)
  qed
qed

lemma canonical_decimal [simp]: "canonicalDecimal (decimal n)"
proof -
  have "length (decimal 0) = 1" by (subst decimal.simps) simp
  then have "1 < length (decimal n) \<Longrightarrow> 0 < n" by (cases n) auto
  with decimal_digits [of n] show ?thesis by (auto simp: canonicalDecimal_def)
qed

lemma decimalValue_positive:
  "list_all isDigit s \<Longrightarrow> s \<noteq> [] \<Longrightarrow> hd s \<noteq> CHR ''0'' \<Longrightarrow> 0 < decimalValue s"
proof (induction s rule: rev_induct)
  case (snoc c s)
  show ?case
  proof (cases "s = []")
    case True
    with snoc.prems have "isDigit c" "c \<noteq> CHR ''0''" by auto
    then have "digitValue c \<noteq> 0"
      using digitChar_value [of c] digitChar_zero [of "digitValue c"] digitValue_bound [of c] by auto
    with True show ?thesis by (simp add: decimalValue_def)
  next
    case False
    with snoc show ?thesis by (simp add: decimalValue_snoc)
  qed
qed simp

lemma decimal_decimalValue: "canonicalDecimal s \<Longrightarrow> decimal (decimalValue s) = s"
proof (induction s rule: rev_induct)
  case (snoc c s)
  have c: "isDigit c" and s: "list_all isDigit s" using snoc.prems by (auto simp: canonicalDecimal_def)
  show ?case
  proof (cases "s = []")
    case True
    with c show ?thesis
      by (subst decimal.simps) (simp add: decimalValue_def digitValue_bound)
  next
    case False
    with snoc.prems have "hd s \<noteq> CHR ''0''" by (auto simp: canonicalDecimal_def)
    with False s have pos: "0 < decimalValue s" and "canonicalDecimal s"
      by (auto simp: decimalValue_positive canonicalDecimal_def)
    with snoc.IH have "decimal (decimalValue s) = s" by blast
    with pos c show ?thesis
      by (subst decimal.simps) (simp add: decimalValue_snoc digitValue_bound)
  qed
qed (simp add: canonicalDecimal_def)

lemma decimalValue_less: "list_all isDigit s \<Longrightarrow> decimalValue s < 10 ^ length s"
proof (induction s rule: rev_induct)
  case (snoc c s)
  then have "decimalValue s + 1 \<le> 10 ^ length s" "digitValue c < 10"
    by (auto simp: digitValue_bound)
  then have "10 * decimalValue s + digitValue c < 10 * 10 ^ length s" by linarith
  then show ?case by (simp add: decimalValue_snoc)
qed (simp add: decimalValue_def)

lemma decimal_length:
  assumes "n < 10 ^ k" and "0 < k"
  shows "length (decimal n) \<le> k"
  using assms
proof (induction n arbitrary: k rule: decimal.induct)
  case (1 n)
  show ?case
  proof (cases "n < 10")
    case True
    with "1.prems" show ?thesis by (subst decimal.simps) simp
  next
    case False
    have "k \<noteq> 1" using "1.prems"(1) False by auto
    with "1.prems"(2) have "1 < k" by simp
    then obtain j where j: "k = Suc j" "0 < j" by (cases k) auto
    with "1.prems" have "n div 10 < 10 ^ j" by (simp add: div_less_iff_less_mult mult.commute)
    with "1.IH" [OF False _ j(2)] j(1) False show ?thesis by (subst decimal.simps) simp
  qed
qed

end
