(* ===== verification/Source_Control.thy ===== *)
theory Source_Control
  imports Control_Json
begin

text \<open>
  The control host that all camera sensors of a process share (\<open>camera_source_control.cpp\<close>): its
  binding, its table of 16 sources, the capture slot and the dispatch of requests. The HTTP server
  and the JSON text are library code: a constructor that throws, the parser and the handlers of the
  sources are parameters. The lemmas show that the table is a bounded finite map and that every
  request is answered once or handed to the handler of the source it names.
\<close>

section \<open>The table of sources\<close>

text \<open>A source without an identifier is a free entry; \<open>'h\<close> stands for its two callbacks.\<close>

record 'h source =
  src_id :: string
  src_handler :: "'h option"

definition freeSource :: "'h source" where
  "freeSource = \<lparr>src_id = [], src_handler = None\<rparr>"

record 'h host =
  hs_sources :: "'h source list"
  hs_path :: string
  hs_instance_id :: string
  hs_target_id :: string
  hs_capture_reserved :: bool
  hs_stopping :: bool

definition kSources :: nat where "kSources = 16"

text \<open>The limits given to the HTTP server.\<close>

record http_limits =
  hl_connections :: nat
  hl_inflight :: nat
  hl_request_bytes :: nat
  hl_response_bytes :: nat

definition hostLimits :: http_limits where
  "hostLimits = \<lparr>hl_connections = 8, hl_inflight = 4, hl_request_bytes = 65536,
     hl_response_bytes = 67108864\<rparr>"

text \<open>
  The constructor: \<open>fresh\<close> is a new instance identifier, \<open>server\<close> the exception of the HTTP server
  when it cannot be created. \<open>Acquire\<close> gets the live shared host, if there is one.
\<close>

definition newHost :: "string option \<Rightarrow> string \<Rightarrow> string \<Rightarrow> string \<Rightarrow> string \<Rightarrow> control_exn + 'h host" where
  "newHost server fresh path target_id instance_id =
     (case server of
        Some message \<Rightarrow> Inl (RuntimeError message)
      | None \<Rightarrow> Inr \<lparr>hs_sources = replicate kSources freeSource, hs_path = path,
          hs_instance_id = (if instance_id = [] then fresh else instance_id),
          hs_target_id = target_id, hs_capture_reserved = False, hs_stopping = False\<rparr>)"

definition Acquire ::
  "string option \<Rightarrow> string \<Rightarrow> string \<Rightarrow> string \<Rightarrow> string \<Rightarrow> 'h host option \<Rightarrow> control_exn + 'h host" where
  "Acquire server fresh path target_id instance_id shared =
     (if \<not> SafeSourceIdentifier target_id
      then Inl (InvalidArgument ''explicit bounded control target identity is required'')
      else (case shared of
        Some host \<Rightarrow>
          if hs_path host \<noteq> path \<or> hs_target_id host \<noteq> target_id
             \<or> (instance_id \<noteq> [] \<and> hs_instance_id host \<noteq> instance_id)
          then Inl (InvalidArgument
            ''all camera sensors in one world must share the same control binding'')
          else Inr host
      | None \<Rightarrow> newHost server fresh path target_id instance_id))"

text \<open>The first free entry takes the new source.\<close>

fun takeFree :: "'h source \<Rightarrow> 'h source list \<Rightarrow> 'h source list option" where
  "takeFree x [] = None"
| "takeFree x (y # ys) =
     (if src_id y = [] then Some (x # ys) else map_option ((#) y) (takeFree x ys))"

definition Register :: "string \<Rightarrow> 'h \<Rightarrow> 'h host \<Rightarrow> control_exn + 'h host" where
  "Register source_id handler host =
     (if \<not> SafeSourceIdentifier source_id then Inl (InvalidArgument ''invalid camera source_id'')
      else if list_ex (\<lambda>s. src_id s = source_id) (hs_sources host)
      then Inl (InvalidArgument ''duplicate camera source_id'')
      else (case takeFree \<lparr>src_id = source_id, src_handler = Some handler\<rparr> (hs_sources host) of
              None \<Rightarrow> Inl (RuntimeError ''camera source capacity is exhausted (16)'')
            | Some sources \<Rightarrow> Inr (host\<lparr>hs_sources := sources\<rparr>)))"

definition Unregister :: "string \<Rightarrow> 'h host \<Rightarrow> 'h host" where
  "Unregister source_id host =
     host\<lparr>hs_sources := map (\<lambda>s. if src_id s = source_id then freeSource else s) (hs_sources host)\<rparr>"

definition ReserveCapture :: "'h host \<Rightarrow> bool \<times> 'h host" where
  "ReserveCapture host =
     (if hs_capture_reserved host then (False, host) else (True, host\<lparr>hs_capture_reserved := True\<rparr>))"

definition ReleaseCapture :: "'h host \<Rightarrow> 'h host" where
  "ReleaseCapture host = host\<lparr>hs_capture_reserved := False\<rparr>"

definition ServiceRef :: "'h host \<Rightarrow> json" where
  "ServiceRef host = JObject
     [(''target_id'', JString (hs_target_id host)), (''service'', JString ''camera-source''),
      (''api_version'', JString ''v1''), (''instance_id'', JString (hs_instance_id host)),
      (''profile'', JString ''http.v1''),
      (''endpoint'', JObject [(''kind'', JString ''unix''), (''address'', JString (hs_path host))])]"

text \<open>\<open>flush\<close> is what a source's second callback does to the state of the process.\<close>

definition FlushSources :: "('h \<Rightarrow> 's \<Rightarrow> 's) \<Rightarrow> 'h host \<Rightarrow> 's \<Rightarrow> 's" where
  "FlushSources flush host s =
     fold (\<lambda>source t. case src_handler source of None \<Rightarrow> t | Some h \<Rightarrow> flush h t) (hs_sources host) s"

text \<open>
  One round of the executor thread: \<open>poll\<close> is a poll of the server, which dispatches requests.
\<close>

definition executorRound :: "('s \<Rightarrow> 's) \<Rightarrow> ('h \<Rightarrow> 's \<Rightarrow> 's) \<Rightarrow> 'h host \<Rightarrow> 's \<Rightarrow> 's loop" where
  "executorRound poll flush host s =
     (if hs_stopping host then LoopReturns s else LoopContinues (FlushSources flush host (poll s)))"

section \<open>Dispatch\<close>

definition describeQuery :: string where "describeQuery = ''wait_ready_ms=''"

definition beforeChar :: "char \<Rightarrow> string \<Rightarrow> string" where
  "beforeChar c s = takeWhile (\<lambda>x. x \<noteq> c) s"

text \<open>What follows the first occurrence; empty when there is none.\<close>

definition afterChar :: "char \<Rightarrow> string \<Rightarrow> string" where
  "afterChar c s = tl (dropWhile (\<lambda>x. x \<noteq> c) s)"

definition waitReadyRejected :: "string \<Rightarrow> bool" where
  "waitReadyRejected query =
     (let digits = (if take (length describeQuery) query = describeQuery
                    then drop (length describeQuery) query else [])
      in digits = [] \<or> length digits > 5 \<or> (length digits > 1 \<and> digits ! 0 = CHR ''0'')
         \<or> \<not> list_all isDigit digits \<or> decimalValue digits > 30000)"

definition discovery :: "bool \<Rightarrow> 'h host \<Rightarrow> json" where
  "discovery describe host =
     (let sources = filter (\<lambda>s. src_id s \<noteq> []) (hs_sources host);
          common =
            [(''sources'', JArray (map (\<lambda>s. JString (src_id s)) sources)),
             (''limits'', JObject
               [(''sources'', JInt (int kSources)), (''concurrent_captures'', JInt 1),
                (''connections'', JInt (int (hl_connections hostLimits))),
                (''inflight'', JInt (int (hl_inflight hostLimits))),
                (''request_bytes'', JInt (int (hl_request_bytes hostLimits))),
                (''response_bytes'', JInt (int (hl_response_bytes hostLimits)))])]
      in if describe then JObject
           [(''service'', JString ''camera-source''), (''api_version'', JString ''v1''),
            (''instance_id'', JString (hs_instance_id host)), (''ready'', JBool True),
            (''facts'', JObject ([(''target_id'', JString (hs_target_id host)),
                                  (''service_ref'', ServiceRef host)] @ common))]
         else JObject common)"

definition sourcesPrefix :: string where "sourcesPrefix = ''/v1/media/sources/''"

text \<open>
  What the body of \<open>Dispatch\<close> comes to: a response, an exception, or a call of a source's handler
  with the operation and the parsed input.
\<close>

datatype 'h dispatched = Respond control_response | Throw control_exn | Handle 'h string json

definition route :: "(string \<Rightarrow> json option) \<Rightarrow> control_request \<Rightarrow> 'h host \<Rightarrow> 'h dispatched" where
  "route parse request host =
     (case ParseControlJSON parse (rq_body request) of
        Inl e \<Rightarrow> Throw e
      | Inr input \<Rightarrow>
        (let target = rq_target request;
             path = beforeChar (CHR ''?'') target;
             describe = (rq_method request = ''GET'' \<and> path = ''/v1/describe'')
         in if describe \<and> CHR ''?'' \<in> set target \<and> waitReadyRejected (afterChar (CHR ''?'') target)
            then Throw (InvalidArgument ''describe takes only wait_ready_ms=<0..30000>'')
            else if describe \<or> (rq_method request = ''GET'' \<and> target = ''/v1/media/sources'') then
              (if \<not> jempty input then Throw (InvalidArgument ''discovery does not accept a body'')
               else Respond (JSONResponse (discovery describe host)))
            else if take (length sourcesPrefix) target \<noteq> sourcesPrefix
            then Respond (ControlError 404 ''not_found'' ''camera route not found'')
            else (let rest = drop (length sourcesPrefix) target;
                      i = beforeChar (CHR ''/'') rest;
                      operation = afterChar (CHR ''/'') rest
                  in if operation = [] then Respond (ControlError 404 ''not_found''
                         ''an explicit source domain route is required'')
                     else if \<not> SafeSourceIdentifier i
                     then Throw (InvalidArgument ''invalid camera source_id'')
                     else (case find (\<lambda>s. src_id s = i) (hs_sources host) of
                             Some source \<Rightarrow> (case src_handler source of
                                 Some h \<Rightarrow> Handle h operation input
                               | None \<Rightarrow> Throw (RuntimeError ''bad_function_call''))
                           | None \<Rightarrow>
                               Respond (ControlError 404 ''not_found'' ''camera source not found'')))))"

text \<open>
  \<open>run\<close> is the handler of a source: an exception, if it throws one, and the state it leaves;
  \<open>answer\<close> completes the reply of the request.
\<close>

definition answerException :: "(control_response \<Rightarrow> 's \<Rightarrow> 's) \<Rightarrow> control_exn \<Rightarrow> 's \<Rightarrow> 's" where
  "answerException answer e s =
     (case e of
        InvalidArgument message \<Rightarrow> answer (ControlError 400 ''invalid_argument'' message) s
      | RuntimeError message \<Rightarrow> answer (ControlError 500 ''internal'' message) s)"

definition Dispatch ::
  "(string \<Rightarrow> json option) \<Rightarrow> (control_response \<Rightarrow> 's \<Rightarrow> 's)
     \<Rightarrow> ('h \<Rightarrow> string \<Rightarrow> control_request \<Rightarrow> json \<Rightarrow> 's \<Rightarrow> control_exn option \<times> 's)
     \<Rightarrow> control_request \<Rightarrow> 'h host \<Rightarrow> 's \<Rightarrow> 's" where
  "Dispatch parse answer run request host s =
     (case route parse request host of
        Respond response \<Rightarrow> answer response s
      | Throw e \<Rightarrow> answerException answer e s
      | Handle h operation input \<Rightarrow>
          (case run h operation request input s of
             (None, s') \<Rightarrow> s'
           | (Some e, s') \<Rightarrow> answerException answer e s'))"

section \<open>The table as a bounded map\<close>

definition hostInv :: "'h host \<Rightarrow> bool" where
  "hostInv host \<longleftrightarrow> length (hs_sources host) = kSources
     \<and> distinct (filter (\<lambda>i. i \<noteq> []) (map src_id (hs_sources host)))
     \<and> list_all (\<lambda>s. if src_id s = [] then s = freeSource
                      else SafeSourceIdentifier (src_id s) \<and> src_handler s \<noteq> None) (hs_sources host)"

text \<open>The map from identifiers to handlers that the table stands for.\<close>

definition roster :: "'h host \<Rightarrow> string \<rightharpoonup> 'h" where
  "roster host i =
     (if i = [] then None
      else (case find (\<lambda>s. src_id s = i) (hs_sources host) of
              None \<Rightarrow> None | Some s \<Rightarrow> src_handler s))"

definition entries :: "'h source list \<Rightarrow> (string \<times> 'h) list" where
  "entries xs = map (\<lambda>s. (src_id s, the (src_handler s))) (filter (\<lambda>s. src_id s \<noteq> []) xs)"

lemma entries_simps [simp]:
  "entries [] = []"
  "entries (s # xs) = (if src_id s = [] then [] else [(src_id s, the (src_handler s))]) @ entries xs"
  "entries (xs @ ys) = entries xs @ entries ys"
  by (simp_all add: entries_def)

lemma entries_ids: "map fst (entries xs) = filter (\<lambda>i. i \<noteq> []) (map src_id xs)"
  by (induction xs) auto

lemma entries_length: "length (entries xs) \<le> length xs"
  by (simp add: entries_def)

lemma roster_entries:
  assumes "list_all (\<lambda>s. src_id s \<noteq> [] \<longrightarrow> src_handler s \<noteq> None) (hs_sources host)"
  shows "roster host = map_of (entries (hs_sources host))"
proof
  fix i
  show "roster host i = map_of (entries (hs_sources host)) i"
  proof (cases "i = []")
    case True
    have "[] \<notin> fst ` set (entries xs)" for xs :: "'a source list" by (induction xs) auto
    with True show ?thesis by (simp add: roster_def map_of_eq_None_iff [symmetric] eq_commute [of None])
  next
    case False
    have "(case find (\<lambda>s. src_id s = i) xs of None \<Rightarrow> None | Some s \<Rightarrow> src_handler s)
        = map_of (entries xs) i"
      if "list_all (\<lambda>s. src_id s \<noteq> [] \<longrightarrow> src_handler s \<noteq> None) xs" for xs :: "'a source list"
      using that False by (induction xs) auto
    with assms False show ?thesis by (simp add: roster_def)
  qed
qed

lemma takeFree_Some:
  "takeFree x xs = Some ys \<Longrightarrow> \<exists>as f bs. xs = as @ f # bs \<and> ys = as @ x # bs \<and> src_id f = []"
proof (induction xs arbitrary: ys)
  case (Cons y xs)
  show ?case
  proof (cases "src_id y = []")
    case True
    with Cons.prems show ?thesis by (intro exI [of _ "[]"] exI [of _ y] exI [of _ xs]) auto
  next
    case False
    with Cons.prems obtain zs where zs: "takeFree x xs = Some zs" "ys = y # zs" by auto
    from Cons.IH [OF zs(1)] obtain as f bs
      where "xs = as @ f # bs" "zs = as @ x # bs" "src_id f = []" by blast
    with zs(2) show ?thesis by (intro exI [of _ "y # as"] exI [of _ f] exI [of _ bs]) simp
  qed
qed simp

lemma takeFree_None: "takeFree x xs = None \<longleftrightarrow> length (entries xs) = length xs"
proof (induction xs)
  case (Cons y xs)
  then show ?case using entries_length [of xs] by auto
qed simp

lemma map_of_insert_middle:
  assumes "k \<notin> fst ` set (xs @ ys)"
  shows "map_of (xs @ (k, v) # ys) = (map_of (xs @ ys))(k \<mapsto> v)"
proof -
  have "k \<notin> dom (map_of xs)" using assms unfolding dom_map_of_conv_image_fst by auto
  then show ?thesis by (simp add: map_add_upd_left)
qed

lemma hostInv_roster: "hostInv host \<Longrightarrow> roster host = map_of (entries (hs_sources host))"
  by (rule roster_entries) (auto simp: hostInv_def list_all_iff)

lemma hostInv_distinct: "hostInv host \<Longrightarrow> distinct (map fst (entries (hs_sources host)))"
  by (simp add: hostInv_def entries_ids)

lemma roster_card: "hostInv host \<Longrightarrow> card (dom (roster host)) = length (entries (hs_sources host))"
  by (metis hostInv_roster hostInv_distinct distinct_card dom_map_of_conv_image_fst length_map list.set_map)

lemma roster_None:
  "hostInv host \<Longrightarrow> i \<noteq> [] \<Longrightarrow>
     roster host i = None \<longleftrightarrow> \<not> list_ex (\<lambda>s. src_id s = i) (hs_sources host)"
proof -
  assume inv: "hostInv host" and "i \<noteq> []"
  then have "i \<in> fst ` set (entries xs) \<longleftrightarrow> list_ex (\<lambda>s. src_id s = i) xs" for xs :: "'a source list"
    by (induction xs) auto
  with hostInv_roster [OF inv] show ?thesis by (simp add: map_of_eq_None_iff)
qed

lemma Safe_nonempty: "SafeSourceIdentifier i \<Longrightarrow> i \<noteq> []"
  by (simp add: SafeSourceIdentifier_def)

lemma Register_ok:
  assumes "hostInv host"
  shows "(\<exists>host'. Register i h host = Inr host')
    \<longleftrightarrow> SafeSourceIdentifier i \<and> roster host i = None \<and> card (dom (roster host)) < kSources"
proof (cases "SafeSourceIdentifier i")
  case True
  have "length (entries (hs_sources host)) = length (hs_sources host)
      \<longleftrightarrow> \<not> card (dom (roster host)) < kSources"
    using assms entries_length [of "hs_sources host"] by (auto simp: roster_card hostInv_def)
  moreover have "(\<exists>host'. Register i h host = Inr host') \<longleftrightarrow> roster host i = None
      \<and> takeFree \<lparr>src_id = i, src_handler = Some h\<rparr> (hs_sources host) \<noteq> None"
    using True roster_None [OF assms Safe_nonempty [OF True]]
    by (auto simp: Register_def split: option.split)
  ultimately show ?thesis using True by (simp only: takeFree_None) blast
qed (simp add: Register_def)

lemma Register_Inr:
  assumes "hostInv host" and "Register i h host = Inr host'"
  shows "hostInv host' \<and> roster host' = (roster host)(i \<mapsto> h)"
proof -
  let ?x = "\<lparr>src_id = i, src_handler = Some h\<rparr>"
  from assms(2) have safe: "SafeSourceIdentifier i" and new: "\<not> list_ex (\<lambda>s. src_id s = i) (hs_sources host)"
    and "\<exists>ys. takeFree ?x (hs_sources host) = Some ys \<and> host' = host\<lparr>hs_sources := ys\<rparr>"
    by (auto simp: Register_def split: if_splits option.splits)
  then obtain as f bs where l: "hs_sources host = as @ f # bs" "src_id f = []"
    "host' = host\<lparr>hs_sources := as @ ?x # bs\<rparr>" using takeFree_Some by blast
  have i: "i \<noteq> []" by (rule Safe_nonempty) fact
  have inv: "hostInv host'"
    using assms(1) safe new l i unfolding hostInv_def by (auto simp: list_ex_iff)
  have "roster host' = map_of (entries as @ (i, h) # entries bs)"
    using hostInv_roster [OF inv] l(3) i by simp
  also have "\<dots> = (map_of (entries as @ entries bs))(i \<mapsto> h)"
  proof (rule map_of_insert_middle)
    have "i \<in> fst ` set (entries xs) \<Longrightarrow> list_ex (\<lambda>s. src_id s = i) xs" for xs :: "'a source list"
      using i by (induction xs) (auto split: if_splits)
    from this [of as] this [of bs] new l(1) show "i \<notin> fst ` set (entries as @ entries bs)" by auto
  qed
  also have "map_of (entries as @ entries bs) = roster host"
    using hostInv_roster [OF assms(1)] l(1,2) by simp
  finally show ?thesis using inv by (intro conjI)
qed

lemma Unregister_inv:
  assumes "hostInv host"
  shows "hostInv (Unregister i host) \<and> roster (Unregister i host) = (roster host)(i := None)"
proof -
  let ?free = "\<lambda>s. if src_id s = i then freeSource else s"
  have free: "src_id (freeSource :: 'a source) = []" by (simp add: freeSource_def)
  have ids: "filter (\<lambda>j. j \<noteq> []) (map src_id (map ?free xs))
      = filter (\<lambda>j. j \<noteq> i) (filter (\<lambda>j. j \<noteq> []) (map src_id xs))" for xs :: "'a source list"
    using free by (induction xs) auto
  have "distinct (filter (\<lambda>j. j \<noteq> []) (map src_id (map ?free (hs_sources host))))"
    unfolding ids using assms by - (rule distinct_filter, simp add: hostInv_def)
  then have inv: "hostInv (Unregister i host)"
    using assms free by (auto simp: hostInv_def Unregister_def list_all_iff simp del: map_map)
  have "entries (map ?free xs) = AList.delete i (entries xs)" for xs :: "'a source list"
    using free by (induction xs) auto
  then have "roster (Unregister i host) = map_of (AList.delete i (entries (hs_sources host)))"
    using hostInv_roster [OF inv] by (simp add: Unregister_def)
  with inv hostInv_roster [OF assms] show ?thesis by (simp add: delete_conv')
qed

datatype 'h table_op = RegisterOp string 'h | UnregisterOp string

text \<open>A sensor is loaded or removed; a rejected registration changes nothing.\<close>

fun tableStep :: "'h table_op \<Rightarrow> 'h host \<Rightarrow> 'h host" where
  "tableStep (RegisterOp i h) host =
     (case Register i h host of Inl e \<Rightarrow> host | Inr host' \<Rightarrow> host')"
| "tableStep (UnregisterOp i) host = Unregister i host"

fun mapStep :: "'h table_op \<Rightarrow> (string \<rightharpoonup> 'h) \<Rightarrow> (string \<rightharpoonup> 'h)" where
  "mapStep (RegisterOp i h) m =
     (if SafeSourceIdentifier i \<and> i \<notin> dom m \<and> card (dom m) < kSources then m(i \<mapsto> h) else m)"
| "mapStep (UnregisterOp i) m = m(i := None)"

lemma tableStep_ok:
  assumes "hostInv host"
  shows "hostInv (tableStep x host) \<and> roster (tableStep x host) = mapStep x (roster host)"
proof (cases x)
  case (RegisterOp i h)
  show ?thesis
  proof (cases "Register i h host")
    case (Inl e)
    then show ?thesis using assms RegisterOp Register_ok [OF assms, of i h] by (auto simp: domIff)
  next
    case (Inr host')
    then show ?thesis
      using RegisterOp Register_Inr [OF assms Inr] Register_ok [OF assms, of i h] by (auto simp: domIff)
  qed
next
  case (UnregisterOp i)
  then show ?thesis using Unregister_inv [OF assms] by simp
qed

interpretation table: simulation hostInv roster tableStep mapStep
  by unfold_locales (use tableStep_ok in blast)+

lemma roster_bounded:
  assumes "hostInv host"
  shows "card (dom (roster host)) \<le> kSources"
  using assms entries_length [of "hs_sources host"] by (simp add: roster_card hostInv_def)

text \<open>
  C14: The table of the shared host refines a partial map from identifiers to handlers: whatever
  sensors are loaded and removed, in whatever order, the table stands for the map that the same
  registrations (of a valid, new identifier while fewer than 16 are present) and removals build; it
  never holds more than 16 sources, and never two with the same identifier.
\<close>

theorem source_table_refines_map:
  assumes "hostInv host"
  shows "roster (fold tableStep ops host) = fold mapStep ops (roster host)
    \<and> card (dom (roster (fold tableStep ops host))) \<le> kSources
    \<and> distinct (filter (\<lambda>i. i \<noteq> []) (map src_id (hs_sources (fold tableStep ops host))))"
proof -
  have inv: "hostInv (fold tableStep ops host)" using table.run [OF assms] by blast
  then have "distinct (filter (\<lambda>i. i \<noteq> []) (map src_id (hs_sources (fold tableStep ops host))))"
    by (simp add: hostInv_def)
  with table.run [OF assms, of ops] roster_bounded [OF inv] show ?thesis by blast
qed

section \<open>Requests reach the source they name\<close>

lemma beforeChar_afterChar:
  "c \<in> set s \<Longrightarrow> s = beforeChar c s @ c # afterChar c s"
proof (induction s)
  case (Cons x s)
  then show ?case by (cases "x = c") (auto simp: beforeChar_def afterChar_def)
qed simp

lemma split_at_char:
  assumes "c \<notin> set a"
  shows "beforeChar c (a @ c # b) = a" "afterChar c (a @ c # b) = b"
  using assms by (induction a) (auto simp: beforeChar_def afterChar_def)

lemma afterChar_absent: "c \<notin> set s \<Longrightarrow> afterChar c s = []"
  by (induction s) (auto simp: afterChar_def)

lemma safe_no_slash: "SafeSourceIdentifier i \<Longrightarrow> CHR ''/'' \<notin> set i"
  by (auto simp: SafeSourceIdentifier_def list_all_iff less_eq_char_def)

lemma route_handles:
  "route parse request host = Handle h operation input \<longleftrightarrow>
     (\<exists>i. rq_target request = sourcesPrefix @ i @ CHR ''/'' # operation \<and> SafeSourceIdentifier i
        \<and> operation \<noteq> [] \<and> roster host i = Some h
        \<and> ParseControlJSON parse (rq_body request) = Inr input)" (is "?L \<longleftrightarrow> ?R")
proof
  assume ?L
  obtain v where body: "ParseControlJSON parse (rq_body request) = Inr v"
    using \<open>?L\<close> by (cases "ParseControlJSON parse (rq_body request)") (auto simp: route_def)
  obtain rest where rest: "rest = drop (length sourcesPrefix) (rq_target request)" by simp
  from \<open>?L\<close> have pre: "take (length sourcesPrefix) (rq_target request) = sourcesPrefix"
    and op: "afterChar (CHR ''/'') rest \<noteq> []" and safe: "SafeSourceIdentifier (beforeChar (CHR ''/'') rest)"
    and found: "\<exists>source. find (\<lambda>s. src_id s = beforeChar (CHR ''/'') rest) (hs_sources host) = Some source
      \<and> src_handler source = Some h"
    and out: "operation = afterChar (CHR ''/'') rest" "input = v"
    unfolding route_def body Let_def rest by (auto split: if_splits option.splits)
  from pre have target: "rq_target request = sourcesPrefix @ rest"
    by (metis append_take_drop_id rest)
  from op have "CHR ''/'' \<in> set rest" using afterChar_absent by blast
  note beforeChar_afterChar [OF this]
  moreover have "roster host (beforeChar (CHR ''/'') rest) = Some h"
    using found Safe_nonempty [OF safe] by (auto simp: roster_def)
  ultimately show ?R using target safe op out body by metis
next
  assume ?R
  then obtain i where i: "rq_target request = sourcesPrefix @ i @ CHR ''/'' # operation"
    "SafeSourceIdentifier i" "operation \<noteq> []" "roster host i = Some h"
    "ParseControlJSON parse (rq_body request) = Inr input" by blast
  have "CHR ''?'' \<notin> set sourcesPrefix" by (simp add: sourcesPrefix_def)
  then have path: "beforeChar (CHR ''?'') (rq_target request)
      = sourcesPrefix @ beforeChar (CHR ''?'') (i @ CHR ''/'' # operation)"
    unfolding i(1) beforeChar_def by (subst takeWhile_append2) auto
  have other: "beforeChar (CHR ''?'') (rq_target request) \<noteq> ''/v1/describe''"
    "rq_target request \<noteq> ''/v1/media/sources''"
    by (simp add: path, simp add: sourcesPrefix_def) (simp add: i(1) sourcesPrefix_def)
  have rest: "drop (length sourcesPrefix) (rq_target request) = i @ CHR ''/'' # operation"
    "take (length sourcesPrefix) (rq_target request) = sourcesPrefix"
    by (simp_all add: i(1))
  note parts = split_at_char [OF safe_no_slash [OF i(2)], of operation]
  obtain source where "find (\<lambda>s. src_id s = i) (hs_sources host) = Some source"
    "src_handler source = Some h"
    using i(4) by (auto simp: roster_def split: if_splits option.splits)
  with other i(2,3,5) show ?L
    unfolding route_def by (simp only: i(5) sum.case Let_def rest parts) simp
qed

text \<open>
  C17: A request is handed to a handler exactly when its body is acceptable and its target is the
  sources prefix, a valid identifier, a slash and a non-empty operation, with that identifier in the
  table; it is then the handler registered for it, and the operation is everything that follows.
\<close>

theorem route_handles_iff:
  "route parse request host = Handle h operation input \<longleftrightarrow>
     (\<exists>i. rq_target request = sourcesPrefix @ i @ CHR ''/'' # operation \<and> SafeSourceIdentifier i
        \<and> operation \<noteq> [] \<and> roster host i = Some h
        \<and> ParseControlJSON parse (rq_body request) = Inr input)"
  by (rule route_handles)

text \<open>
  The query of a discovery request is accepted exactly when it is the readiness key with a number
  from 0 to 30000 in its usual decimal notation.
\<close>

theorem waitReadyRejected_iff:
  "waitReadyRejected query \<longleftrightarrow> \<not> (\<exists>n. n \<le> 30000 \<and> query = describeQuery @ decimal n)"
proof -
  obtain digits where d: "digits = (if take (length describeQuery) query = describeQuery
      then drop (length describeQuery) query else [])" by simp
  have query: "query = describeQuery @ digits" if "digits \<noteq> []"
    using that by (metis append_take_drop_id d)
  have "waitReadyRejected query \<longleftrightarrow>
      \<not> (canonicalDecimal digits \<and> length digits \<le> 5 \<and> decimalValue digits \<le> 30000)"
    unfolding waitReadyRejected_def canonicalDecimal_def Let_def d [symmetric]
    by (cases digits) auto
  moreover have "canonicalDecimal digits \<and> length digits \<le> 5 \<and> decimalValue digits \<le> 30000
      \<longleftrightarrow> (\<exists>n. n \<le> 30000 \<and> query = describeQuery @ decimal n)" (is "?A \<longleftrightarrow> ?B")
  proof
    assume A: ?A
    then have "query = describeQuery @ decimal (decimalValue digits)"
      using query by (simp add: decimal_decimalValue) (auto simp: canonicalDecimal_def)
    with A show ?B by blast
  next
    assume ?B
    then obtain n where n: "n \<le> 30000" "query = describeQuery @ decimal n" by blast
    then have "digits = decimal n" by (simp add: d)
    with n decimal_length [of n 5] show ?A by simp
  qed
  ultimately show ?thesis by blast
qed

section \<open>Concrete runs\<close>

definition demoHost :: "nat host" where
  "demoHost = \<lparr>hs_sources = replicate kSources freeSource, hs_path = ''/run/xgc'', hs_instance_id = ''i'',
     hs_target_id = ''t'', hs_capture_reserved = False, hs_stopping = False\<rparr>"

theorem source_table_refines_map_witness:
  "roster (fold tableStep [RegisterOp ''front'' 7, RegisterOp ''front'' 8, RegisterOp ''no/slash'' 9,
     RegisterOp ''rear'' 3, UnregisterOp ''front''] demoHost) = [''rear'' \<mapsto> 3]"
proof -
  have "hostInv demoHost"
    by (simp add: hostInv_def demoHost_def freeSource_def kSources_def list_all_iff)
  moreover have "roster demoHost = Map.empty"
    by (auto simp: roster_def demoHost_def freeSource_def kSources_def fun_eq_iff numeral_eq_Suc)
  ultimately show ?thesis
    using source_table_refines_map [of demoHost "[RegisterOp ''front'' 7, RegisterOp ''front'' 8,
        RegisterOp ''no/slash'' 9, RegisterOp ''rear'' 3, UnregisterOp ''front'']"]
    by (simp add: kSources_def SafeSourceIdentifier_def less_eq_char_def)
qed

end
