(* ===== verification/Camera_Control.thy ===== *)
theory Camera_Control
  imports Encoder_Time Source_Control
begin

text \<open>
  The control side of a camera sensor: the handler of its requests, the fixed slots that hold what
  is pending (one mutation, four observers, one capture), the receipts, and the flush that answers
  them when the render thread has acted. JSON text, the HTTP replies and the clock are parameters;
  completions are logged.
\<close>

section \<open>State\<close>

text \<open>
  A reply object is a number; times are those of the control clock. \<open>pluginObject\<close> identifies the plugin,
  which the callbacks it registers capture.
\<close>

record pending_control =
  pc_reply :: nat
  pc_requestID :: string
  pc_operation :: string
  pc_deadline :: int
  pc_revision :: u64
  pc_calibration :: bool

record control_watcher =
  cw_reply :: nat
  cw_deadline :: int
  cw_after :: u64

record ctl = enc +
  rtpHost :: string
  rtpPort :: int
  controlSocketPath :: string
  rosCameraInfoTopic :: string
  pluginObject :: nat
  controlHost :: "nat host"
  controlRegistered :: bool
  pendingControl :: "pending_control option"
  controlWatchers :: "control_watcher option list"
  controlReceipts :: "json list"
  nextControlReceipt :: nat
  desiredRevision :: u64
  appliedRevision :: u64
  controlEventRevision :: u64
  desiredConfig :: json
  appliedConfig :: json
  appliedTimeNanoseconds :: int
  captureReply :: "nat option"
  captureRequestID :: string
  captureDeadline :: int
  controlReplies :: "(nat \<times> control_response) list"

definition kReceipts :: nat where "kReceipts = 32"
definition kWatchers :: nat where "kWatchers = 4"

definition completeReply :: "nat \<Rightarrow> control_response \<Rightarrow> 'z ctl_scheme \<Rightarrow> 'z ctl_scheme" where
  "completeReply reply response s = s\<lparr>controlReplies := controlReplies s @ [(reply, response)]\<rparr>"

section \<open>What the source reports\<close>

definition RequireFields :: "json \<Rightarrow> string list \<Rightarrow> control_exn option" where
  "RequireFields input allowed =
     (case find (\<lambda>name. name \<notin> set allowed) (map fst (jfields input)) of
        None \<Rightarrow> None
      | Some name \<Rightarrow> Some (InvalidArgument (''unknown camera request field: '' @ name)))"

text \<open>The status of the ROS master is library code; the printed state names are fixed.\<close>

record ros_master =
  rm_state :: string
  rm_uri :: string
  rm_run_id :: string
  rm_pid :: int

definition lifecycleNames :: "string list" where
  "lifecycleNames = [''idle'', ''starting'', ''active'', ''stopping'', ''faulted'']"

definition strings :: "string list \<Rightarrow> json" where
  "strings xs = JArray (map JString xs)"

definition nat32 :: "u32 \<Rightarrow> json" where "nat32 w = JInt (uint w)"
definition nat64 :: "u64 \<Rightarrow> json" where "nat64 w = JInt (uint w)"

definition CameraStatus :: "ros_master \<Rightarrow> 'z ctl_scheme \<Rightarrow> json" where
  "CameraStatus master s = JObject (
     [(''ok'', JBool True),
      (''state'', JString (lifecycleNames ! nativeLifecycleState s)),
      (''desired_active'', jget ''active'' (desiredConfig s)),
      (''applied_active'', JBool (nativeAppliedActive s)),
      (''configuration_revision'', nat64 (desiredRevision s)),
      (''desired_revision'', nat64 (desiredRevision s)),
      (''applied_revision'', nat64 (appliedRevision s)),
      (''persisted_revision'', JNull),
      (''last_error'', JString (if nativeLifecycleState s = 4
          then ''native encoder did not accept a rendered frame'' else [])),
      (''native'', JObject
        [(''encoder_ready'', JBool (encoderResourcesActive s)),
         (''rtp_in_flight'', JBool (rtpInFlight s)),
         (''effective_time'', JObject [(''nanoseconds'', JInt (appliedTimeNanoseconds s)),
            (''clock_domain'', JString ''simulation'')])]),
      (''source_id'', JString (sourceID s)), (''service_ref'', ServiceRef (controlHost s)),
      (''protocol_version'', JInt 1), (''codec'', JString ''H264''),
      (''rtp_payload_type'', JInt (uint kH264PayloadType)), (''rtp_clock_rate'', JInt (int kRtpClockRate)),
      (''rtp_host'', JString (rtpHost s)), (''rtp_port'', JInt (rtpPort s)),
      (''width'', nat32 (streamWidth s)), (''height'', nat32 (streamHeight s)),
      (''fps'', JReal (streamFrameRate s)), (''frame_id'', JString (frameID s)),
      (''timestamp_clock_domain'', JString ''simulation''),
      (''snapshot_jpeg_policy'', JString (SnapshotJpegPolicyName (snapshotJpegPolicy s))),
      (''snapshot_jpeg_backend'', JString (bd_backend (snapshotJpegBackend s))),
      (''snapshot_jpeg_hardware_state'', JString (bd_hardwareState (snapshotJpegBackend s))),
      (''capabilities'', strings ([''start'', ''stop'', ''request-keyframe'', ''capture'',
          ''fresh-snapshot'', ''config'', ''observe'', ''receipts'']
        @ (if rosPublishingEnabled s then [''calibration-metadata''] else []))),
      (''camera_info_topic'', JString (rosCameraInfoTopic s)),
      (''published_calibration_revision'', nat64 (publishedCalibrationRevision s)),
      (''native_lifecycle_owner'', JString ''simulation-v1''),
      (''desired'', desiredConfig s), (''applied'', appliedConfig s),
      (''event_revision'', nat64 (controlEventRevision s)),
      (''pending'', JBool (pendingControl s \<noteq> None))]
     @ (if nextControlReceipt s > 0
        then [(''last_receipt'', controlReceipts s ! ((nextControlReceipt s - 1) mod kReceipts))]
        else [])
     @ [(''ros_master'', JObject [(''state'', JString (rm_state master)),
            (''uri'', JString (rm_uri master)), (''run_id'', JString (rm_run_id master)),
            (''pid'', JInt (rm_pid master))]),
        (''ros_consumers_active'', JBool (rosConsumersActive s)),
        (''native_sensor_active'', JBool (nativeSensorActive s)),
        (''rtp_requested_active'', JBool (desiredActive s)),
        (''configuration_schema'', JObject
          [(''schema_version'', JInt 1),
           (''live_fields'', strings ([''jpeg_quality'']
              @ (if rosPublishingEnabled s then [''calibration''] else []))),
           (''persist_supported'', JBool False),
           (''restart_required_fields'', strings [''width'', ''height'', ''fps'', ''frame_id'',
              ''rtp_host'', ''rtp_port'', ''bitrate'', ''snapshot_jpeg_backend''])]),
        (''limits'', JObject
          [(''pending_mutations_per_source'', JInt 1), (''concurrent_captures_per_host'', JInt 1),
           (''receipt_count'', JInt 32), (''observers_per_source'', JInt 4),
           (''capture_bytes'', JInt 67108864), (''jpeg_bytes'', JInt 33554432),
           (''rgb_bytes'', JInt 26542080), (''capture_timeout_ms'', JInt 4000)]),
        (''storage'', JObject [(''persistent_writes'', JArray []),
           (''runtime_endpoint'', JString (controlSocketPath s))])])"

definition CameraDescriptor :: "'z ctl_scheme \<Rightarrow> json" where
  "CameraDescriptor s = JObject
     [(''ok'', JBool True), (''protocolVersion'', JInt 1), (''sourceId'', JString (sourceID s)),
      (''codec'', JString ''H264''), (''rtpPayloadType'', JInt (uint kH264PayloadType)),
      (''rtpClockRate'', JInt (int kRtpClockRate)), (''rtpHost'', JString (rtpHost s)),
      (''rtpPort'', JInt (rtpPort s)), (''width'', nat32 (streamWidth s)),
      (''height'', nat32 (streamHeight s)), (''fps'', JReal (streamFrameRate s)),
      (''frameId'', JString (frameID s)), (''keyframeRequestSupported'', JBool True),
      (''keyframePolicy'', JString ''native-force-idr''),
      (''capabilities'', strings ([''start'', ''stop'', ''request-keyframe'', ''capture'',
          ''fresh-snapshot'', ''config'']
        @ (if rosPublishingEnabled s then [''calibration-metadata''] else []))),
      (''snapshotJpegPolicy'', JString (SnapshotJpegPolicyName (snapshotJpegPolicy s))),
      (''snapshotJpegBackend'', JString (bd_backend (snapshotJpegBackend s))),
      (''snapshotJpegHardwareState'', JString (bd_hardwareState (snapshotJpegBackend s)))]"

definition CameraConfiguration :: "ros_master \<Rightarrow> 'z ctl_scheme \<Rightarrow> json" where
  "CameraConfiguration master s =
     jset ''mutable_fields'' (strings ([''jpeg_quality'']
         @ (if rosPublishingEnabled s then [''calibration''] else [])))
       (jset ''persistence'' (JString ''ephemeral'') (CameraStatus master s))"

section \<open>Receipts\<close>

definition RememberReceipt ::
  "string \<Rightarrow> string \<Rightarrow> string \<Rightarrow> string \<Rightarrow> 'z ctl_scheme \<Rightarrow> json \<times> 'z ctl_scheme" where
  "RememberReceipt requestID operation stage error s =
     (let event = controlEventRevision s + 1;
          receipt = JObject (
            [(''operation_id'', JString requestID), (''request_id'', JString requestID),
             (''operation'', JString operation), (''stage'', JString stage),
             (''desired_revision'', nat64 (desiredRevision s)),
             (''applied_revision'', nat64 (appliedRevision s)), (''persisted_revision'', JNull),
             (''event_revision'', nat64 event),
             (''effects'', JObject [(''applied'', JBool (stage = ''completed''))])]
            @ (if error = [] then [] else
                [(''error'', JString error),
                 (''failure_stage'', JString (if operation = ''capture'' then ''capture'' else ''apply''))]))
      in (receipt, s\<lparr>controlEventRevision := event,
            controlReceipts := (controlReceipts s)[nextControlReceipt s mod kReceipts := receipt],
            nextControlReceipt := nextControlReceipt s + 1\<rparr>))"

definition receiptNamed :: "string \<Rightarrow> string \<Rightarrow> 'z ctl_scheme \<Rightarrow> json option" where
  "receiptNamed key identifier s =
     find (\<lambda>receipt. asString (jget key receipt) = identifier) (controlReceipts s)"

section \<open>Requests\<close>

text \<open>The result is the exception that is thrown, before any change, or the new state.\<close>

definition handleReceipt :: "string \<Rightarrow> nat \<Rightarrow> 'z ctl_scheme \<Rightarrow> 'z ctl_scheme" where
  "handleReceipt identifier reply s =
     (case receiptNamed ''operation_id'' identifier s of
        Some receipt \<Rightarrow> completeReply reply (JSONResponse receipt) s
      | None \<Rightarrow> completeReply reply
          (ControlError 404 ''not_found'' ''receipt has expired or was not accepted'') s)"

fun parseDigits :: "u64 \<Rightarrow> string \<Rightarrow> u64 option" where
  "parseDigits w [] = Some w"
| "parseDigits w (c # cs) =
     (if \<not> isDigit c \<or> w > (- 1 - of_nat (digitValue c)) div 10 then None
      else parseDigits (w * 10 + of_nat (digitValue c)) cs)"

definition parseRevision :: "string \<Rightarrow> u64 option" where
  "parseRevision sequence =
     (if sequence = [] \<or> length sequence > 20 \<or> (length sequence > 1 \<and> sequence ! 0 = CHR ''0'')
      then None else parseDigits 0 sequence)"

text \<open>The first empty slot takes the watcher.\<close>

fun takeSlot :: "'a \<Rightarrow> 'a option list \<Rightarrow> 'a option list option" where
  "takeSlot x [] = None"
| "takeSlot x (None # ys) = Some (Some x # ys)"
| "takeSlot x (Some y # ys) = map_option ((#) (Some y)) (takeSlot x ys)"

definition handleObserve ::
  "ros_master \<Rightarrow> string \<Rightarrow> control_request \<Rightarrow> nat \<Rightarrow> 'z ctl_scheme \<Rightarrow> control_exn + 'z ctl_scheme" where
  "handleObserve master sequence request reply s =
     (case parseRevision sequence of
        None \<Rightarrow> Inl (InvalidArgument ''invalid observation revision'')
      | Some w \<Rightarrow> Inr (
          if w > controlEventRevision s then completeReply reply
            (ControlError 409 ''conflict'' ''observation revision is ahead of provider'') s
          else if w < controlEventRevision s then completeReply reply (JSONResponse (CameraStatus master s)) s
          else (case takeSlot \<lparr>cw_reply = reply, cw_deadline = rq_deadline request, cw_after = w\<rparr>
                       (controlWatchers s) of
                  Some watchers \<Rightarrow> s\<lparr>controlWatchers := watchers\<rparr>
                | None \<Rightarrow> completeReply reply
                    (ControlError 429 ''resource_exhausted'' ''camera observers are full'') s)))"

definition optionalBool :: "string \<Rightarrow> bool \<Rightarrow> json \<Rightarrow> bool" where
  "optionalBool field fallback input =
     (if isMember field input then asBool (jget field input) else fallback)"

text \<open>\<open>now\<close> is the control clock; the capture gets at most four seconds.\<close>

definition captureArguments :: "json \<Rightarrow> control_exn option" where
  "captureArguments input =
     (case RequireFields input [''snapshotId'', ''includeRgb'', ''requireFresh'', ''requestKeyframe''] of
        Some e \<Rightarrow> Some e
      | None \<Rightarrow>
          (case find (\<lambda>field. isMember field input \<and> \<not> isBool (jget field input))
                  [''includeRgb'', ''requireFresh'', ''requestKeyframe''] of
             Some field \<Rightarrow> Some (InvalidArgument (field @ '' must be a boolean''))
           | None \<Rightarrow>
               if isMember ''snapshotId'' input \<and> (\<not> isString (jget ''snapshotId'' input)
                    \<or> \<not> SafeSourceIdentifier (asString (jget ''snapshotId'' input)))
               then Some (InvalidArgument ''snapshotId must be a stable source identifier'')
               else None))"

definition handleCapture ::
  "int \<Rightarrow> control_request \<Rightarrow> json \<Rightarrow> nat \<Rightarrow> 'z ctl_scheme \<Rightarrow> control_exn + 'z ctl_scheme" where
  "handleCapture now request input reply s =
     (if receiptNamed ''request_id'' (rq_request_id request) s \<noteq> None
      then Inr (completeReply reply
        (ControlError 409 ''conflict'' ''request_id was already used; read its receipt'') s)
      else (case captureArguments input of
        Some e \<Rightarrow> Inl e
      | None \<Rightarrow>
        (let requestKeyframe = optionalBool ''requestKeyframe'' False input in
         if requestKeyframe \<and> \<not> nativeAppliedActive s
         then Inr (completeReply reply
           (ControlError 409 ''conflict'' ''native force-IDR requires an active encoder'') s)
         else (case ReserveCapture (controlHost s) of
           (False, host) \<Rightarrow> Inr (completeReply reply
             (ControlError 429 ''resource_exhausted'' ''camera capture slot is busy'') s)
         | (True, host) \<Rightarrow>
             (let s1 = s\<lparr>controlHost := host\<rparr>;
                  identifier = (if isMember ''snapshotId'' input then asString (jget ''snapshotId'' input)
                                else rq_request_id request);
                  s2 = armSnapshot identifier (optionalBool ''includeRgb'' True input) requestKeyframe s1;
                  s3 = (if captureKeyframeGeneration s2 \<noteq> 0
                        then s2\<lparr>nativeCaptureKeyframePending := captureKeyframeGeneration s2,
                                forceKeyframe := True\<rparr> else s2)
              in Inr (s3\<lparr>captureSlotHeld := True, captureReply := Some reply,
                         captureRequestID := rq_request_id request,
                         captureDeadline := min (rq_deadline request) (now + 4000000000)\<rparr>))))))"

section \<open>Mutations\<close>

text \<open>The metadata of a calibration request; the last component of a model is its coefficient count.\<close>

definition distortionModel :: "string \<Rightarrow> (int \<times> nat) option" where
  "distortionModel model =
     (if model = ''plumb_bob'' then Some (0, 5)
      else if model = ''rational_polynomial'' then Some (1, 8)
      else if model = ''equidistant'' then Some (2, 4)
      else None)"

definition parseCalibration :: "json \<Rightarrow> 'z ctl_scheme \<Rightarrow> control_exn + calibration_metadata" where
  "parseCalibration calibration s =
     (if \<not> isObject calibration then Inl (InvalidArgument ''calibration must be an object'')
      else (case RequireFields calibration
             [''scope'', ''model'', ''width'', ''height'', ''camera_matrix'', ''distortion''] of
        Some e \<Rightarrow> Inl e
      | None \<Rightarrow>
        if \<not> isString (jget ''scope'' calibration) \<or> \<not> isString (jget ''model'' calibration)
           \<or> asString (jget ''scope'' calibration) \<noteq> ''calibration-metadata''
           \<or> \<not> isUInt32 (jget ''width'' calibration) \<or> \<not> isUInt32 (jget ''height'' calibration)
           \<or> asInt (jget ''width'' calibration) \<noteq> uint (streamWidth s)
           \<or> asInt (jget ''height'' calibration) \<noteq> uint (streamHeight s)
        then Inl (InvalidArgument ''calibration scope/size must match the native source'')
        else (case distortionModel (asString (jget ''model'' calibration)) of
          None \<Rightarrow> Inl (InvalidArgument ''unsupported calibration distortion model'')
        | Some (model, count) \<Rightarrow>
          (case (elements (jget ''camera_matrix'' calibration), elements (jget ''distortion'' calibration)) of
             (Some matrix, Some distortion) \<Rightarrow>
               if length matrix \<noteq> 9 \<or> length distortion \<noteq> count
               then Inl (InvalidArgument ''calibration matrix/distortion dimensions differ from its model'')
               else (case (those (map asReal matrix), those (map asReal distortion)) of
                  (Some m, Some d) \<Rightarrow>
                    if m ! 0 \<le> 0 \<or> m ! 4 \<le> 0 \<or> m ! 6 \<noteq> 0 \<or> m ! 7 \<noteq> 0 \<or> m ! 8 \<noteq> 1
                    then Inl (InvalidArgument
                      ''calibration camera matrix must have positive focal lengths and homogeneous bottom row'')
                    else Inr \<lparr>cal_revision = 1, cal_width = streamWidth s, cal_height = streamHeight s,
                      cal_model = model, cal_distortionCount = count, cal_matrix = m,
                      cal_distortion = d @ replicate (8 - count) 0\<rparr>
                | _ \<Rightarrow> Inl (InvalidArgument ''calibration coefficients must be finite numbers''))
           | _ \<Rightarrow> Inl (InvalidArgument
               ''calibration matrix/distortion dimensions differ from its model'')))))"

text \<open>
  The result of reading a mutation: an exception, a response, or the desired configuration with the
  calibration record.
\<close>

datatype mutation = Rejected control_exn | Refused control_response
  | Accepted json "calibration_metadata option"

definition readConfig :: "json \<Rightarrow> 'z ctl_scheme \<Rightarrow> mutation" where
  "readConfig config s =
     (if \<not> isObject config \<or> jempty config
      then Rejected (InvalidArgument ''config must be a nonempty object'')
      else (case RequireFields config [''jpeg_quality'', ''calibration'', ''rtp_host'', ''rtp_port'', ''bitrate''] of
        Some e \<Rightarrow> Rejected e
      | None \<Rightarrow>
        (case find (\<lambda>field. isMember field config) [''rtp_host'', ''rtp_port'', ''bitrate''] of
          Some field \<Rightarrow> Refused (ControlError 409 ''restart_required''
            (field @ '' is an authored startup binding''))
        | None \<Rightarrow>
          (let quality = jget ''jpeg_quality'' config;
               calibration = jget ''calibration'' config;
               desired = (if isMember ''jpeg_quality'' config
                          then jset ''jpeg_quality'' quality (desiredConfig s) else desiredConfig s)
           in if isMember ''jpeg_quality'' config \<and> \<not> (isInt32 quality \<and> 50 \<le> asInt quality
                  \<and> asInt quality \<le> 100)
              then Rejected (InvalidArgument ''jpeg_quality must be 50 through 100'')
              else if \<not> isMember ''calibration'' config then Accepted desired None
              else if \<not> rosPublishingEnabled s
              then Refused (ControlError 503 ''unavailable'' ''CameraInfo data publication is disabled'')
              else (case parseCalibration calibration s of
                      Inl e \<Rightarrow> Rejected e
                    | Inr metadata \<Rightarrow>
                        Accepted (jset ''calibration'' calibration desired) (Some metadata))))))"

definition operationKind :: "string \<Rightarrow> nat" where
  "operationKind operation =
     (if operation = ''start'' then 1 else if operation = ''stop'' then 2
      else if operation = ''request-keyframe'' then 3 else 0)"

text \<open>The end of the handler, once the mutation is accepted.\<close>

definition acceptMutation ::
  "string \<Rightarrow> control_request \<Rightarrow> json \<Rightarrow> calibration_metadata option \<Rightarrow> nat
     \<Rightarrow> 'z ctl_scheme \<Rightarrow> 'z ctl_scheme" where
  "acceptMutation operation request desired metadata reply s =
     (let revision = desiredRevision s + 1;
          kind = operationKind operation;
          stamped = map_option (\<lambda>m. m\<lparr>cal_revision := revision\<rparr>) metadata;
          s1 = s\<lparr>desiredRevision := revision, desiredConfig := desired,
                 nativeCommand := Some
                   \<lparr>nc_revision = revision,
                    nc_active = (if kind = 0 then desiredActive s else asBool (jget ''active'' desired)),
                    nc_jpegQuality = asInt (jget ''jpeg_quality'' desired),
                    nc_keyframe = (operation = ''request-keyframe''), nc_calibration = stamped,
                    nc_kind = kind\<rparr>\<rparr>;
          s2 = (if kind = 1 then s1\<lparr>nativeLifecycleState := 1\<rparr> else s1);
          s3 = (if kind = 2 then s2\<lparr>nativeLifecycleState := 3\<rparr> else s2)
      in s3\<lparr>pendingControl := Some \<lparr>pc_reply = reply, pc_requestID = rq_request_id request,
              pc_operation = operation, pc_deadline = rq_deadline request, pc_revision = revision,
              pc_calibration = (metadata \<noteq> None)\<rparr>\<rparr>)"

definition mutationArguments :: "string \<Rightarrow> json \<Rightarrow> mutation option" where
  "mutationArguments operation input =
     (case RequireFields input
             (if operation = ''config'' then [''expected_revision'', ''persist'', ''config''] else []) of
        Some e \<Rightarrow> Some (Rejected e)
      | None \<Rightarrow>
        if isMember ''persist'' input \<and> \<not> isBool (jget ''persist'' input)
        then Some (Rejected (InvalidArgument ''persist must be a boolean''))
        else if optionalBool ''persist'' False input
        then Some (Refused (ControlError 400 ''invalid_argument''
          ''Gazebo camera configuration is ephemeral; persist is unsupported''))
        else if operation = ''config'' \<and> \<not> isMember ''expected_revision'' input
        then Some (Rejected (InvalidArgument ''expected_revision is required for config''))
        else if isMember ''expected_revision'' input \<and> \<not> isUInt64 (jget ''expected_revision'' input)
        then Some (Rejected (InvalidArgument ''expected_revision must be an unsigned integer''))
        else None)"

definition handleMutation ::
  "string \<Rightarrow> control_request \<Rightarrow> json \<Rightarrow> nat \<Rightarrow> 'z ctl_scheme \<Rightarrow> control_exn + 'z ctl_scheme" where
  "handleMutation operation request input reply s =
     (let conclude = (\<lambda>m. case m of
            Rejected e \<Rightarrow> Inl e
          | Refused response \<Rightarrow> Inr (completeReply reply response s)
          | Accepted desired metadata \<Rightarrow>
              Inr (acceptMutation operation request desired metadata reply s))
      in case mutationArguments operation input of
           Some m \<Rightarrow> conclude m
         | None \<Rightarrow>
           if isMember ''expected_revision'' input
              \<and> asInt (jget ''expected_revision'' input) \<noteq> uint (desiredRevision s)
           then conclude (Refused (ControlError 409 ''conflict'' ''camera configuration revision differs''))
           else if pendingControl s \<noteq> None
           then conclude (Refused (ControlError 429 ''resource_exhausted''
             ''camera native mutation slot is busy''))
           else if operation = ''request-keyframe'' \<and> \<not> nativeAppliedActive s
           then conclude (Refused (ControlError 409 ''conflict''
             ''native force-IDR requires an active encoder''))
           else if receiptNamed ''request_id'' (rq_request_id request) s \<noteq> None
           then conclude (Refused (ControlError 409 ''conflict''
             ''request_id was already used; read its receipt''))
           else if operation = ''config'' then conclude (readConfig (jget ''config'' input) s)
           else conclude (Accepted
             (if operation \<noteq> ''request-keyframe''
              then jset ''active'' (JBool (operation = ''start'')) (desiredConfig s)
              else desiredConfig s) None))"

definition HandleControlRequest ::
  "ros_master \<Rightarrow> int \<Rightarrow> string \<Rightarrow> control_request \<Rightarrow> json \<Rightarrow> nat \<Rightarrow> 'z ctl_scheme
     \<Rightarrow> control_exn + 'z ctl_scheme" where
  "HandleControlRequest master now operation request input reply s =
     (let get = (rq_method request = ''GET''); post = (rq_method request = ''POST'') in
      if get \<and> (operation = ''describe'' \<or> operation = ''status'' \<or> operation = ''config'') then
        (case RequireFields input [] of
           Some e \<Rightarrow> Inl e
         | None \<Rightarrow> Inr (completeReply reply (JSONResponse
             (if operation = ''describe'' then CameraDescriptor s
              else if operation = ''config'' then CameraConfiguration master s
              else CameraStatus master s)) s))
      else if get \<and> take 9 operation = ''receipts/'' then
        (case RequireFields input [] of
           Some e \<Rightarrow> Inl e
         | None \<Rightarrow> Inr (handleReceipt (drop 9 operation) reply s))
      else if get \<and> take 8 operation = ''observe/'' then
        (case RequireFields input [] of
           Some e \<Rightarrow> Inl e
         | None \<Rightarrow> handleObserve master (drop 8 operation) request reply s)
      else if post \<and> operation = ''capture'' then handleCapture now request input reply s
      else if (post \<and> (operation = ''start'' \<or> operation = ''stop'' \<or> operation = ''request-keyframe''))
              \<or> (rq_method request = ''PATCH'' \<and> operation = ''config'')
      then handleMutation operation request input reply s
      else Inr (completeReply reply
        (ControlError 404 ''not_found'' ''camera route or method not supported'') s))"

section \<open>The flush\<close>

text \<open>
  \<open>cancelled\<close> tells which replies the client has given up, \<open>commandLocked\<close> is the outcome of the
  \<open>try_lock\<close> of \<open>nativeCommandMutex_\<close>.
\<close>

definition failPending :: "string \<Rightarrow> control_response \<Rightarrow> pending_control \<Rightarrow> 'z ctl_scheme \<Rightarrow> 'z ctl_scheme" where
  "failPending error response p s =
     (completeReply (pc_reply p) response
        (snd (RememberReceipt (pc_requestID p) (pc_operation p) ''failed'' error s)))
       \<lparr>pendingControl := None\<rparr>"

definition completePending :: "ros_master \<Rightarrow> pending_control \<Rightarrow> 'z ctl_scheme \<Rightarrow> 'z ctl_scheme" where
  "completePending master p s =
     (let s1 = s\<lparr>appliedRevision := pc_revision p,
                 appliedConfig := jset ''active'' (JBool (nativeAppliedActive s)) (desiredConfig s),
                 appliedTimeNanoseconds := nativeAppliedTime s, pendingControl := None\<rparr>
      in case RememberReceipt (pc_requestID p) (pc_operation p) ''completed'' [] s1 of
           (receipt, s2) \<Rightarrow>
             (let r1 = jset ''receipt'' receipt (CameraConfiguration master s2);
                  r2 = (if pc_operation p = ''start'' \<or> pc_operation p = ''stop''
                        then jset ''completion'' (JString ''applied'')
                               (jset ''active'' (JBool (nativeAppliedActive s2)) r1)
                        else r1);
                  r3 = (if pc_operation p = ''request-keyframe''
                        then jset ''completion'' (JString ''applied'') r2 else r2)
              in completeReply (pc_reply p) (JSONResponse r3) s2))"

definition flushPending ::
  "ros_master \<Rightarrow> int \<Rightarrow> (nat \<Rightarrow> bool) \<Rightarrow> bool \<Rightarrow> 'z ctl_scheme \<Rightarrow> 'z ctl_scheme" where
  "flushPending master now cancelled commandLocked s =
     (case pendingControl s of
        None \<Rightarrow> s
      | Some p \<Rightarrow>
          if nativeFailedRevision s = pc_revision p
          then failPending ''native encoder did not accept a rendered frame''
                 (ControlError 503 ''unavailable'' ''native encoder did not accept a rendered frame'') p s
          else if nativeAppliedRevision s = pc_revision p
               \<and> (\<not> pc_calibration p \<or> publishedCalibrationRevision s = pc_revision p)
          then completePending master p s
          else if cancelled (pc_reply p) \<or> now \<ge> pc_deadline p then
            (case nativeCommand s of
               Some command \<Rightarrow>
                 if commandLocked \<and> nc_revision command = pc_revision p
                 then failPending ''native application deadline exceeded''
                        (ControlError 504 ''deadline_exceeded'' ''native application deadline exceeded'')
                        p (s\<lparr>nativeCommand := None\<rparr>)
                 else s
             | None \<Rightarrow> s)
          else s)"

text \<open>
  The answer of a capture. \<open>printJson\<close> is the JSON printer and \<open>identifier\<close> the new identifier of
  the boundary.
\<close>

definition ascii :: "string \<Rightarrow> bytes" where "ascii s = map of_char s"

definition crlf :: bytes where "crlf = [13, 10]"

definition appendPart :: "bytes \<Rightarrow> string \<Rightarrow> string \<Rightarrow> bytes \<Rightarrow> bytes" where
  "appendPart boundary name type content =
     ascii ''--'' @ boundary @ crlf @ ascii ''Content-Type: '' @ ascii type @ crlf
     @ ascii ''Content-Disposition: inline; name='' @ [34] @ ascii name @ [34] @ crlf @ crlf
     @ content @ crlf"

definition captureMetadata :: "snapshot_result \<Rightarrow> json \<Rightarrow> 'z ctl_scheme \<Rightarrow> json" where
  "captureMetadata response receipt s = JObject (
     [(''ok'', JBool True), (''snapshotId'', JString (sn_id response)),
      (''sourceId'', JString (sourceID s)), (''frameId'', JString (frameID s)),
      (''frameSequence'', nat64 (sn_frameSequence response)),
      (''timestampNanoseconds'', JInt (sn_timestampNanoseconds response)),
      (''timestampClockDomain'', JString ''simulation''),
      (''width'', nat32 (sn_width response)), (''height'', nat32 (sn_height response)),
      (''pixelFormat'', JString ''rgb8''), (''jpegBytes'', JInt (int (length (sn_jpeg response)))),
      (''rgbBytes'', JInt (int (length (sn_rgb response)))),
      (''jpegBackend'', JString (sn_jpegBackend response)),
      (''jpegReadback'', JString (sn_jpegReadback response)),
      (''jpegReadbackMilliseconds'', JReal (sn_jpegReadbackMilliseconds response)),
      (''jpegEncodeMilliseconds'', JReal (sn_jpegEncodeMilliseconds response)),
      (''calibrationState'', JString (if sn_calibrationValid response then ''available'' else ''unavailable''))]
     @ (if sn_calibrationValid response then
          [(''calibrationSource'', JString ''native-projection''),
           (''cameraMatrix'', JArray (map JReal (sn_cameraMatrix response))),
           (''distortion'', JArray (map JReal (sn_distortion response)))] else [])
     @ (if sn_jpegFallbackReason response \<noteq> []
        then [(''jpegFallbackReason'', JString (sn_jpegFallbackReason response))] else [])
     @ (if sn_renderPoseValid response then
          [(''renderPose'', JObject
             [(''position'', JObject (zip [''x'', ''y'', ''z''] (map JReal (sn_renderPosition response)))),
              (''orientation'', JObject (zip [''x'', ''y'', ''z'', ''w'']
                 (map JReal (sn_renderOrientation response))))]),
           (''poseFrameId'', JString (sn_poseFrameID response))] else [])
     @ [(''receipt'', receipt)])"

definition captureBody :: "(json \<Rightarrow> string) \<Rightarrow> string \<Rightarrow> snapshot_result \<Rightarrow> json \<Rightarrow> bytes" where
  "captureBody printJson boundary response metadata =
     appendPart (ascii boundary) ''metadata'' ''application/json'' (ascii (printJson metadata))
     @ appendPart (ascii boundary) ''jpeg'' ''image/jpeg'' (sn_jpeg response)
     @ (if sn_rgb response = [] then []
        else appendPart (ascii boundary) ''rgb'' ''application/octet-stream'' (sn_rgb response))
     @ ascii ''--'' @ ascii boundary @ ascii ''--'' @ crlf"

definition oversizedCapture :: "snapshot_result \<Rightarrow> bool" where
  "oversizedCapture response \<longleftrightarrow>
     length (sn_jpeg response) > 33554432 \<or> length (sn_rgb response) > 26542080"

definition answerCapture ::
  "(json \<Rightarrow> string) \<Rightarrow> string \<Rightarrow> nat \<Rightarrow> snapshot_result \<Rightarrow> 'z ctl_scheme \<Rightarrow> 'z ctl_scheme" where
  "answerCapture printJson identifier reply response0 s =
     (let oversized = oversizedCapture response0;
          response = (if oversized
            then response0\<lparr>sn_error := ''camera capture payload exceeds limits''\<rparr> else response0);
          s0 = s\<lparr>captureReply := None\<rparr>;
          (receipt, s1) = RememberReceipt (captureRequestID s0) ''capture''
            (if sn_failed response \<or> oversized then ''failed'' else ''completed'') (sn_error response) s0;
          s2 = (if sn_failed response
                then completeReply reply (ControlError 503 ''unavailable'' (sn_error response)) s1
                else if oversized
                then completeReply reply (ControlError 429 ''resource_exhausted''
                       ''camera capture payload exceeds limits'') s1
                else (let boundary = ''xgc-capture-'' @ identifier in
                  completeReply reply
                    \<lparr>rs_status = 200,
                     rs_headers = [(''Content-Type'', ''multipart/mixed; boundary='' @ boundary)],
                     rs_body = RawBody (captureBody printJson boundary response
                       (captureMetadata response receipt s1))\<rparr> s1))
      in s2\<lparr>controlHost := ReleaseCapture (controlHost s2), captureSlotHeld := False\<rparr>)"

definition FlushCapture ::
  "(json \<Rightarrow> string) \<Rightarrow> string \<Rightarrow> int \<Rightarrow> (nat \<Rightarrow> bool) \<Rightarrow> nat \<Rightarrow> 'z ctl_scheme \<Rightarrow> 'z ctl_scheme" where
  "FlushCapture printJson identifier now cancelled reply s =
     (case takeSnapshot (cancelled reply \<or> now \<ge> captureDeadline s) s of
        (None, s1) \<Rightarrow> s1
      | (Some response, s1) \<Rightarrow> answerCapture printJson identifier reply response s1)"

text \<open>One watcher: its slot afterwards and the state.\<close>

definition flushWatcher ::
  "ros_master \<Rightarrow> int \<Rightarrow> (nat \<Rightarrow> bool) \<Rightarrow> control_watcher option \<Rightarrow> 'z ctl_scheme
     \<Rightarrow> control_watcher option \<times> 'z ctl_scheme" where
  "flushWatcher master now cancelled slot s =
     (case slot of
        None \<Rightarrow> (None, s)
      | Some w \<Rightarrow>
          if cancelled (cw_reply w) then (None, s)
          else if cw_after w < controlEventRevision s
          then (None, completeReply (cw_reply w) (JSONResponse (CameraStatus master s)) s)
          else if now \<ge> cw_deadline w
          then (None, completeReply (cw_reply w) (ControlError 504 ''deadline_exceeded''
                   ''no camera event before observation deadline'') s)
          else (slot, s))"

fun flushWatchers ::
  "ros_master \<Rightarrow> int \<Rightarrow> (nat \<Rightarrow> bool) \<Rightarrow> control_watcher option list \<Rightarrow> 'z ctl_scheme
     \<Rightarrow> control_watcher option list \<times> 'z ctl_scheme" where
  "flushWatchers master now cancelled [] s = ([], s)"
| "flushWatchers master now cancelled (w # ws) s =
     (case flushWatcher master now cancelled w s of
        (w', s1) \<Rightarrow> (case flushWatchers master now cancelled ws s1 of
           (ws', s2) \<Rightarrow> (w' # ws', s2)))"

definition FlushControl ::
  "(json \<Rightarrow> string) \<Rightarrow> string \<Rightarrow> ros_master \<Rightarrow> int \<Rightarrow> (nat \<Rightarrow> bool) \<Rightarrow> bool \<Rightarrow> 'z ctl_scheme
     \<Rightarrow> 'z ctl_scheme" where
  "FlushControl printJson identifier master now cancelled commandLocked s =
     (let s1 = flushPending master now cancelled commandLocked s;
          s2 = (case captureReply s1 of None \<Rightarrow> s1
                | Some reply \<Rightarrow> FlushCapture printJson identifier now cancelled reply s1)
      in case flushWatchers master now cancelled (controlWatchers s2) s2 of
           (watchers, s3) \<Rightarrow> s3\<lparr>controlWatchers := watchers\<rparr>)"

section \<open>Start and stop\<close>

text \<open>
  \<open>acquired\<close> is the host, or the exception of \<open>Acquire\<close>, \<open>registered\<close> the exception of the
  registration if it throws one.
\<close>

definition startConfig :: "'z ctl_scheme \<Rightarrow> json" where
  "startConfig s = JObject (
     [(''active'', JBool False), (''jpeg_quality'', JInt (jpegQuality s)),
      (''rtp_host'', JString (rtpHost s)), (''rtp_port'', JInt (rtpPort s)),
      (''bitrate'', JInt (bitrate s))]
     @ (if rosPublishingEnabled s then
          [(''calibration'', JObject
             [(''scope'', JString ''calibration-metadata''), (''model'', JString ''plumb_bob''),
              (''width'', nat32 (cal_width (calibrationMetadata s))),
              (''height'', nat32 (cal_height (calibrationMetadata s))),
              (''camera_matrix'', JArray (map JReal (cal_matrix (calibrationMetadata s)))),
              (''distortion'', JArray (map JReal
                 (take (cal_distortionCount (calibrationMetadata s))
                   (cal_distortion (calibrationMetadata s)))))])] else []))"

definition StartControlServer ::
  "control_exn + nat host \<Rightarrow> 'z ctl_scheme \<Rightarrow> bool \<times> 'z ctl_scheme" where
  "StartControlServer acquired s =
     (case acquired of
        Inl e \<Rightarrow> (False, s)
      | Inr host \<Rightarrow>
          (let s1 = s\<lparr>controlHost := host, controlWakeHost := True, desiredConfig := startConfig s,
                     appliedConfig := startConfig s\<rparr>
           in case Register (sourceID s) (pluginObject s) host of
                Inl e \<Rightarrow> (False, s1)
              | Inr host' \<Rightarrow> (True, s1\<lparr>controlHost := host', controlRegistered := True\<rparr>)))"

definition removed :: control_response where
  "removed = ControlError 503 ''unavailable'' ''camera sensor was removed''"

definition removeWatchers :: "'z ctl_scheme \<Rightarrow> 'z ctl_scheme" where
  "removeWatchers s =
     (fold (\<lambda>slot t. case slot of None \<Rightarrow> t | Some w \<Rightarrow> completeReply (cw_reply w) removed t)
        (controlWatchers s) s)
       \<lparr>controlWatchers := map (\<lambda>slot. None) (controlWatchers s)\<rparr>"

definition StopControlServer :: "'z ctl_scheme \<Rightarrow> 'z ctl_scheme" where
  "StopControlServer s =
     (let s1 = (if controlRegistered s
                then s\<lparr>controlHost := Unregister (sourceID s) (controlHost s), controlRegistered := False\<rparr>
                else s);
          s2 = (case pendingControl s1 of None \<Rightarrow> s1 | Some p \<Rightarrow> completeReply (pc_reply p) removed s1);
          s3 = removeWatchers s2
      in case captureReply s3 of None \<Rightarrow> s3
         | Some reply \<Rightarrow> (completeReply reply removed s3)\<lparr>captureReply := None\<rparr>)"

end
