(* ===== verification/Control_Requests.thy ===== *)
theory Control_Requests
  imports Camera_Control "HOL-Library.Multiset"
begin

text \<open>
  Requests in \<open>Camera_Control\<close>: the parsers of revisions and calibrations, receipts that can be read
  back, and the answer every request gets exactly once.
\<close>

section \<open>Observation revisions\<close>

lemma unat_of_nat_u64: "n < 2 ^ 64 \<Longrightarrow> unat (of_nat n :: u64) = n"
  by (simp add: unat_of_nat take_bit_nat_eq_self)

lemma unat_less_u64: "unat (w :: u64) < 2 ^ 64"
proof -
  have "unat w < 2 ^ LENGTH(64)" by (rule unsigned_less)
  then show ?thesis by simp
qed

lemma parseDigits_step:
  fixes w :: u64
  assumes "d < 10"
  shows "w > (- 1 - of_nat d) div 10 \<longleftrightarrow> 2 ^ 64 \<le> 10 * unat w + d"
proof -
  have "unat (of_nat d :: u64) = d" using assms by (simp add: unat_of_nat_u64)
  moreover have "unat (- 1 :: u64) = 2 ^ 64 - 1" by (simp add: unsigned_minus_1_eq_mask mask_eq_exp_minus_1)
  moreover have "(of_nat d :: u64) \<le> - 1" by simp
  ultimately have "unat ((- 1 - of_nat d) :: u64) = 2 ^ 64 - 1 - d" by (simp add: unat_sub)
  then have "unat ((- 1 - of_nat d) div 10 :: u64) = (2 ^ 64 - 1 - d) div 10"
    by (simp add: unat_div_distrib)
  moreover have "(2 ^ 64 - 1 - d) div 10 < unat w \<longleftrightarrow> 2 ^ 64 \<le> 10 * unat w + d"
    using assms by (simp add: div_less_iff_less_mult) linarith
  ultimately show ?thesis by (simp add: word_less_nat_alt)
qed

lemma parseDigits_value:
  "parseDigits w cs =
     (let n = foldl (\<lambda>n c. 10 * n + digitValue c) (unat w) cs
      in if list_all isDigit cs \<and> n < 2 ^ 64 then Some (of_nat n) else None)"
proof (induction cs arbitrary: w)
  case Nil
  then show ?case using unat_less_u64 [of w] by simp
next
  case (Cons c cs)
  have mono: "n \<le> foldl (\<lambda>n c. 10 * n + digitValue c) n cs" for n
  proof (induction cs arbitrary: n)
    case (Cons c cs)
    have "n \<le> 10 * n + digitValue c" by simp
    also note Cons.IH [of "10 * n + digitValue c"]
    finally show ?case by simp
  qed simp
  show ?case
  proof (cases "isDigit c")
    case True
    note d = digitValue_bound [OF True]
    show ?thesis
    proof (cases "2 ^ 64 \<le> 10 * unat w + digitValue c")
      case True
      with mono [of "10 * unat w + digitValue c"] parseDigits_step [OF d, of w] show ?thesis
        by (simp add: Let_def)
    next
      case False
      then have "unat (w * 10 + of_nat (digitValue c)) = 10 * unat w + digitValue c"
        using d by (simp add: unat_word_ariths unat_of_nat mult.commute)
      with False True Cons.IH [of "w * 10 + of_nat (digitValue c)"] parseDigits_step [OF d, of w]
      show ?thesis using \<open>isDigit c\<close> by (simp add: Let_def)
    qed
  qed simp
qed

text \<open>
  C31: An observation revision is accepted exactly when it is the usual decimal notation of a 64 bit
  number, and then that number is read; no digit string overflows into another revision.
\<close>

theorem parseRevision_iff: "parseRevision sequence = Some w \<longleftrightarrow> sequence = decimal (unat w)"
proof
  assume "parseRevision sequence = Some w"
  then have "canonicalDecimal sequence" and n: "decimalValue sequence < 2 ^ 64"
    and w: "w = of_nat (decimalValue sequence)"
    by (auto simp: parseRevision_def parseDigits_value Let_def canonicalDecimal_def decimalValue_def
        hd_conv_nth split: if_splits)
  from decimal_decimalValue [OF this(1)] n show "sequence = decimal (unat w)"
    unfolding w by (simp add: unat_of_nat_u64)
next
  assume s: "sequence = decimal (unat w)"
  have "unat w < 2 ^ 64" using unat_less_u64 [of w] by simp
  then have "length sequence \<le> 20" using decimal_length [of "unat w" 20] by (simp add: s)
  moreover have "canonicalDecimal sequence" by (simp add: s)
  moreover have "decimalValue sequence = unat w" by (simp add: s)
  ultimately show "parseRevision sequence = Some w"
    using \<open>unat w < 2 ^ 64\<close>
    by (auto simp: parseRevision_def parseDigits_value Let_def canonicalDecimal_def
        decimalValue_def [symmetric] hd_conv_nth)
qed

section \<open>Calibrations\<close>

lemma those_length: "those xs = Some ys \<Longrightarrow> length ys = length xs"
  by (induction xs arbitrary: ys) (auto split: option.splits)

text \<open>
  A calibration is only taken over for the image size of the stream, with the coefficient count
  of its distortion model, nine matrix entries, positive focal lengths and the bottom row 0 0 1.
\<close>

theorem parseCalibration_valid:
  assumes "parseCalibration calibration s = Inr m"
  shows "cal_width m = streamWidth s \<and> cal_height m = streamHeight s
    \<and> length (cal_matrix m) = 9 \<and> length (cal_distortion m) = 8
    \<and> (cal_model m, cal_distortionCount m) \<in> {(0, 5), (1, 8), (2, 4)}
    \<and> cal_matrix m ! 0 > 0 \<and> cal_matrix m ! 4 > 0
    \<and> (\<forall>i. cal_distortionCount m \<le> i \<and> i < 8 \<longrightarrow> cal_distortion m ! i = 0)
    \<and> drop 6 (cal_matrix m) = [0, 0, 1]"
proof -
  obtain model count matrix distortion mm dd where
    model: "distortionModel (asString (jget ''model'' calibration)) = Some (model, count)"
    and matrix: "length matrix = 9" "those (map asReal matrix) = Some mm"
    and distortion: "length distortion = count" "those (map asReal distortion) = Some dd"
    and ok: "mm ! 0 > 0" "mm ! 4 > 0" "mm ! 6 = 0" "mm ! 7 = 0" "mm ! 8 = 1"
    and m: "m = \<lparr>cal_revision = 1, cal_width = streamWidth s, cal_height = streamHeight s,
        cal_model = model, cal_distortionCount = count, cal_matrix = mm,
        cal_distortion = dd @ replicate (8 - count) 0\<rparr>"
    using assms unfolding parseCalibration_def
    by (simp only: split: if_splits option.splits prod.splits sum.splits) auto
  have "length mm = 9" "length dd = count" 
    using those_length [OF matrix(2)] those_length [OF distortion(2)] matrix(1) distortion(1) by simp_all
  moreover have "(model, count) \<in> {(0, 5), (1, 8), (2, 4)}"
    using model by (auto simp: distortionModel_def split: if_splits)
  moreover have "drop 6 mm = [mm ! 6, mm ! 7, mm ! 8]"
    using \<open>length mm = 9\<close> by (simp add: list_eq_iff_nth_eq less_Suc_eq numeral_eq_Suc)
  moreover have "\<forall>i. count \<le> i \<and> i < 8 \<longrightarrow> (dd @ replicate (8 - count) 0) ! i = 0"
    using \<open>length dd = count\<close> by (auto simp: nth_append)
  ultimately show ?thesis using ok by (auto simp: m)
qed

section \<open>Receipts\<close>

fun rememberAll :: "(string \<times> string \<times> string \<times> string) list \<Rightarrow> 'z ctl_scheme \<Rightarrow> 'z ctl_scheme" where
  "rememberAll [] s = s"
| "rememberAll ((requestID, operation, stage, error) # rest) s =
     rememberAll rest (snd (RememberReceipt requestID operation stage error s))"

lemma RememberReceipt_id [simp]:
  "asString (jget ''operation_id'' (fst (RememberReceipt i oper stage error s))) = i"
  "asString (jget ''request_id'' (fst (RememberReceipt i oper stage error s))) = i"
  by (simp_all add: RememberReceipt_def Let_def jget_def)

lemma RememberReceipt_slots:
  "controlReceipts (snd (RememberReceipt i oper stage error s)) =
     (controlReceipts s)[nextControlReceipt s mod kReceipts := fst (RememberReceipt i oper stage error s)]"
  "nextControlReceipt (snd (RememberReceipt i oper stage error s)) = nextControlReceipt s + 1"
  by (simp_all add: RememberReceipt_def Let_def)

definition otherReceipts :: "string \<Rightarrow> nat \<Rightarrow> 'z ctl_scheme \<Rightarrow> bool" where
  "otherReceipts i n s \<longleftrightarrow> length (controlReceipts s) = kReceipts
     \<and> (\<forall>k. k < kReceipts \<and> k \<noteq> n \<longrightarrow> asString (jget ''operation_id'' (controlReceipts s ! k)) \<noteq> i)"

lemma receipt_kept:
  assumes "otherReceipts i (n mod kReceipts) s" and "n < nextControlReceipt s"
    and "nextControlReceipt s + length xs \<le> n + kReceipts"
    and "i \<notin> fst ` set xs"
  shows "otherReceipts i (n mod kReceipts) (rememberAll xs s)
    \<and> controlReceipts (rememberAll xs s) ! (n mod kReceipts) = controlReceipts s ! (n mod kReceipts)"
  using assms
proof (induction xs arbitrary: s)
  case (Cons x xs)
  obtain j oper stage error where x: "x = (j, oper, stage, error)" by (cases x)
  obtain u where u: "u = snd (RememberReceipt j oper stage error s)" by simp
  have slots: "controlReceipts u = (controlReceipts s)[nextControlReceipt s mod kReceipts :=
      fst (RememberReceipt j oper stage error s)]" "nextControlReceipt u = nextControlReceipt s + 1"
    by (simp_all add: u RememberReceipt_slots)
  have "nextControlReceipt s mod kReceipts \<noteq> n mod kReceipts"
  proof
    assume "nextControlReceipt s mod kReceipts = n mod kReceipts"
    then have "kReceipts dvd nextControlReceipt s - n"
      using Cons.prems(2) by (simp add: mod_eq_dvd_iff_nat)
    moreover have "0 < nextControlReceipt s - n" "nextControlReceipt s - n < kReceipts"
      using Cons.prems(2,3) by simp_all
    ultimately show False by (meson dvd_imp_le not_less)
  qed
  moreover have "j \<noteq> i" using Cons.prems(4) x by auto
  ultimately have "otherReceipts i (n mod kReceipts) u"
    "controlReceipts u ! (n mod kReceipts) = controlReceipts s ! (n mod kReceipts)"
    using Cons.prems(1) by (auto simp: otherReceipts_def slots nth_list_update)
  then show ?case using Cons.IH [of u] Cons.prems slots(2) x u by simp
qed simp

lemma find_unique:
  assumes "n < length xs" and "P (xs ! n)" and "\<forall>k. k < length xs \<and> k \<noteq> n \<longrightarrow> \<not> P (xs ! k)"
  shows "find P xs = Some (xs ! n)"
proof (cases "find P xs")
  case None
  with assms(1,2) show ?thesis by (auto simp: find_None_iff)
next
  case (Some x)
  then obtain k where "k < length xs" "P (xs ! k)" "x = xs ! k" by (auto simp: find_Some_iff)
  with assms Some show ?thesis by (cases "k = n") auto
qed

text \<open>
  C32: The receipt of an operation can be read back under its identifier, exactly as it was written,
  as long as fewer than 32 further receipts with other identifiers have been written.
\<close>

theorem receipt_read_back:
  assumes "length (controlReceipts s) = kReceipts"
    and "\<forall>r \<in> set (controlReceipts s). asString (jget ''operation_id'' r) \<noteq> i"
    and "length later < kReceipts" and "i \<notin> fst ` set later"
  shows "receiptNamed ''operation_id'' i (rememberAll ((i, oper, stage, error) # later) s)
    = Some (fst (RememberReceipt i oper stage error s))"
proof -
  let ?u = "snd (RememberReceipt i oper stage error s)" and ?n = "nextControlReceipt s"
  have k: "?n mod kReceipts < kReceipts" by (simp add: kReceipts_def)
  have start: "otherReceipts i (?n mod kReceipts) ?u"
    "controlReceipts ?u ! (?n mod kReceipts) = fst (RememberReceipt i oper stage error s)"
    using assms(1,2) k by (auto simp: otherReceipts_def RememberReceipt_slots)
  have "otherReceipts i (?n mod kReceipts) (rememberAll later ?u)"
    "controlReceipts (rememberAll later ?u) ! (?n mod kReceipts) = fst (RememberReceipt i oper stage error s)"
    using receipt_kept [OF start(1), of later] start(2) assms(3,4) by (simp_all add: RememberReceipt_slots)
  with k find_unique [of "?n mod kReceipts" "controlReceipts (rememberAll later ?u)"
      "\<lambda>receipt. asString (jget ''operation_id'' receipt) = i"]
  show ?thesis by (simp add: receiptNamed_def otherReceipts_def)
qed

text \<open>
  While not all 32 receipt slots have been used, a receipt with an empty identifier is found
  although none was ever written: the slot that was never used reads as an empty identifier. So a
  request for it is answered with success and a null value, and a request whose own identifier is
  empty is refused as already used.
\<close>

theorem unused_slot_answers_empty_identifier:
  assumes "JNull \<in> set (controlReceipts s)"
    and "\<forall>r \<in> set (controlReceipts s). r = JNull \<or> asString (jget ''operation_id'' r) \<noteq> []"
  shows "handleReceipt [] reply s = completeReply reply (JSONResponse JNull) s"
proof (cases "receiptNamed ''operation_id'' [] s")
  case None
  with assms(1) show ?thesis by (auto simp: receiptNamed_def find_None_iff jget_def)
next
  case (Some receipt)
  then have "receipt \<in> set (controlReceipts s)" "asString (jget ''operation_id'' receipt) = []"
    by (auto simp: receiptNamed_def find_Some_iff)
  with assms(2) Some show ?thesis by (auto simp: handleReceipt_def)
qed

section \<open>Custody of the replies\<close>

text \<open>Where a reply object is: completed, or held by a slot.\<close>

definition heldPending :: "pending_control option \<Rightarrow> nat multiset" where
  "heldPending p = (case p of None \<Rightarrow> {#} | Some p \<Rightarrow> {#pc_reply p#})"

fun heldWatchers :: "control_watcher option list \<Rightarrow> nat multiset" where
  "heldWatchers [] = {#}"
| "heldWatchers (None # ws) = heldWatchers ws"
| "heldWatchers (Some w # ws) = add_mset (cw_reply w) (heldWatchers ws)"

definition heldCapture :: "nat option \<Rightarrow> nat multiset" where
  "heldCapture r = (case r of None \<Rightarrow> {#} | Some r \<Rightarrow> {#r#})"

lemma held_simps [simp]:
  "heldPending None = {#}" "heldPending (Some p) = {#pc_reply p#}"
  "heldCapture None = {#}" "heldCapture (Some r) = {#r#}"
  by (simp_all add: heldPending_def heldCapture_def)

definition answered :: "'z ctl_scheme \<Rightarrow> nat multiset" where
  "answered s = mset (map fst (controlReplies s))"

definition custody :: "'z ctl_scheme \<Rightarrow> nat multiset" where
  "custody s = answered s + heldPending (pendingControl s) + heldWatchers (controlWatchers s)
     + heldCapture (captureReply s)"

definition slotInv :: "'z ctl_scheme \<Rightarrow> bool" where
  "slotInv s \<longleftrightarrow> (captureReply s \<noteq> None \<longrightarrow> hs_capture_reserved (controlHost s))"

declare answered_def [cam_inv] and custody_def [cam_inv] and slotInv_def [cam_inv]

lemma completeReply_fields [simp]:
  "answered (completeReply r x s) = add_mset r (answered s)"
  "pendingControl (completeReply r x s) = pendingControl s"
  "controlWatchers (completeReply r x s) = controlWatchers s"
  "captureReply (completeReply r x s) = captureReply s"
  "controlHost (completeReply r x s) = controlHost s"
  "controlEventRevision (completeReply r x s) = controlEventRevision s"
  by (simp_all add: completeReply_def answered_def)

lemma answered_updates [simp]:
  "answered (controlHost_update f1 s) = answered s"
  "answered (controlWatchers_update f2 s) = answered s"
  "answered (captureReply_update f3 s) = answered s"
  "answered (captureSlotHeld_update f4 s) = answered s"
  "answered (captureRequestID_update f5 s) = answered s"
  "answered (captureDeadline_update f6 s) = answered s"
  "answered (pendingControl_update f7 s) = answered s"
  "answered (nativeCaptureKeyframePending_update f8 s) = answered s"
  "answered (forceKeyframe_update f9 s) = answered s"
  "answered (desiredRevision_update f10 s) = answered s"
  "answered (desiredConfig_update f11 s) = answered s"
  "answered (nativeCommand_update f12 s) = answered s"
  "answered (nativeLifecycleState_update f13 s) = answered s"
  "answered (appliedRevision_update f14 s) = answered s"
  "answered (appliedConfig_update f15 s) = answered s"
  "answered (appliedTimeNanoseconds_update f16 s) = answered s"
  "answered (controlRegistered_update f17 s) = answered s"
  by (simp_all add: answered_def)

lemma custody_complete [simp]: "custody (completeReply r x s) = add_mset r (custody s)"
  by (simp add: custody_def)

lemma RememberReceipt_fields [simp]:
  "answered (snd (RememberReceipt i oper stage error s)) = answered s"
  "pendingControl (snd (RememberReceipt i oper stage error s)) = pendingControl s"
  "controlWatchers (snd (RememberReceipt i oper stage error s)) = controlWatchers s"
  "captureReply (snd (RememberReceipt i oper stage error s)) = captureReply s"
  "controlHost (snd (RememberReceipt i oper stage error s)) = controlHost s"
  by (simp_all add: RememberReceipt_def answered_def Let_def)

lemma takeSlot_held: "takeSlot w ws = Some ws' \<Longrightarrow> heldWatchers ws' = add_mset (cw_reply w) (heldWatchers ws)"
  by (induction w ws arbitrary: ws' rule: takeSlot.induct) auto

lemma handleReceipt_custody: "custody (handleReceipt i r s) = add_mset r (custody s)"
  by (simp add: handleReceipt_def split: option.split)

lemma handleObserve_custody:
  "handleObserve master sq request r s = Inr s' \<Longrightarrow> custody s' = add_mset r (custody s)"
  by (auto simp: handleObserve_def custody_def takeSlot_held
      split: option.splits if_splits)

lemma armSnapshot_fields [simp]:
  "answered (armSnapshot i b k s) = answered s"
  "pendingControl (armSnapshot i b k s) = pendingControl s"
  "controlWatchers (armSnapshot i b k s) = controlWatchers s"
  "captureReply (armSnapshot i b k s) = captureReply s"
  "controlHost (armSnapshot i b k s) = controlHost s"
  by (simp_all add: armSnapshot_def answered_def Let_def)

lemma handleCapture_custody:
  assumes "slotInv s" and "handleCapture now request input r s = Inr s'"
  shows "custody s' = add_mset r (custody s) \<and> slotInv s'"
proof (cases "receiptNamed ''request_id'' (rq_request_id request) s \<noteq> None
    \<or> captureArguments input \<noteq> None
    \<or> optionalBool ''requestKeyframe'' False input \<and> \<not> nativeAppliedActive s
    \<or> hs_capture_reserved (controlHost s)")
  case True
  with assms show ?thesis
    by (auto simp: handleCapture_def slotInv_def ReserveCapture_def Let_def split: if_splits option.splits)
next
  case False
  with assms(1) have none: "captureReply s = None" by (auto simp: slotInv_def)
  let ?host = "(controlHost s)\<lparr>hs_capture_reserved := True\<rparr>"
  obtain i where i: "i = (if isMember ''snapshotId'' input then asString (jget ''snapshotId'' input)
    else rq_request_id request)" by simp
  obtain u where u: "u = armSnapshot i (optionalBool ''includeRgb'' True input)
    (optionalBool ''requestKeyframe'' False input) (s\<lparr>controlHost := ?host\<rparr>)" by simp
  have fields: "answered u = answered s" "pendingControl u = pendingControl s"
    "controlWatchers u = controlWatchers s" "hs_capture_reserved (controlHost u)"
    by (simp_all add: u)
  have "s' = (if captureKeyframeGeneration u \<noteq> 0
      then u\<lparr>nativeCaptureKeyframePending := captureKeyframeGeneration u, forceKeyframe := True\<rparr> else u)
    \<lparr>captureSlotHeld := True, captureReply := Some r, captureRequestID := rq_request_id request,
     captureDeadline := min (rq_deadline request) (now + 4000000000)\<rparr>"
  proof -
    have "\<not> (optionalBool ''requestKeyframe'' False input \<and> \<not> nativeAppliedActive s)"
      "ReserveCapture (controlHost s) = (True, ?host)"
      using False by (simp_all add: ReserveCapture_def)
    with False assms(2) show ?thesis unfolding handleCapture_def Let_def u i by simp
  qed
  with fields none show ?thesis by (auto simp: custody_def slotInv_def)
qed

lemma acceptMutation_custody:
  assumes "pendingControl s = None"
  shows "custody (acceptMutation oper request desired metadata r s) = add_mset r (custody s)
    \<and> slotInv (acceptMutation oper request desired metadata r s) = slotInv s"
  using assms by (simp add: acceptMutation_def Let_def custody_def slotInv_def)

text \<open>
  A handler's result accounts for the reply: it throws, or completes the reply, or keeps it in a slot.
\<close>

definition accounts :: "nat \<Rightarrow> 'z ctl_scheme \<Rightarrow> control_exn + 'z ctl_scheme \<Rightarrow> bool" where
  "accounts r s result \<longleftrightarrow>
     (\<forall>s'. result = Inr s' \<longrightarrow> custody s' = add_mset r (custody s) \<and> (slotInv s \<longrightarrow> slotInv s'))"

lemma accounts_throw: "accounts r s (Inl e)"
  by (simp add: accounts_def)

lemma accounts_reply: "accounts r s (Inr (completeReply r x s))"
  by (simp add: accounts_def slotInv_def)

lemma accounts_if:
  "(b \<Longrightarrow> accounts r s x) \<Longrightarrow> (\<not> b \<Longrightarrow> accounts r s y) \<Longrightarrow> accounts r s (if b then x else y)"
  by simp

lemma accounts_option:
  "(m = None \<Longrightarrow> accounts r s x) \<Longrightarrow> (\<And>a. m = Some a \<Longrightarrow> accounts r s (f a))
     \<Longrightarrow> accounts r s (case m of None \<Rightarrow> x | Some a \<Rightarrow> f a)"
  by (cases m) simp_all

lemma accounts_mutation:
  assumes "\<And>desired metadata. m = Accepted desired metadata \<Longrightarrow> pendingControl s = None"
  shows "accounts r s (case m of Rejected e \<Rightarrow> Inl e | Refused x \<Rightarrow> Inr (completeReply r x s)
    | Accepted desired metadata \<Rightarrow> Inr (acceptMutation oper request desired metadata r s))"
proof (cases m)
  case (Accepted desired metadata)
  then show ?thesis using acceptMutation_custody [OF assms] by (simp add: accounts_def)
qed (simp_all add: accounts_throw accounts_reply)

lemmas accounts_rules = accounts_throw accounts_reply accounts_if accounts_option accounts_mutation

lemma mutationArguments_refuses: "mutationArguments oper input = Some m \<Longrightarrow> m \<noteq> Accepted desired metadata"
  unfolding mutationArguments_def by (auto split: option.splits if_splits)

lemma handleMutation_accounts: "accounts r s (handleMutation oper request input r s)"
  unfolding handleMutation_def Let_def
  by (intro accounts_if accounts_option accounts_mutation)
    (auto dest: mutationArguments_refuses)

lemma handleReceipt_accounts: "accounts r s (Inr (handleReceipt i r s))"
  unfolding handleReceipt_def by (cases "receiptNamed ''operation_id'' i s") (simp_all add: accounts_reply)

lemma handleObserve_accounts: "accounts r s (handleObserve master sq request r s)"
proof -
  have "slotInv s' = slotInv s" if "handleObserve master sq request r s = Inr s'" for s'
    using that by (auto simp: slotInv_def handleObserve_def split: option.splits if_splits)
  then show ?thesis
    using handleObserve_custody [of master sq request r s] unfolding accounts_def by blast
qed

lemma HandleControlRequest_custody:
  assumes "slotInv s" and "HandleControlRequest master now oper request input r s = Inr s'"
  shows "custody s' = add_mset r (custody s) \<and> slotInv s'"
proof -
  have capture: "accounts r s (handleCapture now request input r s)"
    using handleCapture_custody [OF assms(1)] by (simp add: accounts_def)
  have "accounts r s (HandleControlRequest master now oper request input r s)"
    unfolding HandleControlRequest_def Let_def
    by (intro accounts_if accounts_option accounts_throw accounts_reply handleReceipt_accounts
        handleObserve_accounts handleMutation_accounts capture)
  with assms show ?thesis by (simp add: accounts_def)
qed

section \<open>What replies leave alone\<close>

text \<open>
  A view of the state that shows neither the replies nor the receipts and observers: it is kept by
  everything that only answers, so that a flush shows in it as the mutation and the capture it ends.
\<close>

locale reply_view =
  fixes view :: "'z ctl_scheme \<Rightarrow> 'v"
  assumes replies [simp]:
    "view (controlReplies_update f1 s) = view s"
    "view (controlReceipts_update f2 s) = view s"
    "view (nextControlReceipt_update f3 s) = view s"
    "view (controlEventRevision_update f4 s) = view s"
    "view (controlWatchers_update f5 s) = view s"
begin

lemma reply [simp]: "view (completeReply r x s) = view s"
  by (simp add: completeReply_def)

lemma receipt [simp]: "view (snd (RememberReceipt i oper stage error s)) = view s"
  by (simp add: RememberReceipt_def Let_def)

lemma received [simp]: "view (handleReceipt i r s) = view s"
  by (simp add: handleReceipt_def split: option.split)

lemma observed: "handleObserve master sq request r s = Inr s' \<Longrightarrow> view s' = view s"
  by (auto simp: handleObserve_def split: option.splits if_splits)

lemma watcher: "view (snd (flushWatcher master now cancelled w s)) = view s"
  by (simp add: flushWatcher_def split: option.split)

lemma watchers: "view (snd (flushWatchers master now cancelled ws s)) = view s"
proof (induction ws arbitrary: s)
  case (Cons w ws)
  show ?case using watcher [of master now cancelled w s] Cons.IH
    by (auto split: prod.split) (metis snd_conv)
qed simp

lemma removed [simp]: "view (removeWatchers s) = view s"
proof -
  have "view (fold (\<lambda>slot t. case slot of None \<Rightarrow> t | Some w \<Rightarrow> completeReply (cw_reply w) removed t) ws u)
      = view u" for ws u
    by (induction ws arbitrary: u) (auto split: option.split)
  then show ?thesis by (simp add: removeWatchers_def)
qed

lemma FlushControl:
  "view (FlushControl printJson i master now cancelled locked s)
     = (let s1 = flushPending master now cancelled locked s
        in view (case captureReply s1 of None \<Rightarrow> s1
                 | Some r \<Rightarrow> FlushCapture printJson i now cancelled r s1))"
proof -
  obtain s1 where s1: "s1 = flushPending master now cancelled locked s" by simp
  obtain s2 where s2: "s2 = (case captureReply s1 of None \<Rightarrow> s1
    | Some reply \<Rightarrow> FlushCapture printJson i now cancelled reply s1)" by simp
  obtain ws s3 where ws: "flushWatchers master now cancelled (controlWatchers s2) s2 = (ws, s3)"
    by (cases "flushWatchers master now cancelled (controlWatchers s2) s2")
  have "FlushControl printJson i master now cancelled locked s = s3\<lparr>controlWatchers := ws\<rparr>"
    by (simp only: FlushControl_def Let_def s1 [symmetric] s2 [symmetric] ws prod.case)
  then show ?thesis
    using watchers [of master now cancelled "controlWatchers s2" s2, unfolded ws]
    by (simp add: Let_def s1 [symmetric] s2 [symmetric])
qed

end

section \<open>The flush keeps custody\<close>

lemma failPending_custody:
  assumes "pendingControl s = Some p"
  shows "custody (failPending e x p s) = custody s \<and> slotInv (failPending e x p s) = slotInv s"
  using assms by (simp add: failPending_def custody_def slotInv_def)

text \<open>How a mutation is completed and a capture answered, with the receipt written before the reply.\<close>

lemma completePending_form:
  "\<exists>x. completePending master p s = completeReply (pc_reply p) x (snd (RememberReceipt (pc_requestID p)
     (pc_operation p) ''completed'' [] (s\<lparr>appliedRevision := pc_revision p,
        appliedConfig := jset ''active'' (JBool (nativeAppliedActive s)) (desiredConfig s),
        appliedTimeNanoseconds := nativeAppliedTime s, pendingControl := None\<rparr>)))"
proof -
  obtain s1 where s1: "s1 = s\<lparr>appliedRevision := pc_revision p,
      appliedConfig := jset ''active'' (JBool (nativeAppliedActive s)) (desiredConfig s),
      appliedTimeNanoseconds := nativeAppliedTime s, pendingControl := None\<rparr>" by simp
  obtain receipt s2 where r: "RememberReceipt (pc_requestID p) (pc_operation p) ''completed'' [] s1
      = (receipt, s2)" by (cases "RememberReceipt (pc_requestID p) (pc_operation p) ''completed'' [] s1")
  show ?thesis
    unfolding completePending_def Let_def s1 [symmetric] r prod.case snd_conv by blast
qed

lemma answerCapture_form:
  "\<exists>x stage e. answerCapture printJson identifier r response s =
     (let u = completeReply r x (snd (RememberReceipt (captureRequestID s) ''capture'' stage e
                (s\<lparr>captureReply := None\<rparr>)))
      in u\<lparr>controlHost := ReleaseCapture (controlHost u), captureSlotHeld := False\<rparr>)"
proof -
  obtain big where big: "big = oversizedCapture response" by simp
  obtain resp where resp: "resp = (if big
    then response\<lparr>sn_error := ''camera capture payload exceeds limits''\<rparr> else response)" by simp
  obtain s0 where s0: "s0 = s\<lparr>captureReply := None\<rparr>" by simp
  obtain stage where stage: "stage = (if sn_failed resp \<or> big then ''failed'' else ''completed'')" by simp
  obtain receipt s1 where rec: "RememberReceipt (captureRequestID s0) ''capture'' stage (sn_error resp) s0
      = (receipt, s1)"
    by (cases "RememberReceipt (captureRequestID s0) ''capture'' stage (sn_error resp) s0")
  then have s1: "s1 = snd (RememberReceipt (captureRequestID s) ''capture'' stage (sn_error resp)
      (s\<lparr>captureReply := None\<rparr>))" by (simp add: s0)
  have "\<exists>x. answerCapture printJson identifier r response s =
      (let u = completeReply r x s1
       in u\<lparr>controlHost := ReleaseCapture (controlHost u), captureSlotHeld := False\<rparr>)"
    unfolding answerCapture_def Let_def big [symmetric] resp [symmetric] s0 [symmetric]
      stage [symmetric] rec prod.case
    by (simp only: split: if_split) blast
  then show ?thesis unfolding s1 by blast
qed

lemma completePending_custody:
  assumes "pendingControl s = Some p"
  shows "custody (completePending master p s) = custody s
    \<and> slotInv (completePending master p s) = slotInv s"
  using completePending_form [of master p s] assms by (auto simp: custody_def slotInv_def)

lemma flushPending_custody:
  "custody (flushPending master now cancelled locked s) = custody s
    \<and> slotInv (flushPending master now cancelled locked s) = slotInv s"
proof (cases "pendingControl s")
  case None
  then show ?thesis by (simp add: flushPending_def)
next
  case (Some p)
  have dropped: "custody (s\<lparr>nativeCommand := None\<rparr>) = custody s"
    "slotInv (s\<lparr>nativeCommand := None\<rparr>) = slotInv s" "pendingControl (s\<lparr>nativeCommand := None\<rparr>) = Some p"
    using Some by (simp_all add: custody_def slotInv_def)
  show ?thesis
    using Some failPending_custody [OF Some] completePending_custody [OF Some]
      failPending_custody [OF dropped(3)] dropped
    unfolding flushPending_def by (auto split: option.split)
qed

lemma takeSnapshot_control:
  assumes "takeSnapshot expired s = (x, s')"
  shows "answered s' = answered s" "pendingControl s' = pendingControl s"
    "controlWatchers s' = controlWatchers s" "captureReply s' = captureReply s"
    "controlHost s' = controlHost s"
  using assms by (auto simp: takeSnapshot_def answered_def Let_def split: if_splits)

lemma answerCapture_custody:
  assumes "captureReply s = Some r"
  shows "custody (answerCapture printJson identifier r response s) = custody s
    \<and> slotInv (answerCapture printJson identifier r response s)"
  using answerCapture_form [of printJson "identifier" r response s] assms
  by (auto simp: custody_def slotInv_def Let_def)

lemma FlushCapture_custody:
  assumes "captureReply s = Some r" and "slotInv s"
  shows "custody (FlushCapture printJson identifier now cancelled r s) = custody s
    \<and> slotInv (FlushCapture printJson identifier now cancelled r s)"
proof -
  obtain x s1 where t: "takeSnapshot (cancelled r \<or> now \<ge> captureDeadline s) s = (x, s1)"
    by (cases "takeSnapshot (cancelled r \<or> now \<ge> captureDeadline s) s")
  note f = takeSnapshot_control [OF t]
  have s1: "custody s1 = custody s" "slotInv s1" "captureReply s1 = Some r"
    using f assms by (simp_all add: custody_def slotInv_def)
  show ?thesis
    unfolding FlushCapture_def t prod.case
    using s1 answerCapture_custody [OF s1(3)] by (simp split: option.split)
qed

lemma flushWatcher_custody:
  assumes "flushWatcher master now cancelled w s = (w', s')"
  shows "answered s' + heldWatchers [w'] \<subseteq># answered s + heldWatchers [w]
    \<and> (\<not> cancelled r \<longrightarrow> count (answered s' + heldWatchers [w']) r = count (answered s + heldWatchers [w]) r)
    \<and> pendingControl s' = pendingControl s \<and> captureReply s' = captureReply s
    \<and> controlHost s' = controlHost s \<and> controlEventRevision s' = controlEventRevision s"
proof (cases w)
  case None
  with assms show ?thesis by (simp add: flushWatcher_def)
next
  case (Some v)
  from assms consider "cancelled (cw_reply v)" "w' = None" "s' = s"
    | x where "w' = None" "s' = completeReply (cw_reply v) x s"
    | "w' = w" "s' = s"
    unfolding flushWatcher_def Some by (auto split: if_splits)
  then show ?thesis by cases (use Some in \<open>auto\<close>)
qed

lemma heldWatchers_Cons: "heldWatchers (w # ws) = heldWatchers [w] + heldWatchers ws"
  by (cases w) simp_all

lemma flushWatchers_custody:
  assumes "flushWatchers master now cancelled ws s = (ws', s')"
  shows "answered s' + heldWatchers ws' \<subseteq># answered s + heldWatchers ws
    \<and> (\<not> cancelled r \<longrightarrow> count (answered s' + heldWatchers ws') r = count (answered s + heldWatchers ws) r)
    \<and> pendingControl s' = pendingControl s \<and> captureReply s' = captureReply s
    \<and> controlHost s' = controlHost s \<and> controlEventRevision s' = controlEventRevision s"
  using assms
proof (induction ws arbitrary: s s' ws')
  case (Cons w ws)
  obtain v s1 where 1: "flushWatcher master now cancelled w s = (v, s1)"
    by (cases "flushWatcher master now cancelled w s")
  obtain vs s2 where 2: "flushWatchers master now cancelled ws s1 = (vs, s2)"
    by (cases "flushWatchers master now cancelled ws s1")
  have out: "ws' = v # vs" "s' = s2" using Cons.prems 1 2 by simp_all
  note f = flushWatcher_custody [OF 1, of r] Cons.IH [OF 2]
  have e: "answered s2 + heldWatchers (v # vs) = (answered s2 + heldWatchers vs) + heldWatchers [v]"
    "(answered s1 + heldWatchers ws) + heldWatchers [v] = (answered s1 + heldWatchers [v]) + heldWatchers ws"
    "answered s + heldWatchers (w # ws) = (answered s + heldWatchers [w]) + heldWatchers ws"
    by (simp_all only: heldWatchers_Cons [of v vs] heldWatchers_Cons [of w ws] ac_simps)
  have "(answered s2 + heldWatchers vs) + heldWatchers [v]
      \<subseteq># (answered s1 + heldWatchers ws) + heldWatchers [v]"
    by (rule subset_mset.add_right_mono) (use f in blast)
  moreover have "(answered s1 + heldWatchers [v]) + heldWatchers ws
      \<subseteq># (answered s + heldWatchers [w]) + heldWatchers ws"
    by (rule subset_mset.add_right_mono) (use f in blast)
  ultimately have "answered s2 + heldWatchers (v # vs) \<subseteq># answered s + heldWatchers (w # ws)"
    unfolding e by (rule subset_mset.order_trans)
  moreover have "\<not> cancelled r \<longrightarrow> count (answered s2 + heldWatchers (v # vs)) r
      = count (answered s + heldWatchers (w # ws)) r"
    unfolding e(1,3) using f arg_cong [OF e(2), of "\<lambda>m. count m r"] by simp
  ultimately show ?case unfolding out using f by simp
qed simp

lemma FlushControl_custody:
  assumes "slotInv s"
  shows "custody (FlushControl printJson identifier master now cancelled locked s) \<subseteq># custody s
    \<and> (\<not> cancelled r \<longrightarrow> count (custody (FlushControl printJson identifier master now cancelled locked s)) r
         = count (custody s) r)
    \<and> slotInv (FlushControl printJson identifier master now cancelled locked s)"
proof -
  obtain s1 where s1: "s1 = flushPending master now cancelled locked s" by simp
  have c1: "custody s1 = custody s" "slotInv s1"
    using flushPending_custody [of master now cancelled locked s] assms by (simp_all add: s1)
  obtain s2 where s2: "s2 = (case captureReply s1 of None \<Rightarrow> s1
    | Some reply \<Rightarrow> FlushCapture printJson identifier now cancelled reply s1)" by simp
  have c2: "custody s2 = custody s" "slotInv s2"
    using c1 FlushCapture_custody [OF _ c1(2)] by (auto simp: s2 split: option.split)
  obtain ws s3 where ws: "flushWatchers master now cancelled (controlWatchers s2) s2 = (ws, s3)"
    by (cases "flushWatchers master now cancelled (controlWatchers s2) s2")
  note w = flushWatchers_custody [OF ws, of r]
  have "FlushControl printJson identifier master now cancelled locked s = s3\<lparr>controlWatchers := ws\<rparr>"
    by (simp only: FlushControl_def Let_def s1 [symmetric] s2 [symmetric] ws prod.case)
  moreover have "custody (s3\<lparr>controlWatchers := ws\<rparr>)
      = (answered s3 + heldWatchers ws) + (heldPending (pendingControl s2) + heldCapture (captureReply s2))"
    using w by (simp add: custody_def)
  moreover have "custody s2 = (answered s2 + heldWatchers (controlWatchers s2))
      + (heldPending (pendingControl s2) + heldCapture (captureReply s2))"
    by (simp add: custody_def)
  moreover have "slotInv (s3\<lparr>controlWatchers := ws\<rparr>)" using w c2(2) by (simp add: slotInv_def)
  ultimately show ?thesis using w c2(1) by (simp add: subset_mset.add_right_mono)
qed

lemma flushWatchers_left:
  assumes "flushWatchers master now cancelled ws s = (ws', s')"
  shows "\<forall>w. Some w \<in> set ws' \<longrightarrow> \<not> cancelled (cw_reply w) \<and> controlEventRevision s \<le> cw_after w
    \<and> now < cw_deadline w"
  using assms
proof (induction ws arbitrary: s s' ws')
  case (Cons w ws)
  obtain v s1 where 1: "flushWatcher master now cancelled w s = (v, s1)"
    by (cases "flushWatcher master now cancelled w s")
  obtain vs s2 where 2: "flushWatchers master now cancelled ws s1 = (vs, s2)"
    by (cases "flushWatchers master now cancelled ws s1")
  have "\<forall>x. v = Some x \<longrightarrow> \<not> cancelled (cw_reply x) \<and> controlEventRevision s \<le> cw_after x
      \<and> now < cw_deadline x"
    using 1 by (auto simp: flushWatcher_def not_less split: option.splits if_splits)
  with Cons.IH [OF 2] flushWatcher_custody [OF 1] Cons.prems 1 2 show ?case by auto
qed simp

text \<open>
  C33: No observer is forgotten: after every flush the observers that remain are those whose client
  still waits, that have seen every event so far, and whose deadline has not passed.
\<close>

theorem observers_left_waiting:
  assumes "Some w \<in> set (controlWatchers (FlushControl printJson identifier master now cancelled locked s))"
  shows "\<not> cancelled (cw_reply w) \<and> now < cw_deadline w
    \<and> controlEventRevision (FlushControl printJson identifier master now cancelled locked s) \<le> cw_after w"
proof -
  obtain s1 where s1: "s1 = flushPending master now cancelled locked s" by simp
  obtain s2 where s2: "s2 = (case captureReply s1 of None \<Rightarrow> s1
    | Some reply \<Rightarrow> FlushCapture printJson identifier now cancelled reply s1)" by simp
  obtain ws s3 where ws: "flushWatchers master now cancelled (controlWatchers s2) s2 = (ws, s3)"
    by (cases "flushWatchers master now cancelled (controlWatchers s2) s2")
  have flush: "FlushControl printJson identifier master now cancelled locked s = s3\<lparr>controlWatchers := ws\<rparr>"
    by (simp only: FlushControl_def Let_def s1 [symmetric] s2 [symmetric] ws prod.case)
  have "controlEventRevision s3 = controlEventRevision s2" using flushWatchers_custody [OF ws] by blast
  with flushWatchers_left [OF ws] assms show ?thesis unfolding flush by simp
qed

section \<open>Every request is answered once\<close>

text \<open>A request of the one sensor on its host.\<close>

definition serve ::
  "(string \<Rightarrow> json option) \<Rightarrow> ros_master \<Rightarrow> int \<Rightarrow> control_request \<Rightarrow> nat \<Rightarrow> 'z ctl_scheme
     \<Rightarrow> 'z ctl_scheme" where
  "serve parse master now request reply s =
     Dispatch parse (completeReply reply)
       (\<lambda>h operation req input u. case HandleControlRequest master now operation req input reply u of
          Inl e \<Rightarrow> (Some e, u) | Inr u' \<Rightarrow> (None, u'))
       request (controlHost s) s"

lemma serve_custody:
  assumes "slotInv s"
  shows "custody (serve parse master now request r s) = add_mset r (custody s)
    \<and> slotInv (serve parse master now request r s)"
proof -
  have slot: "slotInv (completeReply r x u) = slotInv u" for x and u :: "'a ctl_scheme"
    by (simp add: slotInv_def)
  have exn: "custody (answerException (completeReply r) e s) = add_mset r (custody s)
      \<and> slotInv (answerException (completeReply r) e s)" for e
    using assms slot by (cases e) (simp_all add: answerException_def)
  show ?thesis
  proof (cases "route parse request (controlHost s)")
    case (Respond x)
    then show ?thesis using assms slot by (simp add: serve_def Dispatch_def)
  next
    case (Throw e)
    then show ?thesis using exn by (simp add: serve_def Dispatch_def)
  next
    case (Handle h operation input)
    show ?thesis
    proof (cases "HandleControlRequest master now operation request input r s")
      case (Inl e)
      with Handle exn show ?thesis by (simp add: serve_def Dispatch_def)
    next
      case (Inr s')
      with Handle HandleControlRequest_custody [OF assms Inr] show ?thesis
        by (simp add: serve_def Dispatch_def)
    qed
  qed
qed

text \<open>
  Runs of the control executor with the other threads in between. The first component collects the
  reply objects of the requests so far; \<open>C\<close> are the replies whose client gives up at some time.
\<close>

inductive control_step ::
  "(nat \<Rightarrow> bool) \<Rightarrow> nat set \<times> 'z ctl_scheme \<Rightarrow> nat set \<times> 'z ctl_scheme \<Rightarrow> bool" for C where
  request: "r \<notin> R \<Longrightarrow> control_step C (R, s) (insert r R, serve parse master now request r s)"
| flush: "\<forall>r. cancelled r \<longrightarrow> C r \<Longrightarrow>
    control_step C (R, s) (R, FlushControl printJson identifier master now cancelled locked s)"
| other: "controlReplies s' = controlReplies s \<Longrightarrow> pendingControl s' = pendingControl s \<Longrightarrow>
    controlWatchers s' = controlWatchers s \<Longrightarrow> captureReply s' = captureReply s \<Longrightarrow>
    captureReply s = None \<or> hs_capture_reserved (controlHost s') \<Longrightarrow>
    control_step C (R, s) (R, s')"

definition custodyOk :: "(nat \<Rightarrow> bool) \<Rightarrow> nat set \<times> 'z ctl_scheme \<Rightarrow> bool" where
  "custodyOk C c \<longleftrightarrow> slotInv (snd c)
     \<and> (\<forall>r. count (custody (snd c)) r \<le> 1 \<and> (r \<notin> fst c \<longrightarrow> count (custody (snd c)) r = 0)
          \<and> (r \<in> fst c \<and> \<not> C r \<longrightarrow> count (custody (snd c)) r = 1))"

lemma request_keeps_custodyOk:
  assumes "custodyOk C (R, s)" and "r \<notin> R"
  shows "custodyOk C (insert r R, serve parse master now q r s)"
proof -
  have "slotInv s" using assms by (simp add: custodyOk_def)
  from serve_custody [OF this, of parse master now q r] assms show ?thesis
    by (auto simp: custodyOk_def)
qed

lemma flush_keeps_custodyOk:
  assumes "custodyOk C (R, s)" and "\<forall>r. cancelled r \<longrightarrow> C r"
  shows "custodyOk C (R, FlushControl printJson i master now cancelled locked s)"
proof -
  have inv: "slotInv s" using assms by (simp add: custodyOk_def)
  obtain u where u: "u = FlushControl printJson i master now cancelled locked s" by simp
  note keep = FlushControl_custody [OF inv, of printJson i master now cancelled locked, folded u]
  have "count (custody u) r \<le> 1 \<and> (r \<notin> R \<longrightarrow> count (custody u) r = 0)
      \<and> (r \<in> R \<and> \<not> C r \<longrightarrow> count (custody u) r = 1)" for r
  proof -
    have "count (custody s) r \<le> 1 \<and> (r \<notin> R \<longrightarrow> count (custody s) r = 0)
        \<and> (r \<in> R \<and> \<not> C r \<longrightarrow> count (custody s) r = 1)"
      using assms(1) by (simp add: custodyOk_def)
    moreover have "count (custody u) r \<le> count (custody s) r"
      by (rule mset_subset_eq_count) (use keep in blast)
    moreover have "\<not> C r \<longrightarrow> count (custody u) r = count (custody s) r"
      using keep [of r] assms(2) by blast
    ultimately show ?thesis by auto
  qed
  moreover have "slotInv u" using keep by blast
  ultimately show ?thesis unfolding u [symmetric] by (simp add: custodyOk_def)
qed

lemma control_step_custody:
  assumes "control_step C c c'" and "custodyOk C c"
  shows "custodyOk C c'"
  using assms
proof cases
  case (other s' s R)
  then have "custody s' = custody s" by (simp add: custody_def answered_def)
  moreover have "slotInv s'" using other by (auto simp: slotInv_def)
  ultimately show ?thesis using other assms(2) by (simp add: custodyOk_def)
qed (use assms(2) in \<open>simp_all add: request_keeps_custodyOk flush_keeps_custodyOk\<close>)

lemma control_steps_custody: "(control_step C)\<^sup>*\<^sup>* c c' \<Longrightarrow> custodyOk C c \<Longrightarrow> custodyOk C c'"
  by (induction rule: rtranclp_induct) (auto dest: control_step_custody)

text \<open>
  C3: Every request is accounted for, exactly once: whatever requests arrive (malformed ones, ones
  for unknown routes and ones the handlers reject included) and however flushes and the other threads
  interleave, no reply is completed twice, and a request whose client does not give up is at any time
  either answered or held by exactly one of the slots that the flush empties.
\<close>

theorem every_request_accounted_once:
  assumes "(control_step C)\<^sup>*\<^sup>* ({}, s0) (R, s)" and "custody s0 = {#}"
  shows "distinct (map fst (controlReplies s))
    \<and> (r \<in> R \<and> \<not> C r \<longrightarrow> count (custody s) r = 1) \<and> (r \<notin> R \<longrightarrow> count (custody s) r = 0)"
proof -
  have "custodyOk C ({}, s0)"
    using assms(2) by (auto simp: custodyOk_def slotInv_def custody_def heldCapture_def split: option.splits)
  then have ok: "custodyOk C (R, s)"
    using control_steps_custody assms(1) by blast
  have "count (mset (map fst (controlReplies s))) x \<le> 1" for x
  proof -
    have "count (mset (map fst (controlReplies s))) x \<le> count (custody s) x"
      by (simp add: custody_def answered_def)
    also have "\<dots> \<le> 1" using ok by (simp add: custodyOk_def)
    finally show ?thesis .
  qed
  then have "distinct (map fst (controlReplies s))"
    unfolding distinct_count_atmost_1 by (metis count_greater_zero_iff le_antisym less_one not_less set_mset_mset count_eq_zero_iff)
  with ok show ?thesis by (simp add: custodyOk_def)
qed

section \<open>Concrete runs\<close>

definition ctlStart :: ctl where
  "ctlStart = enc.extend encStart
     \<lparr>rtpHost = ''127.0.0.1'', rtpPort = 5004, controlSocketPath = ''/run/xgc'',
      rosCameraInfoTopic = [],
      pluginObject = 0,
      controlHost = \<lparr>hs_sources = \<lparr>src_id = ''front'', src_handler = Some 0\<rparr> # replicate 15 freeSource,
        hs_path = ''/run/xgc'', hs_instance_id = ''i'', hs_target_id = ''t'',
        hs_capture_reserved = False, hs_stopping = False\<rparr>,
      controlRegistered = True, pendingControl = None, controlWatchers = replicate kWatchers None,
      controlReceipts = replicate kReceipts JNull, nextControlReceipt = 0, desiredRevision = 0,
      appliedRevision = 0, controlEventRevision = 0,
      desiredConfig = JObject [(''active'', JBool False), (''jpeg_quality'', JInt 90)],
      appliedConfig = JObject [(''active'', JBool False), (''jpeg_quality'', JInt 90)],
      appliedTimeNanoseconds = 0, captureReply = None, captureRequestID = [], captureDeadline = 0,
      controlReplies = []\<rparr>"

lemma ctlStart_fields [simp]:
  "pendingControl ctlStart = None" "controlWatchers ctlStart = replicate kWatchers None"
  "controlReceipts ctlStart = replicate kReceipts JNull" "nextControlReceipt ctlStart = 0"
  "controlEventRevision ctlStart = 0" "captureReply ctlStart = None" "controlReplies ctlStart = []"
  "desiredRevision ctlStart = 0"
  "desiredConfig ctlStart = JObject [(''active'', JBool False), (''jpeg_quality'', JInt 90)]"
  by (simp_all add: ctlStart_def enc.extend_def)

lemma heldWatchers_empty [simp]: "heldWatchers (replicate n None) = {#}"
  by (induction n) simp_all

lemma ctlStart_custody: "custody ctlStart = {#}"
  by (simp add: custody_def answered_def)

definition demoRequest :: control_request where
  "demoRequest = \<lparr>rq_method = ''POST'', rq_target = ''/v1/media/sources/front/start'', rq_body = [],
     rq_request_id = ''q'', rq_deadline = 100\<rparr>"

definition demoMaster :: ros_master where
  "demoMaster = \<lparr>rm_state = ''ready'', rm_uri = [], rm_run_id = [], rm_pid = 0\<rparr>"

theorem parseCalibration_valid_witness:
  "\<exists>m. parseCalibration (JObject [(''scope'', JString ''calibration-metadata''),
      (''model'', JString ''equidistant''), (''width'', JInt 4), (''height'', JInt 2),
      (''camera_matrix'', JArray (map JInt [5, 0, 2, 0, 5, 1, 0, 0, 1])),
      (''distortion'', JArray (map JInt [1, 2, 3, 4]))])
      (ctlStart\<lparr>streamWidth := 4, streamHeight := 2\<rparr>) = Inr m
    \<and> cal_width m = 4 \<and> length (cal_distortion m) = 8"
proof -
  have r: "\<exists>m. parseCalibration (JObject [(''scope'', JString ''calibration-metadata''),
      (''model'', JString ''equidistant''), (''width'', JInt 4), (''height'', JInt 2),
      (''camera_matrix'', JArray (map JInt [5, 0, 2, 0, 5, 1, 0, 0, 1])),
      (''distortion'', JArray (map JInt [1, 2, 3, 4]))])
      (ctlStart\<lparr>streamWidth := 4, streamHeight := 2\<rparr>) = Inr m"
    by (simp add: parseCalibration_def RequireFields_def jget_def isUInt32_def distortionModel_def)
  then show ?thesis using parseCalibration_valid by fastforce
qed

theorem receipt_read_back_witness:
  "receiptNamed ''operation_id'' ''a'' (rememberAll [(''a'', ''start'', ''completed'', []),
      (''b'', ''stop'', ''completed'', [])] ctlStart)
    = Some (fst (RememberReceipt ''a'' ''start'' ''completed'' [] ctlStart))"
  using receipt_read_back [of ctlStart "''a''" "[(''b'', ''stop'', ''completed'', [])]" "''start''"
      "''completed''" "[]"]
  by (simp add: kReceipts_def jget_def)

theorem unused_slot_answers_empty_identifier_witness:
  "handleReceipt [] 7 ctlStart = completeReply 7 (JSONResponse JNull) ctlStart"
  using unused_slot_answers_empty_identifier [of ctlStart 7] by (simp add: kReceipts_def)

definition demoWatcher :: control_watcher where
  "demoWatcher = \<lparr>cw_reply = 3, cw_deadline = 100, cw_after = 0\<rparr>"

theorem observers_left_waiting_witness:
  "50 < cw_deadline demoWatcher"
proof -
  have "Some demoWatcher \<in> set (controlWatchers (FlushControl (\<lambda>v. []) [] demoMaster 50 (\<lambda>r. False) True
      (ctlStart\<lparr>controlWatchers := [Some demoWatcher]\<rparr>)))"
    by (simp add: FlushControl_def flushPending_def flushWatcher_def demoWatcher_def Let_def)
  from observers_left_waiting [OF this] show ?thesis by simp
qed

theorem every_request_accounted_once_witness:
  "count (custody (serve (\<lambda>b. None) demoMaster 10 demoRequest 7 ctlStart)) 7 = 1"
proof -
  have "control_step (\<lambda>r. False) ({}, ctlStart)
      (insert 7 {}, serve (\<lambda>b. None) demoMaster 10 demoRequest 7 ctlStart)"
    by (rule control_step.request) simp
  from every_request_accounted_once [OF r_into_rtranclp [of "control_step (\<lambda>r. False)", OF this]
      ctlStart_custody, of 7]
  show ?thesis by simp
qed

end
