(* ===== verification/Control_Handover.thy ===== *)
theory Control_Handover
  imports Control_Requests
begin

text \<open>
  The way of a mutation from the control executor to the render thread and back: the abstract
  protocol, its refinement by the render callbacks, and the invariant that a pending mutation is
  never lost.
\<close>

section \<open>What the render thread leaves alone\<close>

locale session_view = capture_view +
  assumes session_fields [simp]:
    "view (nvencLibrary_update k1 s) = view s"
    "view (nvencApi_update k2 s) = view s"
    "view (encoderOpen_update k3 s) = view s"
    "view (registeredInput_update k4 s) = view s"
    "view (bitstream_update k5 s) = view s"
    "view (encoderTexture_update k6 s) = view s"
    "view (readFramebuffer_update k7 s) = view s"
    "view (drawFramebuffer_update k8 s) = view s"
    "view (encoderTextureWidth_update k9 s) = view s"
    "view (encoderTextureHeight_update k10 s) = view s"
    "view (encoderWidth_update k11 s) = view s"
    "view (encoderHeight_update k12 s) = view s"
    "view (encodedFrameIndex_update k13 s) = view s"
    "view (sourceFrameSequence_update k14 s) = view s"
    "view (pendingEncodedFrames_update k15 s) = view s"
    "view (lastSourceTimeNanoseconds_update k16 s) = view s"
    "view (encoderEverInitialized_update k17 s) = view s"
    "view (encoderResourcesActive_update k18 s) = view s"
    "view (nvencCalls_update k19 s) = view s"
    "view (streamWidth_update k20 s) = view s"
    "view (streamHeight_update k21 s) = view s"
    "view (streamFrameRate_update k22 s) = view s"
    "view (streamKeyframeIntervalFrames_update k23 s) = view s"
    "view (rosFreshRenderGate_update k24 s) = view s"
begin

lemma logCalls [simp]: "view (logCalls cs s) = view s"
  by (simp add: logCalls_def)

lemma DestroyConversionTexture [simp]: "view (DestroyConversionTexture s) = view s"
  by (simp add: DestroyConversionTexture_def Let_def)

lemma DestroyEncoder [simp]: "view (DestroyEncoder s) = view s"
  by (simp add: DestroyEncoder_def Let_def)

lemma failEncoder [simp]: "view (snd (failEncoder m s)) = view s"
  by (simp add: failEncoder_def)

lemma EnsureConversionTexture [simp]: "view (snd (EnsureConversionTexture a w h s)) = view s"
proof -
  obtain glew s0 where g: "EnsureGLEWDispatch (na_gl a) s = (glew, s0)"
    by (cases "EnsureGLEWDispatch (na_gl a) s")
  then have s0: "view s0 = view s" using capture_more(2) [of "na_gl a" s] by simp
  obtain m where m: "m = ''OpenGL could not allocate the GPU-only NVENC conversion texture''" by simp
  show ?thesis
    unfolding EnsureConversionTexture_def m [symmetric] g prod.case
    by (cases glew) (simp_all add: s0 Let_def)
qed

lemma announceEncoder:
  assumes "keeps view between"
  shows "view (announceEncoder between w h s) = view s"
  using assms by (simp add: announceEncoder_def Let_def keeps_def)

lemma EnsureEncoder:
  assumes "keeps view between"
  shows "view (snd (EnsureEncoder a between w h s)) = view s"
proof -
  obtain s0 where s0: "s0 = DestroyEncoder s" by simp
  obtain ok s1 where e: "EnsureConversionTexture a w h s0 = (ok, s1)"
    by (cases "EnsureConversionTexture a w h s0")
  have v1: "view s1 = view s" "view s0 = view s"
    using EnsureConversionTexture [of a w h s0, unfolded e] by (simp_all add: s0)
  obtain s2 where s2: "s2 = logCalls [NvDlopen] (s1\<lparr>nvencLibrary := True\<rparr>)" by simp
  obtain s3 where s3: "s3 = s2\<lparr>nvencApi := (case na_create a of None \<Rightarrow> emptyTable | Some t \<Rightarrow> t)\<rparr>" by simp
  obtain s4 where s4: "s4 = (if snd (na_session a) then logCalls [NvOpen] (s3\<lparr>encoderOpen := True\<rparr>) else s3)" by simp
  obtain s5 where s5: "s5 = logCalls [NvRegister] (s4\<lparr>registeredInput := True\<rparr>)" by simp
  obtain s6 where s6: "s6 = logCalls [NvCreateBitstream] (s5\<lparr>bitstream := True\<rparr>)" by simp
  have vs: "view s2 = view s" "view s3 = view s" "view s4 = view s" "view s5 = view s" "view s6 = view s"
    by (simp_all add: s2 s3 s4 s5 s6 v1)
  obtain m1 m2 m3 m4 m5 m6 m7 m8 where m:
    "m1 = ''libnvidia-encode.so.1 is unavailable; no CPU fallback is permitted''"
    "m2 = ''NvEncodeAPICreateInstance is unavailable''"
    "m3 = ''NVENC API initialization failed''"
    "m4 = ''NVENC could not open an OpenGL encode session''"
    "m5 = ''NVENC low-latency H264 preset is unavailable''"
    "m6 = ''NVENC could not initialize H264 encoding''"
    "m7 = ''NVENC could not register the OpenGL texture''"
    "m8 = ''NVENC could not allocate an H264 bitstream buffer''" by simp
  show ?thesis
    unfolding EnsureEncoder_def Let_def s0 [symmetric] e prod.case m [symmetric]
      s2 [symmetric] s3 [symmetric] s4 [symmetric] s5 [symmetric] s6 [symmetric]
    using v1 vs announceEncoder [OF assms, of w h s6]
    by (cases ok) simp_all
qed

lemma ObserveSourceTime: "view (ObserveSourceTime t s) = view s"
proof -
  obtain m where m: "m = ''simulation time moved backwards; starting a new stream epoch''" by simp
  show ?thesis
    unfolding ObserveSourceTime_def Let_def m [symmetric] by (simp split: option.split)
qed

lemma CopyTexture: "view (snd (CopyTextureToEncoderInput a s)) = view s"
  unfolding CopyTextureToEncoderInput_def Let_def by (cases a) simp_all

lemma ROSRenderIsFresh: "view (snd (ROSRenderIsFreshForCurrentActivation s)) = view s"
  unfolding ROSRenderIsFreshForCurrentActivation_def Let_def by (simp split: prod.split)

end

section \<open>The hand-over\<close>

text \<open>
  A mutation is offered by the control executor, taken by the render thread, and applied or failed;
  \<open>ho_applied\<close> and \<open>ho_failed\<close> are the revisions last reported.
\<close>

record handover =
  ho_offered :: "native_command option"
  ho_taken :: "native_command option"
  ho_applied :: u64
  ho_failed :: u64

definition handover :: "'z enc_scheme \<Rightarrow> handover" where
  "handover s = \<lparr>ho_offered = nativeCommand s, ho_taken = awaitingNativeControl s,
     ho_applied = nativeAppliedRevision s, ho_failed = nativeFailedRevision s\<rparr>"

inductive handover_move :: "handover \<Rightarrow> handover \<Rightarrow> bool" where
  take_config: "ho_offered h = Some c \<Longrightarrow> nc_kind c = 0 \<Longrightarrow>
    handover_move h (h\<lparr>ho_offered := None, ho_applied := nc_revision c\<rparr>)"
| take_command: "ho_offered h = Some c \<Longrightarrow> nc_kind c \<noteq> 0 \<Longrightarrow>
    handover_move h (h\<lparr>ho_offered := None, ho_taken := Some c\<rparr>)"
| acknowledge: "ho_taken h = Some c \<Longrightarrow>
    handover_move h (h\<lparr>ho_applied := nc_revision c, ho_taken := None\<rparr>)"
| give_up: "ho_taken h = Some c \<Longrightarrow> nc_kind c \<in> {1, 3} \<Longrightarrow>
    handover_move h (h\<lparr>ho_failed := nc_revision c, ho_taken := None\<rparr>)"

inductive_cases handover_moveE: "handover_move h h'"

interpretation hv: session_view handover
  by unfold_locales (simp_all add: handover_def LogEncoderError_def WakeControl_def Let_def)

definition paired :: "('z enc_scheme \<Rightarrow> 'r) \<Rightarrow> 'z enc_scheme \<Rightarrow> handover \<times> 'r" where
  "paired rest s = (handover s, rest s)"

text \<open>\<open>turned\<close>: the hand-over moved some steps, the rest not at all.\<close>

definition turned :: "('z enc_scheme \<Rightarrow> 'r) \<Rightarrow> 'z enc_scheme \<Rightarrow> 'z enc_scheme \<Rightarrow> bool" where
  "turned rest s s' \<longleftrightarrow> handover_move\<^sup>*\<^sup>* (handover s) (handover s') \<and> rest s' = rest s"

lemma turned_still: "paired rest s' = paired rest s \<Longrightarrow> turned rest s s'"
  by (simp add: turned_def paired_def)

lemma turned_refl [simp]: "turned rest s s"
  by (simp add: turned_def)

lemma turned_trans: "turned rest s s1 \<Longrightarrow> turned rest s1 s2 \<Longrightarrow> turned rest s s2"
  by (auto simp: turned_def)

lemma turned_move:
  "handover_move (handover s) (handover s') \<Longrightarrow> rest s' = rest s \<Longrightarrow> turned rest s s'"
  by (simp add: turned_def)

text \<open>Whatever else the render thread writes.\<close>

locale render_view = session_view rest for rest :: "'z enc_scheme \<Rightarrow> 'r" +
  assumes commands [simp]:
    "rest (awaitingNativeControl_update g1 s) = rest s"
    "rest (nativeAppliedActive_update g2 s) = rest s"
    "rest (nativeLifecycleState_update g3 s) = rest s"
    "rest (nativeAppliedTime_update g4 s) = rest s"
    "rest (nativeAppliedRevision_update g5 s) = rest s"
    "rest (nativeCaptureKeyframePending_update g6 s) = rest s"
    "rest (nativeCaptureKeyframeApplied_update g7 s) = rest s"
    "rest (nativeCaptureKeyframeFailed_update g8 s) = rest s"
    "rest (nativeFailedRevision_update g9 s) = rest s"
    "rest (nativeCommand_update g10 s) = rest s"
    "rest (desiredActive_update g11 s) = rest s"
    "rest (jpegQuality_update g12 s) = rest s"
    "rest (rosFreshRenderGeneration_update g13 s) = rest s"
    "rest (calibrationMetadata_update g14 s) = rest s"
    "rest (rosCameraInfoPending_update g15 s) = rest s"
    "rest (sensorActive_update g16 s) = rest s"
    "rest (nativeSensorActive_update g17 s) = rest s"
    "rest (cameraFound_update g18 s) = rest s"
    "rest (listening_update g19 s) = rest s"
    "rest (cleanupEncoderRequested_update g20 s) = rest s"
    "rest (renderFrameSequence_update g21 s) = rest s"

sublocale render_view \<subseteq> pair: session_view "paired rest"
  by unfold_locales (simp_all add: paired_def)

text \<open>The fields of the commands that the hand-over does not show.\<close>

lemma handover_more [simp]:
  "handover (nativeAppliedActive_update g1 s) = handover s"
  "handover (nativeLifecycleState_update g2 s) = handover s"
  "handover (nativeAppliedTime_update g3 s) = handover s"
  "handover (nativeCaptureKeyframePending_update g4 s) = handover s"
  "handover (nativeCaptureKeyframeApplied_update g5 s) = handover s"
  "handover (nativeCaptureKeyframeFailed_update g6 s) = handover s"
  "handover (desiredActive_update g7 s) = handover s"
  "handover (jpegQuality_update g8 s) = handover s"
  "handover (rosFreshRenderGeneration_update g9 s) = handover s"
  "handover (calibrationMetadata_update g10 s) = handover s"
  "handover (rosCameraInfoPending_update g11 s) = handover s"
  "handover (sensorActive_update g12 s) = handover s"
  "handover (nativeSensorActive_update g13 s) = handover s"
  "handover (cameraFound_update g14 s) = handover s"
  "handover (listening_update g15 s) = handover s"
  "handover (cleanupEncoderRequested_update g16 s) = handover s"
  "handover (renderFrameSequence_update g17 s) = handover s"
  by (simp_all add: handover_def)

lemma handover_writes [simp]:
  "handover (s\<lparr>nativeCommand := x\<rparr>) = (handover s)\<lparr>ho_offered := x\<rparr>"
  "handover (s\<lparr>awaitingNativeControl := x\<rparr>) = (handover s)\<lparr>ho_taken := x\<rparr>"
  "handover (s\<lparr>nativeAppliedRevision := n\<rparr>) = (handover s)\<lparr>ho_applied := n\<rparr>"
  "handover (s\<lparr>nativeFailedRevision := n\<rparr>) = (handover s)\<lparr>ho_failed := n\<rparr>"
  "ho_offered (handover s) = nativeCommand s" "ho_taken (handover s) = awaitingNativeControl s"
  "ho_applied (handover s) = nativeAppliedRevision s" "ho_failed (handover s) = nativeFailedRevision s"
  by (simp_all add: handover_def)

lemma handover_complete [simp]:
  "handover (CompleteNativeControl c s) = (handover s)\<lparr>ho_applied := nc_revision c\<rparr>"
  by (simp add: CompleteNativeControl_def Let_def)

context render_view
begin

lemma complete [simp]: "rest (CompleteNativeControl c s) = rest s"
  by (simp add: CompleteNativeControl_def Let_def)

lemma complete_turned:
  assumes "awaitingNativeControl s = Some c" and "paired rest s' = paired rest s"
  shows "turned rest s (CompleteNativeControl c s'\<lparr>awaitingNativeControl := None\<rparr>)"
proof (rule turned_move)
  have "handover s' = handover s" using assms(2) by (simp add: paired_def)
  then show "handover_move (handover s) (handover (CompleteNativeControl c s'\<lparr>awaitingNativeControl := None\<rparr>))"
    using handover_move.acknowledge [of "handover s" c] assms(1) by simp
qed (use assms(2) in \<open>simp add: paired_def\<close>)

lemma ApplyNativeControl_turned: "turned rest s (ApplyNativeControl c p s)"
proof (cases "nativeCommand s")
  case None
  then show ?thesis by (simp add: ApplyNativeControl_def turned_refl)
next
  case (Some command)
  show ?thesis
  proof (cases "\<not> c \<or> (nc_calibration command \<noteq> None \<and> \<not> p)")
    case True
    then show ?thesis using Some by (auto simp: ApplyNativeControl_def turned_refl)
  next
    case False
    obtain u where u: "rest u = rest s" "handover u = (handover s)\<lparr>ho_offered := None\<rparr>"
      "ApplyNativeControl c p s = (if nc_kind command = 0 then CompleteNativeControl command u
         else u\<lparr>awaitingNativeControl := Some command\<rparr>)"
    proof
      let ?s1 = "s\<lparr>nativeCommand := None, desiredActive := nc_active command,
                   jpegQuality := nc_jpegQuality command\<rparr>"
      let ?s2 = "if nc_keyframe command \<or> (nc_active command \<and> \<not> desiredActive s)
                  then ?s1\<lparr>forceKeyframe := True\<rparr> else ?s1"
      let ?s3 = "if nc_active command \<and> \<not> desiredActive s \<and> \<not> rosConsumersActive ?s2
                  then ?s2\<lparr>rosFreshRenderGeneration := rosFreshRenderGeneration ?s2 + 1\<rparr> else ?s2"
      let ?s4 = "if \<not> nc_active command then ClearRTPQueue ?s3 else ?s3"
      let ?s5 = "case nc_calibration command of None \<Rightarrow> ?s4
                 | Some m \<Rightarrow> ?s4\<lparr>calibrationMetadata := m, rosCameraInfoPending := True\<rparr>"
      let ?s6 = "?s5\<lparr>sensorActive := (nc_active command \<or> rosConsumersActive ?s5 \<or> SnapshotNeedsRender ?s5)\<rparr>"
      let ?s7 = "?s6\<lparr>nativeSensorActive := sensorActive ?s6\<rparr>"
      show "rest ?s7 = rest s" by (simp split: option.split)
      show "handover ?s7 = (handover s)\<lparr>ho_offered := None\<rparr>" by (simp split: option.split)
      show "ApplyNativeControl c p s = (if nc_kind command = 0 then CompleteNativeControl command ?s7
         else ?s7\<lparr>awaitingNativeControl := Some command\<rparr>)"
        using False Some by (simp only: ApplyNativeControl_def Let_def option.case simp_thms if_False split: if_split) blast
    qed
    show ?thesis
    proof (rule turned_move)
      show "handover_move (handover s) (handover (ApplyNativeControl c p s))"
        using handover_move.take_config [of "handover s" command] u Some
          handover_move.take_command [of "handover s" command] by simp
    qed (use u in simp)
  qed
qed

lemma CompleteNativeStop_turned: "turned rest s (CompleteNativeStopIfDrained s)"
proof (cases "awaitingNativeControl s")
  case None
  then show ?thesis by (simp add: CompleteNativeStopIfDrained_def turned_refl)
next
  case (Some c)
  let ?s1 = "if \<not> rosConsumersActive s \<and> \<not> SnapshotNeedsRender s then s\<lparr>sensorActive := False\<rparr> else s"
  let ?s2 = "?s1\<lparr>nativeSensorActive := sensorActive ?s1\<rparr>"
  have "paired rest ?s2 = paired rest s" by (simp add: paired_def)
  note done1 = complete_turned [OF Some this]
  show ?thesis
    unfolding CompleteNativeStopIfDrained_def Let_def Some option.case
    using done1 turned_refl by (simp only: split: if_split) blast
qed

lemma FailNative_turned: "turned rest s (FailNativeEncoderTransition s)"
proof -
  let ?s1 = "s\<lparr>nativeCaptureKeyframePending := 0\<rparr>"
  obtain s2 where s2: "s2 = (if nativeCaptureKeyframePending s \<noteq> 0
    then ?s1\<lparr>nativeCaptureKeyframeFailed := nativeCaptureKeyframePending s\<rparr> else ?s1)" by simp
  have v2: "rest s2 = rest s" "handover s2 = handover s" by (simp_all add: s2)
  then have a2: "awaitingNativeControl s2 = awaitingNativeControl s"
    by (metis handover_writes(6))
  show ?thesis
  proof (cases "awaitingNativeControl s")
    case None
    then show ?thesis using v2 a2
      by (simp add: FailNativeEncoderTransition_def s2 [symmetric] Let_def turned_def)
  next
    case (Some command)
    obtain s3 where s3: "s3 = WakeControl (DestroyEncoder (ClearRTPQueue
        (s2\<lparr>nativeFailedRevision := nc_revision command,
          awaitingNativeControl := None, desiredActive := False, nativeAppliedActive := False,
          nativeLifecycleState := 4\<rparr>)))" by simp
    have "rest s3 = rest s"
      "handover s3 = (handover s)\<lparr>ho_failed := nc_revision command, ho_taken := None\<rparr>"
      by (simp_all add: s3 v2)
    then have "turned rest s s3" if "nc_kind command \<in> {1, 3}"
      using handover_move.give_up [of "handover s" command] Some that by (intro turned_move) simp_all
    moreover have "FailNativeEncoderTransition s =
        (if nc_kind command = 1 \<or> nc_kind command = 3 then s3 else s2)"
      unfolding s3 FailNativeEncoderTransition_def Let_def s2 [symmetric]
      by (simp only: a2 Some option.case)
    moreover have "turned rest s s2" using v2 by (simp add: turned_def)
    ultimately show ?thesis by simp
  qed
qed

lemma turned_same: "turned rest s s1 \<Longrightarrow> paired rest s2 = paired rest s1 \<Longrightarrow> turned rest s s2"
  using turned_trans turned_still by blast

lemma acknowledgeKeyframe_turned: "turned rest s (acknowledgeKeyframe m s)"
proof -
  obtain s1 where s1: "s1 = (case awaitingNativeControl s of None \<Rightarrow> s
      | Some command \<Rightarrow> if pef_keyframeControlRevision m \<noteq> 0 \<and> nc_kind command = 3
          \<and> nc_revision command = pef_keyframeControlRevision m
        then CompleteNativeControl command s\<lparr>awaitingNativeControl := None\<rparr> else s)" by simp
  have "turned rest s s1"
    using complete_turned [of s _ s] turned_refl by (auto simp: s1 split: option.split)
  moreover have "paired rest (acknowledgeKeyframe m s) = paired rest s1"
    unfolding acknowledgeKeyframe_def Let_def s1 [symmetric] by (simp add: paired_def)
  ultimately show ?thesis by (rule turned_same)
qed

lemma SendH264AccessUnit_turned:
  assumes "keeps (paired rest) between"
  shows "turned rest s (snd (SendH264AccessUnit between data t m s))"
proof -
  let ?k = "isKeyframe (SplitAnnexB data)"
  obtain s1 where s1: "s1 = (if ?k then acknowledgeKeyframe m s else s)" by simp
  obtain s2 where s2: "s2 = snd (EnqueueROSAccessUnit between data t ?k m s1)" by simp
  have "turned rest s s1" using acknowledgeKeyframe_turned turned_refl by (simp add: s1)
  moreover have "paired rest s2 = paired rest s1" using pair.EnqueueROS [OF assms] by (simp add: s2)
  ultimately have v: "turned rest s s2" by (rule turned_same)
  have "SendH264AccessUnit between data t m s = (if data = [] then (False, s)
     else if SplitAnnexB data = [] then
       (False, LogEncoderError ''NVENC produced a non-Annex-B H264 access unit'' s)
     else if \<not> desiredActive s2 \<or> rtpSocket s2 < 0 then (True, s2)
     else case packetizeLoop [] t (SplitAnnexB data) of None \<Rightarrow> (False, s2)
       | Some packets \<Rightarrow> EnqueueRTPAccessUnit packets ?k s2)"
    unfolding s2 s1 by (simp only: SendH264AccessUnit_def Let_def)
  moreover obtain m' where "m' = ''NVENC produced a non-Annex-B H264 access unit''" by simp
  ultimately show ?thesis
    using v turned_refl turned_same [OF v] pair.EnqueueRTP [of _ ?k s2]
      turned_still [of rest "LogEncoderError m' s" s] by (simp split: option.split)
qed

lemma collectOutput_turned:
  assumes "keeps (paired rest) (fa_enqueue fa)"
  shows "turned rest s (snd (snd (collectOutput fa s)))"
proof -
  obtain m1 m2 m3 where m: "m1 = ''NVENC could not lock the H264 bitstream''"
    "m2 = ''NVENC output timestamp has no source-frame timing metadata''"
    "m3 = ''NVENC retained too many delayed frames; rebuilding the encoder''" by simp
  have still: "turned rest s u" if "paired rest u = paired rest s" for u
    using that by (rule turned_still)
  have take: "paired rest (snd (TakePendingEncodedFrame x u)) = paired rest u" for x u
    by (simp add: TakePendingEncodedFrame_def split: option.split)
  have sent: "turned rest s (logCalls [NvUnlock] (snd (SendH264AccessUnit (fa_enqueue fa) d x p u)))"
    if "paired rest u = paired rest s" for d x p u
  proof (rule turned_same)
    show "turned rest s (snd (SendH264AccessUnit (fa_enqueue fa) d x p u))"
      using turned_trans [OF still [OF that] SendH264AccessUnit_turned [OF assms]] .
  qed simp
  show ?thesis
  proof (cases "fa_encode fa = EncSuccess")
    case False
    then show ?thesis unfolding collectOutput_def m [symmetric] using still by simp
  next
    case True
    show ?thesis
    proof (cases "fa_lock fa")
      case None
      then show ?thesis unfolding collectOutput_def m [symmetric] using True still by simp
    next
      case (Some l)
      obtain data stamp where l: "l = (data, stamp)" by (cases l)
      obtain x s1 where tk: "TakePendingEncodedFrame stamp (logCalls [NvLock] s) = (x, s1)"
        by (cases "TakePendingEncodedFrame stamp (logCalls [NvLock] s)")
      have s1: "paired rest s1 = paired rest s" using take [of stamp "logCalls [NvLock] s"] tk by simp
      show ?thesis unfolding collectOutput_def m [symmetric] Some l option.case prod.case tk
        using True still s1 sent [OF s1] by (auto split: option.split prod.split) (metis snd_conv)
    qed
  qed
qed

lemma submitFrame_turned:
  assumes "keeps (paired rest) (fa_enqueue fa)"
  shows "turned rest s (snd (submitFrame fa t s))"
proof -
  obtain m1 m2 where m: "m1 = ''NVENC could not map the OpenGL input texture''"
    "m2 = ''NVENC could not encode the OpenGL frame''" by simp
  obtain s1 where s1: "s1 = logCalls [NvMap] (s\<lparr>forceKeyframe := False\<rparr>)" by simp
  obtain s2 where s2: "s2 = s1\<lparr>sourceFrameSequence := sourceFrameSequence s1 + 1,
      pendingEncodedFrames := pendingEncodedFrames s1 @ [newPendingFrame (forceKeyframe s) t s1]\<rparr>"
    by simp
  have v2: "paired rest s2 = paired rest s" by (simp add: s2 s1)
  obtain sent recreate s3 where c: "collectOutput fa s2 = (sent, recreate, s3)"
    by (cases "collectOutput fa s2")
  have v3: "turned rest s s3"
    using turned_trans [OF turned_still [OF v2] collectOutput_turned [OF assms, of s2]] c by simp
  have "submitFrame fa t s = (if \<not> fa_map fa then (False, LogEncoderError m1 s)
      else if fa_encode fa = EncError
      then (False, DestroyEncoder (resetStream m2 (logCalls [NvUnmap] s2)))
      else if recreate then (False, DestroyEncoder (logCalls [NvUnmap] s3))
      else (sent, (logCalls [NvUnmap] s3)
        \<lparr>encodedFrameIndex := encodedFrameIndex (logCalls [NvUnmap] s3) + 1\<rparr>))"
    unfolding m submitFrame_def Let_def s1 [symmetric] s2 [symmetric] c prod.case by (rule refl)
  moreover have "turned rest s (LogEncoderError m1 s)" by (rule turned_still) simp
  moreover have "turned rest s (DestroyEncoder (resetStream m2 (logCalls [NvUnmap] s2)))"
    by (rule turned_still) (simp add: v2)
  ultimately show ?thesis using turned_same [OF v3] by simp
qed

lemma EncodeRenderedFrame_turned:
  assumes "keeps (paired rest) (fa_between fa)" and "keeps (paired rest) (fa_enqueue fa)"
  shows "turned rest s (snd (EncodeRenderedFrame cam fa s))"
proof -
  obtain m where m: "m = ''Gazebo camera render texture is not a GL_TEXTURE_2D texture''" by simp
  obtain s1 where s1: "s1 = ObserveSourceTime (SourceTimeNanoseconds s) s" by simp
  obtain e s2 where e: "EnsureEncoder (fa_encoder fa) (fa_between fa) (cam_width cam) (cam_height cam) s1
      = (e, s2)" by (cases "EnsureEncoder (fa_encoder fa) (fa_between fa) (cam_width cam) (cam_height cam) s1")
  obtain k s3 where k: "CopyTextureToEncoderInput (fa_copy fa) s2 = (k, s3)"
    by (cases "CopyTextureToEncoderInput (fa_copy fa) s2")
  have v: "paired rest s2 = paired rest s"
    using pair.EnsureEncoder [OF assms(1), of "fa_encoder fa" "cam_width cam" "cam_height cam" s1, unfolded e]
      pair.ObserveSourceTime [of "SourceTimeNanoseconds s" s] by (simp add: s1)
  then have v3: "paired rest s3 = paired rest s" using pair.CopyTexture [of "fa_copy fa" s2] k by simp
  have "EncodeRenderedFrame cam fa s =
     (if \<not> cameraFound s \<or> \<not> cam_renderTexture cam then (False, s)
      else if \<not> fa_texture2D fa then (False, LogEncoderError m s)
      else if \<not> e then (False, s2) else if \<not> k then (False, s3)
      else submitFrame fa (SourceTimeNanoseconds s) s3)"
    unfolding m EncodeRenderedFrame_def Let_def s1 [symmetric] e prod.case k
    by (cases e; cases k) simp_all
  moreover have "turned rest s (LogEncoderError m s)" by (rule turned_still) simp
  ultimately show ?thesis
    using turned_refl turned_still [OF v] turned_still [OF v3]
      turned_trans [OF turned_still [OF v3] submitFrame_turned [OF assms(2)]] by simp
qed

lemma OnPostRender_turned: "turned rest s (OnPostRender c p x y s)"
proof -
  have a: "paired rest (snd (AttachRenderTargetListener y u)) = paired rest u" for u
    by (simp add: AttachRenderTargetListener_def paired_def)
  obtain s1 where s1: "s1 = CompleteNativeStopIfDrained (ApplyNativeControl c p s)" by simp
  have v1: "turned rest s s1"
    unfolding s1 by (rule turned_trans [OF ApplyNativeControl_turned CompleteNativeStop_turned])
  obtain s2 where s2: "s2 = s1\<lparr>nativeSensorActive := sensorActive s1\<rparr>" by simp
  obtain s3 where s3: "s3 = (if cameraFound s2 then s2 else s2\<lparr>cameraFound := x\<rparr>)" by simp
  have v3: "paired rest s3 = paired rest s1" by (simp add: s3 s2 paired_def)
  obtain k s4 where k: "AttachRenderTargetListener y s3 = (k, s4)"
    by (cases "AttachRenderTargetListener y s3")
  then have v4: "paired rest s4 = paired rest s1" using a [of s3] v3 by simp
  have "OnPostRender c p x y s = s \<or> paired rest (OnPostRender c p x y s) = paired rest s1"
    unfolding OnPostRender_def Let_def s1 [symmetric] s2 [symmetric] s3 [symmetric] k prod.case
    using v3 v4 by (simp add: paired_def split: bool.split)
  then show ?thesis using turned_same [OF v1] turned_refl by metis
qed

lemma postRenderTargetUpdate_turned:
  assumes "keeps (paired rest) (fa_between fa)" and "keeps (paired rest) (fa_enqueue fa)"
    and "keeps (paired rest) capture"
  shows "turned rest s (postRenderTargetUpdate cam capture fa s)"
proof -
  let ?s1 = "s\<lparr>renderFrameSequence := renderFrameSequence s + 1\<rparr>"
  obtain s2 where s2: "s2 = ?s1\<lparr>cleanupEncoderRequested := False\<rparr>" by simp
  have v2: "paired rest s2 = paired rest s" by (simp add: s2 paired_def)
  obtain s3 where s3: "s3 = (if SnapshotNeedsRender s2 then capture s2 else s2)" by simp
  have v3: "paired rest s3 = paired rest s" using assms(3) by (simp add: s3 v2 keeps_def)
  obtain f s4 where f: "ROSRenderIsFreshForCurrentActivation s3 = (f, s4)"
    by (cases "ROSRenderIsFreshForCurrentActivation s3")
  have v4: "paired rest s4 = paired rest s" using pair.ROSRenderIsFresh [of s3] by (simp add: f v3)
  obtain e s5 where e: "EncodeRenderedFrame cam fa s4 = (e, s5)"
    by (cases "EncodeRenderedFrame cam fa s4")
  have v5: "turned rest s s5"
    using turned_trans [OF turned_still [OF v4] EncodeRenderedFrame_turned [OF assms(1,2)], of cam] e
    by (metis snd_conv)
  have fin: "turned rest s (CompleteNativeControl c s5\<lparr>awaitingNativeControl := None\<rparr>)"
    if "awaitingNativeControl s5 = Some c" for c
    using turned_trans [OF v5 complete_turned [OF that refl]] .
  have failed: "turned rest s (FailNativeEncoderTransition s5)"
    by (rule turned_trans [OF v5 FailNative_turned])
  show ?thesis
    unfolding postRenderTargetUpdate_def Let_def s2 [symmetric] s3 [symmetric] f e prod.case
    using turned_refl turned_still [OF v2] turned_still [OF v3] turned_still [OF v4] v5 fin failed
      turned_still [of rest "DestroyEncoder s2" s] v2
    by (simp split: bool.split option.split)
qed

end

end
