(* ===== verification/Control_Mutations.thy ===== *)
theory Control_Mutations
  imports Control_Handover
begin

text \<open>
  A mutation over runs of both threads: a pending one is in exactly one place, a stop that was
  reported as failed is carried out later all the same, and a capture that waits for its key frame
  does not expire.
\<close>

section \<open>The control executor's part\<close>

text \<open>What the control executor alone writes of a mutation.\<close>

definition ctlKey :: "'z ctl_scheme \<Rightarrow> pending_control option \<times> u64" where
  "ctlKey s = (pendingControl s, desiredRevision s)"

interpretation mr: render_view ctlKey
  by unfold_locales (simp_all add: ctlKey_def LogEncoderError_def WakeControl_def Let_def)

definition mutationKey :: "'z ctl_scheme \<Rightarrow> handover \<times> pending_control option \<times> u64" where
  "mutationKey s = (handover s, pendingControl s, desiredRevision s)"

lemma mutationKey_paired: "mutationKey s = paired ctlKey s"
  by (simp add: mutationKey_def paired_def ctlKey_def)

lemma mutationKey_updates [simp]:
  "mutationKey (controlReplies_update f1 s) = mutationKey s"
  "mutationKey (controlHost_update f2 s) = mutationKey s"
  "mutationKey (controlWatchers_update f3 s) = mutationKey s"
  "mutationKey (captureReply_update f4 s) = mutationKey s"
  "mutationKey (captureSlotHeld_update f5 s) = mutationKey s"
  "mutationKey (captureRequestID_update f6 s) = mutationKey s"
  "mutationKey (captureDeadline_update f7 s) = mutationKey s"
  "mutationKey (nativeCaptureKeyframePending_update f8 s) = mutationKey s"
  "mutationKey (forceKeyframe_update f9 s) = mutationKey s"
  "mutationKey (controlReceipts_update f10 s) = mutationKey s"
  "mutationKey (nextControlReceipt_update f11 s) = mutationKey s"
  "mutationKey (controlEventRevision_update f12 s) = mutationKey s"
  "mutationKey (appliedRevision_update f13 s) = mutationKey s"
  "mutationKey (appliedConfig_update f14 s) = mutationKey s"
  "mutationKey (appliedTimeNanoseconds_update f15 s) = mutationKey s"
  "mutationKey (snapshotGeneration_update f16 s) = mutationKey s"
  "mutationKey (snapshot_update f17 s) = mutationKey s"
  "mutationKey (captureKeyframeGeneration_update f18 s) = mutationKey s"
  "mutationKey (snapshotRenderPassesToSkip_update f19 s) = mutationKey s"
  by (simp_all add: mutationKey_def handover_def)

lemma mutationKey_replies [simp]:
  "mutationKey (completeReply r x s) = mutationKey s"
  "mutationKey (snd (RememberReceipt i oper stage error s)) = mutationKey s"
  "mutationKey (armSnapshot i b k s) = mutationKey s"
  "mutationKey (snd (takeSnapshot expired s)) = mutationKey s"
  by (simp_all add: completeReply_def RememberReceipt_def armSnapshot_def takeSnapshot_def Let_def)

text \<open>A request leaves the mutation alone or, when none is pending, is one itself.\<close>

definition handled :: "nat \<Rightarrow> 'z ctl_scheme \<Rightarrow> control_exn + 'z ctl_scheme \<Rightarrow> bool" where
  "handled r s result \<longleftrightarrow> (\<forall>s'. result = Inr s' \<longrightarrow> mutationKey s' = mutationKey s
     \<or> (pendingControl s = None
          \<and> (\<exists>oper request desired metadata. s' = acceptMutation oper request desired metadata r s)))"

lemma handled_throw: "handled r s (Inl e)"
  by (simp add: handled_def)

lemma handled_still: "mutationKey s' = mutationKey s \<Longrightarrow> handled r s (Inr s')"
  by (simp add: handled_def)

lemma handled_if:
  "(b \<Longrightarrow> handled r s x) \<Longrightarrow> (\<not> b \<Longrightarrow> handled r s y) \<Longrightarrow> handled r s (if b then x else y)"
  by simp

lemma handled_option:
  "(m = None \<Longrightarrow> handled r s x) \<Longrightarrow> (\<And>a. m = Some a \<Longrightarrow> handled r s (f a))
     \<Longrightarrow> handled r s (case m of None \<Rightarrow> x | Some a \<Rightarrow> f a)"
  by (cases m) simp_all

lemma handled_mutation:
  assumes "\<And>desired metadata. m = Accepted desired metadata \<Longrightarrow> pendingControl s = None"
  shows "handled r s (case m of Rejected e \<Rightarrow> Inl e | Refused x \<Rightarrow> Inr (completeReply r x s)
    | Accepted desired metadata \<Rightarrow> Inr (acceptMutation oper request desired metadata r s))"
  using assms by (cases m) (auto simp: handled_def)

lemma handleMutation_handled: "handled r s (handleMutation oper request input r s)"
  unfolding handleMutation_def Let_def
  by (intro handled_if handled_option handled_mutation) (auto dest: mutationArguments_refuses)

lemma handleCapture_handled: "handled r s (handleCapture now request input r s)"
proof -
  obtain b host where h: "ReserveCapture (controlHost s) = (b, host)"
    by (cases "ReserveCapture (controlHost s)")
  show ?thesis
    unfolding handleCapture_def Let_def h prod.case
    by (intro handled_if handled_option handled_throw; cases b; simp add: handled_still)
qed

lemma handleReceipt_handled: "handled r s (Inr (handleReceipt i r s))"
  by (rule handled_still) (simp add: handleReceipt_def split: option.split)

lemma handleObserve_handled: "handled r s (handleObserve master sq request r s)"
  unfolding handleObserve_def
  by (rule handled_option [OF handled_throw], rule handled_still) (simp split: option.split)

lemma HandleControlRequest_handled:
  "handled r s (HandleControlRequest master now oper request input r s)"
  unfolding HandleControlRequest_def Let_def
  by (intro handled_if handled_option handled_throw handleReceipt_handled handleObserve_handled
      handleMutation_handled handleCapture_handled) (rule handled_still, simp)+

lemma serve_key:
  obtains "mutationKey (serve parse master now request r s) = mutationKey s"
  | oper q desired metadata where "pendingControl s = None"
    "serve parse master now request r s = acceptMutation oper q desired metadata r s"
proof -
  have exn: "mutationKey (answerException (completeReply r) e s) = mutationKey s" for e
    by (cases e) (simp_all add: answerException_def)
  show ?thesis
  proof (cases "route parse request (controlHost s)")
    case (Respond x)
    then show ?thesis using that(1) by (simp add: serve_def Dispatch_def)
  next
    case (Throw e)
    then show ?thesis using that(1) exn by (simp add: serve_def Dispatch_def)
  next
    case (Handle h operation input)
    show ?thesis
    proof (cases "HandleControlRequest master now operation request input r s")
      case (Inl e)
      then show ?thesis using that(1) exn Handle by (simp add: serve_def Dispatch_def)
    next
      case (Inr s')
      then have "serve parse master now request r s = s'" using Handle by (simp add: serve_def Dispatch_def)
      then show ?thesis
        using that HandleControlRequest_handled [of r s master now operation request input] Inr
        unfolding handled_def by metis
    qed
  qed
qed

text \<open>A flush only touches the mutation where it ends it.\<close>

interpretation mv: reply_view mutationKey
  by unfold_locales simp_all

lemma FlushControl_key:
  "mutationKey (FlushControl printJson i master now cancelled locked s)
     = mutationKey (flushPending master now cancelled locked s)"
proof -
  have answered: "mutationKey (answerCapture printJson i r response u) = mutationKey u"
    for r response and u :: "'a ctl_scheme"
    using answerCapture_form [of printJson i r response u] by (auto simp: Let_def)
  have "mutationKey (FlushCapture printJson i now cancelled r u) = mutationKey u" for r and u :: "'a ctl_scheme"
  proof -
    obtain x v where t: "takeSnapshot (cancelled r \<or> now \<ge> captureDeadline u) u = (x, v)"
      by (cases "takeSnapshot (cancelled r \<or> now \<ge> captureDeadline u) u")
    then have "mutationKey v = mutationKey u"
      using mutationKey_replies(4) [of "cancelled r \<or> now \<ge> captureDeadline u" u] by simp
    then show ?thesis unfolding FlushCapture_def t prod.case by (simp add: answered split: option.split)
  qed
  then show ?thesis by (simp add: mv.FlushControl Let_def split: option.split)
qed

section \<open>A pending mutation is in one place\<close>

definition commandFor :: "pending_control \<Rightarrow> native_command \<Rightarrow> bool" where
  "commandFor p c \<longleftrightarrow> nc_revision c = pc_revision p \<and> nc_kind c = operationKind (pc_operation p)
     \<and> nc_keyframe c = (pc_operation p = ''request-keyframe'')"

text \<open>The states of one mutation, with the revision \<open>n\<close> of the last one accepted.\<close>

definition inHandover :: "pending_control option \<Rightarrow> u64 \<Rightarrow> handover \<Rightarrow> bool" where
  "inHandover pending n h \<longleftrightarrow> ho_applied h \<le> n \<and> ho_failed h \<le> n
     \<and> (case pending of
          None \<Rightarrow> ho_offered h = None \<and> ho_taken h = None
        | Some p \<Rightarrow> pc_revision p = n
            \<and> ((\<exists>c. commandFor p c \<and> (ho_offered h = Some c \<and> ho_taken h = None
                    \<or> ho_offered h = None \<and> ho_taken h = Some c) \<and> ho_applied h \<noteq> n \<and> ho_failed h \<noteq> n)
               \<or> (ho_offered h = None \<and> ho_taken h = None \<and> (ho_applied h = n) \<noteq> (ho_failed h = n))))"

lemma handover_move_keeps:
  assumes "handover_move h h'" and "inHandover pending n h"
  shows "inHandover pending n h'"
  using assms by (elim handover_moveE) (auto simp: inHandover_def commandFor_def split: option.splits)

lemma handover_moves_keep: "handover_move\<^sup>*\<^sup>* h h' \<Longrightarrow> inHandover pending n h \<Longrightarrow> inHandover pending n h'"
  by (induction rule: rtranclp_induct) (auto dest: handover_move_keeps)

definition mutationOk :: "'z ctl_scheme \<Rightarrow> bool" where
  "mutationOk s \<longleftrightarrow> inHandover (pendingControl s) (desiredRevision s) (handover s)"

declare inHandover_def [cam_inv] and mutationOk_def [cam_inv]

lemma mutationOk_key: "mutationKey s' = mutationKey s \<Longrightarrow> mutationOk s' = mutationOk s"
  by (simp add: mutationOk_def mutationKey_def)

text \<open>
  The render thread, between the other threads: each step refines the hand-over and leaves the
  executor's record of the mutation alone.
\<close>

inductive render_turn :: "'z ctl_scheme \<Rightarrow> 'z ctl_scheme \<Rightarrow> bool" where
  post_render: "render_turn s (OnPostRender c p x y s)"
| target_update: "keeps (paired ctlKey) (fa_between fa) \<Longrightarrow> keeps (paired ctlKey) (fa_enqueue fa) \<Longrightarrow>
    \<forall>i. keeps (paired ctlKey) (env i) \<Longrightarrow>
    render_turn s (postRenderTargetUpdate cam
      (\<lambda>u. snd (CaptureSnapshot cam gl mp blit ms env u)) fa s)"
| other_thread: "mutationKey s' = mutationKey s \<Longrightarrow> render_turn s s'"

lemma render_turn_moves:
  assumes "render_turn s s'"
  shows "handover_move\<^sup>*\<^sup>* (handover s) (handover s')
    \<and> pendingControl s' = pendingControl s \<and> desiredRevision s' = desiredRevision s"
  using assms
proof cases
  case (post_render c p x y)
  then show ?thesis using mr.OnPostRender_turned [of s c p x y] by (simp add: turned_def ctlKey_def)
next
  case (target_update fa env cam gl mp blit ms)
  have "keeps (paired ctlKey) (\<lambda>u. snd (CaptureSnapshot cam gl mp blit ms env u))"
    unfolding keeps_def [of _ "\<lambda>u. snd (CaptureSnapshot cam gl mp blit ms env u)"]
    using mr.pair.CaptureSnapshot_view [OF target_update(4)] by blast
  with target_update show ?thesis
    using mr.postRenderTargetUpdate_turned [of fa "\<lambda>u. snd (CaptureSnapshot cam gl mp blit ms env u)" s cam]
    by (simp add: turned_def ctlKey_def)
next
  case other_thread
  then show ?thesis by (simp add: mutationKey_def)
qed

text \<open>
  C12: The render callbacks implement the hand-over protocol of native commands: whatever a frame does
  (both callbacks, a capture in between, any failure of a driver or library call), seen from the
  control executor it is a sequence of the protocol's moves, in which an offered command is taken
  once and a taken one acknowledged or given up, and the executor's own record is untouched.
\<close>

theorem render_refines_handover:
  assumes "render_turn s s'"
  shows "handover_move\<^sup>*\<^sup>* (handover s) (handover s')
    \<and> pendingControl s' = pendingControl s \<and> desiredRevision s' = desiredRevision s"
  using assms by (rule render_turn_moves)

lemma render_turn_keeps: "render_turn s s' \<Longrightarrow> mutationOk s \<Longrightarrow> mutationOk s'"
  using render_turn_moves handover_moves_keep unfolding mutationOk_def by metis

lemma acceptMutation_key:
  "mutationKey (acceptMutation oper q desired m r s) =
    ((handover s)\<lparr>ho_offered := nativeCommand (acceptMutation oper q desired m r s)\<rparr>,
     pendingControl (acceptMutation oper q desired m r s), desiredRevision s + 1)"
  by (simp add: acceptMutation_def mutationKey_def Let_def handover_def)

lemma acceptMutation_fields:
  "\<exists>c p. nativeCommand (acceptMutation oper q desired m r s) = Some c \<and> commandFor p c
     \<and> pendingControl (acceptMutation oper q desired m r s) = Some p \<and> pc_revision p = desiredRevision s + 1"
  by (auto simp: acceptMutation_def Let_def commandFor_def)

lemma less_next_u64:
  assumes "n \<noteq> (- 1 :: u64)" and "a \<le> n"
  shows "a \<noteq> n + 1 \<and> a \<le> n + 1"
proof -
  have "1 + n \<noteq> 0" using assms(1) by (metis add_eq_0_iff)
  then have "unat (n + 1) = Suc (unat n)" using unatSuc [of n] by (simp add: add.commute)
  with assms(2) show ?thesis by (auto simp: word_le_nat_alt)
qed

lemma acceptMutation_keeps:
  assumes "mutationOk s" and "pendingControl s = None" and "desiredRevision s \<noteq> - 1"
  shows "mutationOk (acceptMutation oper q desired m r s)"
proof -
  obtain u where u: "u = acceptMutation oper q desired m r s" by simp
  obtain c p where "nativeCommand u = Some c" "commandFor p c" "pendingControl u = Some p"
    "pc_revision p = desiredRevision s + 1"
    using acceptMutation_fields unfolding u by blast
  moreover have "handover u = (handover s)\<lparr>ho_offered := nativeCommand u\<rparr>"
    "desiredRevision u = desiredRevision s + 1"
    using acceptMutation_key [of oper q desired m r s] unfolding u [symmetric] mutationKey_def by simp_all
  ultimately show ?thesis
    using assms less_next_u64 [OF assms(3)]
    unfolding u [symmetric] by (auto simp: mutationOk_def inHandover_def)
qed

lemma flushPending_keeps:
  assumes "mutationOk s"
  shows "mutationOk (flushPending master now cancelled locked s)"
proof (cases "pendingControl s")
  case None
  then show ?thesis using assms by (simp add: flushPending_def)
next
  case (Some p)
  have gone: "mutationOk u" if "mutationKey u = (h, None, desiredRevision s)"
      and "h = handover s \<or> h = (handover s)\<lparr>ho_offered := None\<rparr>"
      and "ho_offered h = None" and "ho_taken h = None" for u h
    using that assms by (auto simp: mutationOk_def mutationKey_def inHandover_def split: option.splits)
  have fail: "mutationKey (failPending e x p v) = (handover v, None, desiredRevision v)" for e x v
  proof -
    have "mutationKey (completeReply (pc_reply p) x (snd (RememberReceipt (pc_requestID p) (pc_operation p) ''failed'' e v)))
      = mutationKey v" by simp
    then show ?thesis by (simp add: failPending_def mutationKey_def handover_def)
  qed
  have finish: "mutationKey (completePending master p s) = (handover s, None, desiredRevision s)"
  proof -
    obtain s1 where s1: "s1 = s\<lparr>appliedRevision := pc_revision p,
        appliedConfig := jset ''active'' (JBool (nativeAppliedActive s)) (desiredConfig s),
        appliedTimeNanoseconds := nativeAppliedTime s, pendingControl := None\<rparr>" by simp
    obtain receipt s2 where r: "RememberReceipt (pc_requestID p) (pc_operation p) ''completed'' [] s1
        = (receipt, s2)" by (cases "RememberReceipt (pc_requestID p) (pc_operation p) ''completed'' [] s1")
    have "mutationKey s2 = mutationKey s1"
      using mutationKey_replies(2) [of "pc_requestID p" "pc_operation p" "''completed''" "[]" s1] r by simp
    moreover have "mutationKey s1 = (handover s, None, desiredRevision s)"
      by (simp add: s1 mutationKey_def handover_def)
    moreover have "\<exists>x. completePending master p s = completeReply (pc_reply p) x s2"
      unfolding completePending_def Let_def s1 [symmetric] r prod.case by blast
    ultimately show ?thesis by auto
  qed
  have at: "ho_offered (handover s) = None \<and> ho_taken (handover s) = None"
    if "nativeFailedRevision s = pc_revision p \<or> nativeAppliedRevision s = pc_revision p"
    using assms Some that by (auto simp: mutationOk_def inHandover_def)
  have taken: "ho_taken (handover s) = None" if "nativeCommand s = Some c" for c
    using assms Some that by (auto simp: mutationOk_def inHandover_def)
  have dropped: "handover (s\<lparr>nativeCommand := None\<rparr>) = (handover s)\<lparr>ho_offered := None\<rparr>" by simp
  have withdrawn: "mutationOk (failPending e x p (s\<lparr>nativeCommand := None\<rparr>))"
    if "nativeCommand s = Some c" for e x c
  proof (rule gone)
    show "mutationKey (failPending e x p (s\<lparr>nativeCommand := None\<rparr>))
        = ((handover s)\<lparr>ho_offered := None\<rparr>, None, desiredRevision s)"
      unfolding fail dropped by simp
  qed (use taken [OF that] in simp_all)
  have failed: "mutationOk (failPending e x p s)" if "nativeFailedRevision s = pc_revision p" for e x
    using at that by (intro gone [OF fail]) simp_all
  have finished: "mutationOk (completePending master p s)" if "nativeAppliedRevision s = pc_revision p"
    using at that by (intro gone [OF finish]) simp_all
  show ?thesis
    unfolding flushPending_def Some option.case
    using assms withdrawn failed finished by (simp split: option.split)
qed

text \<open>
  Runs of both threads. The executor's revision counter has 64 bits; a request is only considered
  while it does not overflow.
\<close>

inductive mutation_step :: "'z ctl_scheme \<Rightarrow> 'z ctl_scheme \<Rightarrow> bool" where
  request: "desiredRevision s \<noteq> - 1 \<Longrightarrow> mutation_step s (serve parse master now q r s)"
| flush: "mutation_step s (FlushControl printJson i master now cancelled locked s)"
| render: "render_turn s s' \<Longrightarrow> mutation_step s s'"

lemma mutation_step_keeps: "mutation_step s s' \<Longrightarrow> mutationOk s \<Longrightarrow> mutationOk s'"
proof (induction rule: mutation_step.induct)
  case (request s parse master now q r)
  then have "desiredRevision s \<noteq> - 1" "mutationOk s" by simp_all
  then show ?case
  proof (cases rule: serve_key [of parse master now q r s])
    case 1
    with \<open>mutationOk s\<close> show ?thesis by (simp only: mutationOk_key [OF 1])
  next
    case (2 oper q' desired m)
    with \<open>mutationOk s\<close> \<open>desiredRevision s \<noteq> - 1\<close> show ?thesis
      by (simp only: 2(2) acceptMutation_keeps simp_thms)
  qed
next
  case (flush s printJson i master now cancelled locked)
  then show ?case by (simp add: mutationOk_key [OF FlushControl_key] flushPending_keeps)
next
  case (render s s')
  then show ?case by (simp add: render_turn_keeps)
qed

lemma mutation_steps_keep: "mutation_step\<^sup>*\<^sup>* s s' \<Longrightarrow> mutationOk s \<Longrightarrow> mutationOk s'"
  by (induction rule: rtranclp_induct) (auto dest: mutation_step_keeps)

text \<open>
  C2: No accepted mutation is lost or doubled, however requests, flushes and frames interleave and
  whatever fails: while one is pending, its command is in exactly one place (waiting for the render
  thread, taken by it, reported applied, or reported failed), it carries the newest revision and
  the kind of the operation asked for; and while none is pending, no command is under way.
\<close>

theorem mutation_in_one_place:
  assumes "mutation_step\<^sup>*\<^sup>* s0 s" and "mutationOk s0"
  shows "(pendingControl s = None \<longrightarrow> nativeCommand s = None \<and> awaitingNativeControl s = None)
    \<and> (\<forall>p. pendingControl s = Some p \<longrightarrow> pc_revision p = desiredRevision s
        \<and> length (filter id [nativeCommand s \<noteq> None, awaitingNativeControl s \<noteq> None,
             nativeAppliedRevision s = pc_revision p, nativeFailedRevision s = pc_revision p]) = 1
        \<and> (\<forall>c. nativeCommand s = Some c \<or> awaitingNativeControl s = Some c \<longrightarrow>
             nc_revision c = pc_revision p \<and> nc_kind c = operationKind (pc_operation p)))"
proof -
  have ok: "inHandover (pendingControl s) (desiredRevision s) (handover s)"
    using mutation_steps_keep [OF assms] by (simp add: mutationOk_def)
  show ?thesis
  proof (cases "pendingControl s")
    case None
    with ok show ?thesis by (simp add: inHandover_def)
  next
    case (Some p)
    with ok show ?thesis by (auto simp: inHandover_def commandFor_def)
  qed
qed

section \<open>A withdrawn stop\<close>

lemma receiptNamed_None:
  "receiptNamed key i s = None \<longleftrightarrow> (\<forall>r \<in> set (controlReceipts s). asString (jget key r) \<noteq> i)"
  by (auto simp: receiptNamed_def find_None_iff)

lemma RememberReceipt_other:
  assumes "receiptNamed ''request_id'' i s = None" and "j \<noteq> i"
  shows "receiptNamed ''request_id'' i (snd (RememberReceipt j oper stage error s)) = None"
  using assms set_update_subset_insert
  by (fastforce simp: receiptNamed_None RememberReceipt_slots)

lemma RememberReceipt_keeps [simp]:
  "desiredConfig (snd (RememberReceipt i oper stage error s)) = desiredConfig s"
  "nativeAppliedActive (snd (RememberReceipt i oper stage error s)) = nativeAppliedActive s"
  "desiredActive (snd (RememberReceipt i oper stage error s)) = desiredActive s"
  "controlReplies (snd (RememberReceipt i oper stage error s)) = controlReplies s"
  "nativeLifecycleState (snd (RememberReceipt i oper stage error s)) = nativeLifecycleState s"
  by (simp_all add: RememberReceipt_def Let_def)

lemma plainMutation:
  assumes "oper = ''stop'' \<or> oper = ''request-keyframe''" and "pendingControl s = None"
    and "nativeAppliedActive s" and "receiptNamed ''request_id'' (rq_request_id q) s = None"
  shows "handleMutation oper q (JObject []) r s = Inr (acceptMutation oper q
    (if oper = ''stop'' then jset ''active'' (JBool False) (desiredConfig s) else desiredConfig s) None r s)"
  using assms by (auto simp: handleMutation_def mutationArguments_def RequireFields_def isMember_def
      optionalBool_def Let_def)

lemma ApplyNativeControl_active:
  assumes "nativeCommand s = Some c" and "nc_calibration c = None"
  shows "desiredActive (ApplyNativeControl True pl s) = nc_active c
    \<and> (\<not> nc_active c \<longrightarrow> rtpQueue (ApplyNativeControl True pl s) = [])"
  using assms by (simp add: ApplyNativeControl_def CompleteNativeControl_def WakeControl_def
      ClearRTPQueue_def Let_def)

text \<open>
  C36: A stop that the executor withdrew at its deadline, with the answer that it failed and the
  stream still running, is not forgotten: the desired configuration keeps it, so that the next key
  frame request, which asks for nothing but a key frame, stops the stream when the render thread
  takes it.
\<close>

theorem withdrawn_stop_is_carried_out:
  assumes "pendingControl s = None" and "nativeAppliedActive s" and "rq_deadline q1 \<le> now"
    and "receiptNamed ''request_id'' (rq_request_id q1) s = None"
    and "receiptNamed ''request_id'' (rq_request_id q2) s = None" and "rq_request_id q1 \<noteq> rq_request_id q2"
    and "nativeAppliedRevision s \<noteq> desiredRevision s + 1" and "nativeFailedRevision s \<noteq> desiredRevision s + 1"
  shows "\<exists>s1 s3. handleMutation ''stop'' q1 (JObject []) r1 s = Inr s1
    \<and> (let s2 = flushPending master now cancelled True s1 in
         controlReplies s2 = controlReplies s
           @ [(r1, ControlError 504 ''deadline_exceeded'' ''native application deadline exceeded'')]
         \<and> desiredActive s2 = desiredActive s
         \<and> handleMutation ''request-keyframe'' q2 (JObject []) r2 s2 = Inr s3
         \<and> \<not> desiredActive (ApplyNativeControl True pl s3) \<and> rtpQueue (ApplyNativeControl True pl s3) = [])"
proof -
  obtain s1 where s1: "s1 = acceptMutation ''stop'' q1 (jset ''active'' (JBool False) (desiredConfig s)) None r1 s"
    by simp
  obtain m where m: "m = ''native application deadline exceeded''" by simp
  obtain p where p: "p = \<lparr>pc_reply = r1, pc_requestID = rq_request_id q1, pc_operation = ''stop'',
      pc_deadline = rq_deadline q1, pc_revision = desiredRevision s + 1, pc_calibration = False\<rparr>" by simp
  have f1: "pendingControl s1 = Some p" "nativeAppliedActive s1" "controlReplies s1 = controlReplies s"
    "desiredActive s1 = desiredActive s" "nativeAppliedRevision s1 = nativeAppliedRevision s"
    "nativeFailedRevision s1 = nativeFailedRevision s" "controlReceipts s1 = controlReceipts s"
    "\<not> asBool (jget ''active'' (desiredConfig s1))"
    "\<exists>c. nativeCommand s1 = Some c \<and> nc_revision c = desiredRevision s + 1"
    using assms(2) by (simp_all add: s1 p acceptMutation_def operationKind_def Let_def)
  obtain v where v: "v = snd (RememberReceipt (pc_requestID p) (pc_operation p) ''failed'' m
      (s1\<lparr>nativeCommand := None\<rparr>))" by simp
  obtain s2 where s2: "s2 = flushPending master now cancelled True s1" by simp
  have s2': "s2 = (completeReply r1 (ControlError 504 ''deadline_exceeded'' m) v)\<lparr>pendingControl := None\<rparr>"
    using f1 assms(3,7,8) by (auto simp: s2 v m flushPending_def failPending_def p)
  have "receiptNamed ''request_id'' (rq_request_id q2) v = None"
    unfolding v using assms(5,6) f1(7) by (intro RememberReceipt_other) (simp_all add: p receiptNamed_None)
  then have f2: "pendingControl s2 = None" "nativeAppliedActive s2"
    "receiptNamed ''request_id'' (rq_request_id q2) s2 = None" "desiredActive s2 = desiredActive s"
    "\<not> asBool (jget ''active'' (desiredConfig s2))"
    "controlReplies s2 = controlReplies s @ [(r1, ControlError 504 ''deadline_exceeded'' m)]"
    using f1 unfolding s2' by (simp_all add: receiptNamed_def completeReply_def v)
  obtain s3 where s3: "s3 = acceptMutation ''request-keyframe'' q2 (desiredConfig s2) None r2 s2" by simp
  have "\<exists>c. nativeCommand s3 = Some c \<and> nc_calibration c = None \<and> \<not> nc_active c"
    using f2(5) by (simp add: s3 acceptMutation_def operationKind_def Let_def)
  then have "\<not> desiredActive (ApplyNativeControl True pl s3) \<and> rtpQueue (ApplyNativeControl True pl s3) = []"
    using ApplyNativeControl_active by metis
  moreover have "handleMutation ''stop'' q1 (JObject []) r1 s = Inr s1"
    using plainMutation [of "''stop''" s q1 r1] assms(1,2,4) by (simp add: s1)
  moreover have "handleMutation ''request-keyframe'' q2 (JObject []) r2 s2 = Inr s3"
    using plainMutation [of "''request-keyframe''" s2 q2 r2] f2 by (simp add: s3)
  ultimately show ?thesis using f2(4,6) unfolding Let_def m [symmetric]
    by (intro exI [of _ s1] exI [of _ s3]) (simp add: s2 [symmetric])
qed

section \<open>A capture without its key frame\<close>

text \<open>
  A capture whose picture is complete but whose key frame is neither applied nor failed never
  expires: at whatever time and whether or not its client has gone, the flush leaves it in the slot,
  and as long as it is there every other capture request is refused or throws.
\<close>

theorem capture_without_idr_never_expires:
  assumes "captureReply s = Some r" and "slotInv s" and "sn_completed (snapshot s)"
    and "captureKeyframeGeneration s \<noteq> 0"
    and "nativeCaptureKeyframeApplied s \<noteq> captureKeyframeGeneration s"
    and "nativeCaptureKeyframeFailed s \<noteq> captureKeyframeGeneration s"
  shows "FlushCapture printJson i now cancelled r s = s
    \<and> (case handleCapture now' q input r' s of
         Inl e \<Rightarrow> True
       | Inr s' \<Rightarrow> captureReply s' = Some r \<and> (\<exists>status code message.
           s' = completeReply r' (ControlError status code message) s \<and> status \<in> {409, 429}))"
proof -
  have "takeSnapshot e s = (None, s)" for e
    using assms(3-6) by (simp add: takeSnapshot_def)
  then have "FlushCapture printJson i now cancelled r s = s" by (simp add: FlushCapture_def)
  moreover have "ReserveCapture (controlHost s) = (False, controlHost s)"
    using assms(1,2) by (simp add: slotInv_def ReserveCapture_def)
  ultimately show ?thesis
    using assms(1) by (auto simp: handleCapture_def Let_def split: option.split)
qed

text \<open>What a flush leaves alone while a capture waits for its key frame.\<close>

definition waitKey :: "'z ctl_scheme \<Rightarrow> (snapshot_result \<times> u64 \<times> u64 \<times> u64) \<times> nat option \<times> bool \<times> nat host" where
  "waitKey s = ((snapshot s, captureKeyframeGeneration s, nativeCaptureKeyframeApplied s,
     nativeCaptureKeyframeFailed s), captureReply s, captureSlotHeld s, controlHost s)"

interpretation wt: reply_view waitKey
  by unfold_locales (simp_all add: waitKey_def)

lemma waitKey_updates [simp]:
  "waitKey (appliedRevision_update f1 s) = waitKey s" "waitKey (appliedConfig_update f2 s) = waitKey s"
  "waitKey (appliedTimeNanoseconds_update f3 s) = waitKey s" "waitKey (pendingControl_update f4 s) = waitKey s"
  "waitKey (nativeCommand_update f5 s) = waitKey s"
  by (simp_all add: waitKey_def)

lemma flushPending_waits: "waitKey (flushPending master now cancelled locked s) = waitKey s"
proof -
  have "waitKey (completePending master p u) = waitKey u" for p and u :: "'a ctl_scheme"
    using completePending_form [of master p u] by auto
  then show ?thesis by (simp add: flushPending_def failPending_def split: option.split)
qed

definition awaitsKeyframe :: "'z ctl_scheme \<Rightarrow> bool" where
  "awaitsKeyframe s \<longleftrightarrow> captureReply s \<noteq> None \<and> sn_completed (snapshot s) \<and> captureKeyframeGeneration s \<noteq> 0
     \<and> nativeCaptureKeyframeApplied s \<noteq> captureKeyframeGeneration s
     \<and> nativeCaptureKeyframeFailed s \<noteq> captureKeyframeGeneration s"

lemma FlushControl_waits:
  assumes "awaitsKeyframe s"
  shows "waitKey (FlushControl printJson i master now cancelled locked s) = waitKey s"
proof -
  obtain u where u: "u = flushPending master now cancelled locked s" by simp
  have k: "waitKey u = waitKey s" by (simp add: u flushPending_waits)
  then have "takeSnapshot expired u = (None, u)" for expired
    using assms by (simp add: takeSnapshot_def awaitsKeyframe_def waitKey_def Let_def)
  then show ?thesis
    using k by (simp add: wt.FlushControl u [symmetric] FlushCapture_def Let_def split: option.split)
qed

text \<open>
  A completed capture whose key frame was neither applied nor given up is not answered by any number of
  flushes, however late they are and although its client gave up: no deadline applies to it, and
  the slot that all cameras share stays reserved.
\<close>

theorem capture_awaiting_key_frame_blocks:
  assumes "awaitsKeyframe s"
  shows "let t = fold (\<lambda>(now, cancelled, locked). FlushControl printJson i master now cancelled locked) flushes s in
    captureReply t = captureReply s \<and> captureSlotHeld t = captureSlotHeld s \<and> controlHost t = controlHost s"
proof -
  have "waitKey (fold (\<lambda>(now, cancelled, locked). FlushControl printJson i master now cancelled locked) flushes s)
      = waitKey s"
    using assms
  proof (induction flushes arbitrary: s)
    case (Cons f flushes)
    obtain now cancelled locked where f: "f = (now, cancelled, locked)" by (cases f)
    have k: "waitKey (FlushControl printJson i master now cancelled locked s) = waitKey s"
      by (rule FlushControl_waits) fact
    then have "awaitsKeyframe (FlushControl printJson i master now cancelled locked s)"
      using Cons.prems by (simp add: awaitsKeyframe_def waitKey_def)
    from Cons.IH [OF this] k show ?case by (simp add: f)
  qed simp
  then show ?thesis by (simp add: waitKey_def Let_def)
qed

section \<open>Concrete runs\<close>

lemma ctlStart_native [simp]:
  "nativeCommand ctlStart = None" "awaitingNativeControl ctlStart = None"
  "nativeAppliedRevision ctlStart = 0" "nativeFailedRevision ctlStart = 0"
  by (simp_all add: ctlStart_def enc.extend_def encStart_def snap.extend_def snapStart_def
      ros.extend_def rosStart_def)

lemma ctlStart_mutationOk: "mutationOk ctlStart"
  by (simp add: mutationOk_def inHandover_def)

theorem render_refines_handover_witness:
  "handover_move\<^sup>*\<^sup>* (handover ctlStart) (handover (OnPostRender True True True True ctlStart))"
  using render_refines_handover [OF render_turn.post_render [of ctlStart True True True True]] by blast

theorem mutation_in_one_place_witness:
  "let s = serve (\<lambda>b. None) demoMaster 10 demoRequest 7 ctlStart in
     case pendingControl s of
       None \<Rightarrow> nativeCommand s = None \<and> awaitingNativeControl s = None
     | Some p \<Rightarrow> pc_revision p = desiredRevision s"
proof -
  have "mutation_step ctlStart (serve (\<lambda>b. None) demoMaster 10 demoRequest 7 ctlStart)"
    by (rule mutation_step.request) simp
  from mutation_in_one_place [OF r_into_rtranclp [of mutation_step, OF this] ctlStart_mutationOk]
  show ?thesis by (simp add: Let_def split: option.split)
qed

theorem withdrawn_stop_is_carried_out_witness:
  "\<exists>s3. handleMutation ''stop'' demoRequest (JObject []) 1 (ctlStart\<lparr>nativeAppliedActive := True\<rparr>) = Inr s3"
proof -
  have "receiptNamed ''request_id'' i (ctlStart\<lparr>nativeAppliedActive := True\<rparr>) = None" if "i \<noteq> []" for i
    using that by (simp add: receiptNamed_None kReceipts_def jget_def)
  then show ?thesis
    using withdrawn_stop_is_carried_out [of "ctlStart\<lparr>nativeAppliedActive := True\<rparr>" demoRequest 200
        "demoRequest\<lparr>rq_request_id := ''k''\<rparr>" 1 demoMaster "\<lambda>r. False" 2 True]
    by (auto simp: demoRequest_def)
qed

theorem capture_without_idr_never_expires_witness:
  "let s = ctlStart\<lparr>captureReply := Some 5, snapshot := SnapshotResult\<lparr>sn_completed := True\<rparr>,
       controlHost := (controlHost ctlStart)\<lparr>hs_capture_reserved := True\<rparr>,
       captureKeyframeGeneration := 1, nativeCaptureKeyframeApplied := 0, nativeCaptureKeyframeFailed := 0\<rparr>
   in FlushCapture (\<lambda>v. []) [] 9000000000 (\<lambda>r. True) 5 s = s"
proof -
  obtain s where s: "s = ctlStart\<lparr>captureReply := Some 5, snapshot := SnapshotResult\<lparr>sn_completed := True\<rparr>,
       controlHost := (controlHost ctlStart)\<lparr>hs_capture_reserved := True\<rparr>,
       captureKeyframeGeneration := 1, nativeCaptureKeyframeApplied := 0, nativeCaptureKeyframeFailed := 0\<rparr>"
    by simp
  have "FlushCapture (\<lambda>v. []) [] 9000000000 (\<lambda>r. True) 5 s = s"
    using capture_without_idr_never_expires [of s 5 "\<lambda>v. []" "[]" 9000000000 "\<lambda>r. True"]
    by (simp add: s slotInv_def)
  then show ?thesis by (simp only: Let_def s)
qed

theorem capture_awaiting_key_frame_blocks_witness:
  "captureReply (FlushControl (\<lambda>v. []) [] demoMaster 1000 (\<lambda>r. True) True
     (ctlStart\<lparr>captureReply := Some 7, captureKeyframeGeneration := 1,
        nativeCaptureKeyframeApplied := 0, nativeCaptureKeyframeFailed := 0,
        snapshot := SnapshotResult\<lparr>sn_completed := True\<rparr>\<rparr>)) = Some 7"
proof -
  have "awaitsKeyframe (ctlStart\<lparr>captureReply := Some 7, captureKeyframeGeneration := 1,
      nativeCaptureKeyframeApplied := 0, nativeCaptureKeyframeFailed := 0,
      snapshot := SnapshotResult\<lparr>sn_completed := True\<rparr>\<rparr>)"
    by (simp add: awaitsKeyframe_def ctlStart_def enc.extend_def)
  from capture_awaiting_key_frame_blocks [OF this, of "\<lambda>v. []" "[]" demoMaster "[(1000, \<lambda>r. True, True)]"]
  show ?thesis by (simp add: Let_def)
qed

end
