(* ===== verification/Plugin_Lifecycle.thy ===== *)
theory Plugin_Lifecycle
  imports Control_Mutations
begin

text \<open>
  Loading and removing the plugin: the configuration it reads and checks, the services it starts and
  stops on errors, and the destructor. Gazebo, the linker, the sockets, the ROS registration and the
  shared control host are parameters.
\<close>

section \<open>State\<close>

text \<open>
  Threads are flags (joinable); \<open>rtpDestination\<close> is the port on the loopback address, \<open>closedSockets\<close>
  the descriptors that were closed, \<open>consoleErrors\<close> the lines written to \<open>gzerr\<close>, without the
  texts of caught exceptions.
\<close>

record plugin = ctl +
  controlTargetID :: string
  controlInstanceID :: string
  rosVideoTopic :: string
  rosFrameTimingTopic :: string
  rosStreamInfoTopic :: string
  rosDataRuntime :: bool
  rosRegistration :: bool
  postRenderConnection :: bool
  rtpPacerThread :: bool
  snapshotEncoderThread :: bool
  diagnosticThread :: bool
  rtpDestination :: "u16 option"
  closedSockets :: "int list"
  consoleErrors :: "string list"

definition complain :: "string \<Rightarrow> 'z plugin_scheme \<Rightarrow> 'z plugin_scheme" where
  "complain message s = s\<lparr>consoleErrors := consoleErrors s @ [message]\<rparr>"

text \<open>The elements of the plugin's SDF by the type they are read as, and the camera sensor.\<close>

record sdf =
  sdf_string :: "string \<Rightarrow> string option"
  sdf_int :: "string \<Rightarrow> int option"
  sdf_bool :: "string \<Rightarrow> bool option"

record camera_sensor =
  cs_width :: u32
  cs_height :: u32
  cs_updateRate :: real
  cs_projection :: "nat \<Rightarrow> nat \<Rightarrow> real"
  cs_lens :: "real list option"

definition SDFValue :: "(string \<Rightarrow> 'a option) \<Rightarrow> string \<Rightarrow> 'a \<Rightarrow> 'a" where
  "SDFValue element name fallback = (case element name of Some v \<Rightarrow> v | None \<Rightarrow> fallback)"

definition isAlnum :: "char \<Rightarrow> bool" where
  "isAlnum c \<longleftrightarrow> (CHR ''0'' \<le> c \<and> c \<le> CHR ''9'') \<or> (CHR ''A'' \<le> c \<and> c \<le> CHR ''Z'')
     \<or> (CHR ''a'' \<le> c \<and> c \<le> CHR ''z'')"

definition IsSafeIdentifier :: "string \<Rightarrow> bool" where
  "IsSafeIdentifier v \<longleftrightarrow> \<not> (v = [] \<or> length v > 128)
     \<and> list_all (\<lambda>c. isAlnum c \<or> c = CHR ''-'' \<or> c = CHR ''_'' \<or> c = CHR ''.'') v"

section \<open>Reading the configuration\<close>

definition kDefaultROSPublisherQueueCapacity :: nat where "kDefaultROSPublisherQueueCapacity = 8"

definition readIdentity :: "sdf \<Rightarrow> 'z plugin_scheme \<Rightarrow> 'z plugin_scheme" where
  "readIdentity sdf s =
     s\<lparr>sourceID := SDFValue (sdf_string sdf) ''sourceId'' ''usb_cam'',
       frameID := SDFValue (sdf_string sdf) ''frameId'' ''usb_cam_optical_frame'',
       snapshotPoseFrameID := SDFValue (sdf_string sdf) ''snapshotPoseFrameId'' ''world'',
       rtpHost := SDFValue (sdf_string sdf) ''rtpHost'' ''127.0.0.1''\<rparr>"

text \<open>\<open>std::clamp\<close>\<close>

definition clampInt :: "int \<Rightarrow> int \<Rightarrow> int \<Rightarrow> int" where
  "clampInt v lo hi = (if v < lo then lo else if hi < v then hi else v)"

text \<open>The sum in the default of \<open>maxBitrate\<close> is taken without overflow.\<close>

definition readTransport :: "sdf \<Rightarrow> int \<Rightarrow> 'z plugin_scheme \<Rightarrow> 'z plugin_scheme" where
  "readTransport sdf port s =
     (let b = SDFValue (sdf_int sdf) ''bitrate'' 6000000;
          m = SDFValue (sdf_int sdf) ''maxBitrate'' (b + b sdiv 2)
      in s\<lparr>rtpPort := port,
           controlSocketPath := SDFValue (sdf_string sdf) ''controlEndpoint'' [],
           controlTargetID := SDFValue (sdf_string sdf) ''controlTargetId'' [],
           controlInstanceID := SDFValue (sdf_string sdf) ''controlInstanceId'' [],
           bitrate := b, maxBitrate := m,
           pacingBitrate := SDFValue (sdf_int sdf) ''pacingBitrate'' m,
           vbvBufferMilliseconds := clampInt (SDFValue (sdf_int sdf) ''vbvBufferMilliseconds'' 500) 50 2000,
           jpegQuality := SDFValue (sdf_int sdf) ''jpegQuality'' 90\<rparr>)"

text \<open>\<open>library\<close> is the default module name, \<open>turbo\<close> the variant of libjpeg.\<close>

definition selectSnapshotJpeg ::
  "hw_loader \<Rightarrow> string \<Rightarrow> bool \<Rightarrow> jpeg_policy \<Rightarrow> 'z plugin_scheme \<Rightarrow> 'z plugin_scheme" where
  "selectSnapshotJpeg loader library turbo policy s =
     (let (hardwareAvailable, hardware) = (if policy \<noteq> kCPU
            then OpenHardware loader library (snapshotJpegHardware s) else (False, snapshotJpegHardware s))
      in s\<lparr>snapshotJpegPolicy := policy, snapshotJpegHardware := hardware,
           snapshotJpegHardwarePreflightError := jh_error hardware,
           snapshotJpegBackend := SelectSnapshotJpegBackend turbo policy hardwareAvailable
             (if hardwareAvailable then jh_backend hardware else ''nvjpeg-cuda'')\<rparr>)"

definition readROS :: "sdf \<Rightarrow> 'z plugin_scheme \<Rightarrow> 'z plugin_scheme" where
  "readROS sdf s =
     s\<lparr>rosPublishingEnabled := SDFValue (sdf_bool sdf) ''rosPublishEnabled'' True,
       rosCameraInfoTopic := SDFValue (sdf_string sdf) ''rosCameraInfoTopic'' ''/xgc/camera/world/camera_info'',
       rosVideoTopic := SDFValue (sdf_string sdf) ''rosVideoTopic'' ''/xgc/camera/world/video_h264'',
       rosFrameTimingTopic := SDFValue (sdf_string sdf) ''rosFrameTimingTopic'' ''/xgc/camera/world/frame_timing'',
       rosStreamInfoTopic := SDFValue (sdf_string sdf) ''rosStreamInfoTopic'' ''/xgc/camera/world/stream_info'',
       rosPublisherQueueCapacity := nat (clampInt (SDFValue (sdf_int sdf) ''rosPublisherQueueCapacity''
         (int kDefaultROSPublisherQueueCapacity)) 1 128)\<rparr>"

definition invalidConfiguration :: "camera_sensor \<Rightarrow> 'z plugin_scheme \<Rightarrow> bool" where
  "invalidConfiguration cs s \<longleftrightarrow>
     \<not> IsSafeIdentifier (sourceID s) \<or> \<not> IsSafeIdentifier (controlTargetID s) \<or> controlSocketPath s = []
     \<or> frameID s = [] \<or> snapshotPoseFrameID s = [] \<or> jpegQuality s < 50 \<or> jpegQuality s > 100
     \<or> cs_width cs > 4096 \<or> cs_height cs > 2160 \<or> cs_width cs < 16 \<or> cs_height cs < 16
     \<or> rtpPort s < 1 \<or> rtpPort s > 65535
     \<or> (rtpHost s \<noteq> ''127.0.0.1'' \<and> rtpHost s \<noteq> ''localhost'') \<or> bitrate s < 128000
     \<or> (rosPublishingEnabled s \<and> (rosVideoTopic s = [] \<or> rosFrameTimingTopic s = [] \<or> rosStreamInfoTopic s = []))"

section \<open>Starting and stopping the services\<close>

text \<open>With the thread that each starts, and joins when it stops.\<close>

definition startPacer :: "bool \<Rightarrow> 'z plugin_scheme \<Rightarrow> bool \<times> 'z plugin_scheme" where
  "startPacer created s = (case StartRTPPacer created s of (ok, s1) \<Rightarrow>
     (ok, if ok then s1\<lparr>rtpPacerThread := True\<rparr>
          else complain ''xgc_media_camera could not start RTP pacer'' s1))"

definition startEncoder :: "bool \<Rightarrow> 'z plugin_scheme \<Rightarrow> bool \<times> 'z plugin_scheme" where
  "startEncoder created s = (case StartSnapshotEncoder created s of (ok, s1) \<Rightarrow>
     (ok, if ok then s1\<lparr>snapshotEncoderThread := True\<rparr>
          else complain ''xgc_media_camera could not start snapshot JPEG worker'' s1))"

definition startReporter :: "bool \<Rightarrow> 'z plugin_scheme \<Rightarrow> bool \<times> 'z plugin_scheme" where
  "startReporter created s = (case StartDiagnosticReporter created s of (ok, s1) \<Rightarrow>
     (ok, if ok then s1\<lparr>diagnosticThread := True\<rparr>
          else complain ''xgc_media_camera could not start diagnostic reporter'' s1))"

definition stopPacer :: "'z plugin_scheme \<Rightarrow> 'z plugin_scheme" where
  "stopPacer s = (StopRTPPacer s)\<lparr>rtpPacerThread := False\<rparr>"

definition stopEncoder :: "'z plugin_scheme \<Rightarrow> 'z plugin_scheme" where
  "stopEncoder s = (StopSnapshotEncoder s)\<lparr>snapshotEncoderThread := False\<rparr>"

definition stopReporter :: "'z plugin_scheme \<Rightarrow> 'z plugin_scheme" where
  "stopReporter s = (StopDiagnosticReporter s)\<lparr>diagnosticThread := False\<rparr>"

definition StartROSPublisher :: "'z plugin_scheme \<Rightarrow> bool \<times> 'z plugin_scheme" where
  "StartROSPublisher s =
     (if \<not> rosPublishingEnabled s then (True, s)
      else (True, s\<lparr>rosDataRuntime := True, rosRegistration := True\<rparr>))"

definition stopROS :: "'z plugin_scheme \<Rightarrow> 'z plugin_scheme" where
  "stopROS s = (StopROSPublisher (s\<lparr>rosRegistration := False\<rparr>))\<lparr>rosDataRuntime := False\<rparr>"

definition closeSocket :: "'z plugin_scheme \<Rightarrow> 'z plugin_scheme" where
  "closeSocket s = s\<lparr>closedSockets := closedSockets s @ [rtpSocket s], rtpSocket := - 1\<rparr>"

text \<open>The stream and its calibration, before the ROS publisher starts.\<close>

definition initStream :: "u64 \<Rightarrow> camera_sensor \<Rightarrow> 'z plugin_scheme \<Rightarrow> 'z plugin_scheme" where
  "initStream epoch cs s =
     (let s1 = s\<lparr>streamWidth := cs_width cs, streamHeight := cs_height cs, streamFrameRate := frameRate s,
                 streamKeyframeIntervalFrames := gopLength s, streamEpoch := epoch,
                 pendingDiscontinuity := DISCONTINUITY_STREAM_START, rosWaitingForIDR := True\<rparr>;
          m = calibrationMetadata s1
      in s1\<lparr>calibrationMetadata := m\<lparr>cal_width := cs_width cs, cal_height := cs_height cs,
              cal_matrix := projectedMatrix (cs_projection cs) (cs_width cs) (cs_height cs),
              cal_distortion := (case cs_lens cs of Some d \<Rightarrow> d @ replicate (8 - length d) 0
                                 | None \<Rightarrow> cal_distortion m),
              cal_distortionCount := 5\<rparr>\<rparr>)"

section \<open>Load\<close>

text \<open>
  What the environment answers: the loopback address, the socket (negative for an error), the three
  threads, the numbers of the first epoch, and the shared host or the exception of \<open>Acquire\<close>.
\<close>

record load_answers =
  la_loader :: hw_loader
  la_library :: string
  la_turbo :: bool
  la_loopback :: bool
  la_socket :: int
  la_socketError :: string
  la_pacer :: bool
  la_encoder :: bool
  la_reporter :: bool
  la_epoch :: "u64 \<times> u64 \<times> u64"
  la_host :: "control_exn + nat host"

text \<open>The end of \<open>Load\<close>, with the services started.\<close>

definition loadControl :: "load_answers \<Rightarrow> camera_sensor \<Rightarrow> 'z plugin_scheme \<Rightarrow> 'z plugin_scheme" where
  "loadControl la cs s =
     (let epoch = (case la_epoch la of (now, pid, self) \<Rightarrow> InitialEpochToken now pid self);
          s1 = snd (StartROSPublisher (initStream epoch cs s));
          s2 = s1\<lparr>sensorActive := False, postRenderConnection := True\<rparr>
      in case StartControlServer (la_host la) s2 of
           (True, s3) \<Rightarrow> s3
         | (False, s3) \<Rightarrow> closeSocket (stopPacer (stopEncoder
             (complain ''xgc_media_camera XRPC startup failed'' s3))))"

definition loadServices :: "load_answers \<Rightarrow> camera_sensor \<Rightarrow> 'z plugin_scheme \<Rightarrow> 'z plugin_scheme" where
  "loadServices la cs s =
     (if \<not> la_loopback la then complain ''xgc_media_camera could not resolve loopback RTP target'' s
      else (let s1 = s\<lparr>rtpSocket := la_socket la\<rparr> in
        if rtpSocket s1 < 0
        then complain (''xgc_media_camera could not create RTP socket: '' @ la_socketError la) s1
        else (case startPacer (la_pacer la) (s1\<lparr>rtpDestination := Some (word_of_int (rtpPort s1))\<rparr>) of
          (False, s2) \<Rightarrow> closeSocket s2
        | (True, s2) \<Rightarrow> (case startEncoder (la_encoder la) s2 of
            (False, s3) \<Rightarrow> closeSocket (stopPacer s3)
          | (True, s3) \<Rightarrow> (case startReporter (la_reporter la) s3 of
              (False, s4) \<Rightarrow> closeSocket (stopPacer (stopEncoder (StopControlServer s4)))
            | (True, s4) \<Rightarrow> loadControl la cs s4)))))"

definition Load ::
  "load_answers \<Rightarrow> camera_sensor option \<Rightarrow> sdf \<Rightarrow> 'z plugin_scheme \<Rightarrow> 'z plugin_scheme" where
  "Load la parent sdf s =
     (case parent of
        None \<Rightarrow> complain ''xgc_media_camera requires a Gazebo CameraSensor'' s
      | Some cs \<Rightarrow>
        (let s1 = readIdentity sdf (s\<lparr>sensorUpdateRate := cs_updateRate cs\<rparr>) in
         case sdf_int sdf ''rtpPort'' of
           None \<Rightarrow> complain ''xgc_media_camera requires the allocated RTP port'' s1
         | Some port \<Rightarrow>
           (let s2 = readTransport sdf port s1 in
            case ParseSnapshotJpegPolicy (SDFValue (sdf_string sdf) ''snapshotJpegBackend'' ''auto'') of
              None \<Rightarrow> complain ''xgc_media_camera snapshotJpegBackend must be auto, hardware, or cpu'' s2
            | Some policy \<Rightarrow>
              (let s3 = selectSnapshotJpeg (la_loader la) (la_library la) (la_turbo la) policy s2 in
               if \<not> bd_available (snapshotJpegBackend s3)
               then complain (''xgc_media_camera '' @ bd_error (snapshotJpegBackend s3)
                 @ (if snapshotJpegHardwarePreflightError s3 \<noteq> []
                    then '': '' @ snapshotJpegHardwarePreflightError s3 else [])) s3
               else (let s4 = readROS sdf s3 in
                 if invalidConfiguration cs s4
                 then complain ''xgc_media_camera has invalid private media source configuration'' s4
                 else if maxBitrate s4 < bitrate s4 \<or> pacingBitrate s4 < maxBitrate s4
                 then complain ''xgc_media_camera requires bitrate <= maxBitrate <= pacingBitrate'' s4
                 else loadServices la cs s4)))))"

section \<open>The destructor\<close>

text \<open>Up to the end of the callbacks, which the executor runs under the mutex of the table, and the rest.\<close>

definition leaveHost :: "'z plugin_scheme \<Rightarrow> 'z plugin_scheme" where
  "leaveHost s = StopControlServer (s\<lparr>stopping := True, postRenderConnection := False, listening := False\<rparr>)"

definition releaseServices :: "'z plugin_scheme \<Rightarrow> 'z plugin_scheme" where
  "releaseServices s1 =
     (let s2 = stopEncoder s1;
          s3 = (if captureSlotHeld s2 \<and> controlWakeHost s2
                then s2\<lparr>controlHost := ReleaseCapture (controlHost s2), captureSlotHeld := False\<rparr> else s2);
          s4 = stopPacer (stopROS s3);
          s5 = (if rtpSocket s4 \<ge> 0 then closeSocket s4 else s4)
      in stopReporter s5)"

definition DestroyPlugin :: "'z plugin_scheme \<Rightarrow> 'z plugin_scheme" where
  "DestroyPlugin s = releaseServices (leaveHost s)"

section \<open>What a source that is served satisfies\<close>

lemma IsSafeIdentifier_Safe: "IsSafeIdentifier v = SafeSourceIdentifier v"
  by (auto simp: IsSafeIdentifier_def SafeSourceIdentifier_def isAlnum_def list_all_iff)

lemma complain_fields [simp]:
  "controlRegistered (complain m s) = controlRegistered s"
  "postRenderConnection (complain m s) = postRenderConnection s"
  "diagnosticThread (complain m s) = diagnosticThread s"
  "rosRegistration (complain m s) = rosRegistration s"
  "rtpSocket (complain m s) = rtpSocket s"
  by (simp_all add: complain_def)

text \<open>The configuration, which nothing writes once it has been checked.\<close>

definition configuration :: "'z plugin_scheme \<Rightarrow> (string \<times> string \<times> int \<times> int \<times> int \<times> int \<times> int)
    \<times> int \<times> nat \<times> backend_decision \<times> bool \<times> real \<times> nat" where
  "configuration s = ((sourceID s, controlTargetID s, jpegQuality s, rtpPort s, bitrate s, maxBitrate s,
     pacingBitrate s), vbvBufferMilliseconds s, rosPublisherQueueCapacity s, snapshotJpegBackend s,
     rosPublishingEnabled s, sensorUpdateRate s, pluginObject s)"

text \<open>The state in which \<open>loadServices\<close> hands over to \<open>loadControl\<close>.\<close>

definition servicesUp :: "load_answers \<Rightarrow> 'z plugin_scheme \<Rightarrow> 'z plugin_scheme" where
  "servicesUp la s = s\<lparr>rtpSocket := la_socket la, rtpDestination := Some (word_of_int (rtpPort s)),
     rtpPacerStopping := False, rtpPacerThread := True, snapshotEncoderStopping := False,
     snapshotEncoderThread := True, diagnosticStopping := False, diagnosticThread := True\<rparr>"

text \<open>What removing the source leaves alone: a view that shows none of its slots either.\<close>

locale removal_view = reply_view +
  assumes removal [simp]:
    "view (controlHost_update f6 s) = view s"
    "view (controlRegistered_update f7 s) = view s"
    "view (captureReply_update f8 s) = view s"
begin

lemma StopControlServer: "view (StopControlServer s) = view s"
  by (simp add: StopControlServer_def Let_def split: option.split)

end

definition sensorKey :: "'z plugin_scheme \<Rightarrow> (int \<times> bool) \<times> bool \<times> bool \<times> string \<times> nat \<times> bool" where
  "sensorKey s = ((rtpSocket s, postRenderConnection s), captureSlotHeld s, controlWakeHost s, sourceID s,
     pluginObject s, stopping s)"

interpretation sk: removal_view sensorKey
  by unfold_locales (simp_all add: sensorKey_def)

text \<open>The slots that \<open>StopControlServer\<close> empties after the observers.\<close>

definition slotKey :: "'z ctl_scheme \<Rightarrow> bool \<times> nat host \<times> nat option" where
  "slotKey s = (controlRegistered s, controlHost s, captureReply s)"

interpretation wk: reply_view slotKey
  by unfold_locales (simp_all add: slotKey_def)

lemmas removeWatchers_slots [simp] = wk.removed [unfolded slotKey_def prod.inject, THEN conjunct1]
  wk.removed [unfolded slotKey_def prod.inject, THEN conjunct2, THEN conjunct1]
  wk.removed [unfolded slotKey_def prod.inject, THEN conjunct2, THEN conjunct2]

lemma completeReply_registered [simp]: "controlRegistered (completeReply r x s) = controlRegistered s"
  by (simp add: completeReply_def)

lemma StopControlServer_slots:
  "\<not> controlRegistered (StopControlServer s)" "captureReply (StopControlServer s) = None"
  "controlHost (StopControlServer s)
     = (if controlRegistered s then Unregister (sourceID s) (controlHost s) else controlHost s)"
  by (simp_all add: StopControlServer_def Let_def split: option.split)

lemma stops_registered [simp]:
  "controlRegistered (stopPacer s) = controlRegistered s"
  "controlRegistered (stopEncoder s) = controlRegistered s"
  "controlRegistered (closeSocket s) = controlRegistered s"
  by (simp_all add: stopPacer_def stopEncoder_def closeSocket_def StopRTPPacer_def StopSnapshotEncoder_def)

lemma loadServices_reaches:
  assumes "controlRegistered (loadServices la cs s)" and "\<not> controlRegistered s"
  shows "la_loopback la \<and> la_socket la \<ge> 0 \<and> la_pacer la \<and> la_encoder la \<and> la_reporter la"
proof -
  obtain m1 m2 m3 m4 m5 where m: "m1 = ''xgc_media_camera could not resolve loopback RTP target''"
    "m2 = ''xgc_media_camera could not create RTP socket: ''"
    "m3 = ''xgc_media_camera could not start RTP pacer''"
    "m4 = ''xgc_media_camera could not start snapshot JPEG worker''"
    "m5 = ''xgc_media_camera could not start diagnostic reporter''" by simp
  show ?thesis
    using assms unfolding loadServices_def Let_def startPacer_def startEncoder_def startReporter_def
      m [symmetric]
    by (auto simp: StartRTPPacer_def StartSnapshotEncoder_def StartDiagnosticReporter_def
        StopControlServer_slots split: if_splits bool.splits)
qed

lemma loadServices_up:
  assumes "la_loopback la" "la_socket la \<ge> 0" "la_pacer la" "la_encoder la" "la_reporter la"
  shows "loadServices la cs s = loadControl la cs (servicesUp la s)"
  using assms by (simp add: loadServices_def startPacer_def startEncoder_def startReporter_def
      StartRTPPacer_def StartSnapshotEncoder_def StartDiagnosticReporter_def servicesUp_def Let_def)

definition validConfiguration :: "camera_sensor \<Rightarrow> 'z plugin_scheme \<Rightarrow> bool" where
  "validConfiguration cs s \<longleftrightarrow> \<not> invalidConfiguration cs s \<and> bitrate s \<le> maxBitrate s
     \<and> maxBitrate s \<le> pacingBitrate s \<and> bd_available (snapshotJpegBackend s)
     \<and> 50 \<le> vbvBufferMilliseconds s \<and> vbvBufferMilliseconds s \<le> 2000
     \<and> 1 \<le> rosPublisherQueueCapacity s \<and> rosPublisherQueueCapacity s \<le> 128"

text \<open>The configuration part of \<open>Load\<close> does not depend on the services.\<close>

lemma Load_reaches:
  assumes "controlRegistered (Load la parent sdf s)" and "\<not> controlRegistered s"
  shows "\<exists>cs u. parent = Some cs \<and> validConfiguration cs u \<and> \<not> controlRegistered u
    \<and> (\<forall>h. Load (la\<lparr>la_host := h\<rparr>) parent sdf s = loadServices (la\<lparr>la_host := h\<rparr>) cs u)
    \<and> Load la parent sdf s = loadServices la cs u"
proof -
  obtain m1 m2 m3 m4 m5 m6 m7 where m: "m1 = ''xgc_media_camera requires a Gazebo CameraSensor''"
    "m2 = ''xgc_media_camera requires the allocated RTP port''"
    "m3 = ''xgc_media_camera snapshotJpegBackend must be auto, hardware, or cpu''"
    "m4 = ''xgc_media_camera ''" "m5 = '': ''"
    "m6 = ''xgc_media_camera has invalid private media source configuration''"
    "m7 = ''xgc_media_camera requires bitrate <= maxBitrate <= pacingBitrate''" by simp
  have Load: "Load la parent sdf s = (case parent of
        None \<Rightarrow> complain m1 s
      | Some cs \<Rightarrow>
        (let s1 = readIdentity sdf (s\<lparr>sensorUpdateRate := cs_updateRate cs\<rparr>) in
         case sdf_int sdf ''rtpPort'' of
           None \<Rightarrow> complain m2 s1
         | Some port \<Rightarrow>
           (let s2 = readTransport sdf port s1 in
            case ParseSnapshotJpegPolicy (SDFValue (sdf_string sdf) ''snapshotJpegBackend'' ''auto'') of
              None \<Rightarrow> complain m3 s2
            | Some policy \<Rightarrow>
              (let s3 = selectSnapshotJpeg (la_loader la) (la_library la) (la_turbo la) policy s2 in
               if \<not> bd_available (snapshotJpegBackend s3)
               then complain (m4 @ bd_error (snapshotJpegBackend s3)
                 @ (if snapshotJpegHardwarePreflightError s3 \<noteq> []
                    then m5 @ snapshotJpegHardwarePreflightError s3 else [])) s3
               else (let s4 = readROS sdf s3 in
                 if invalidConfiguration cs s4 then complain m6 s4
                 else if maxBitrate s4 < bitrate s4 \<or> pacingBitrate s4 < maxBitrate s4
                 then complain m7 s4
                 else loadServices la cs s4)))))" for la
    unfolding m Load_def by (rule refl)
  obtain cs where cs: "parent = Some cs" using assms Load [of la] by (cases parent) simp_all
  obtain s1 where s1: "s1 = readIdentity sdf (s\<lparr>sensorUpdateRate := cs_updateRate cs\<rparr>)" by simp
  have r1: "\<not> controlRegistered s1" using assms(2) by (simp add: s1 readIdentity_def)
  obtain port where port: "sdf_int sdf ''rtpPort'' = Some port"
    using assms(1) r1 unfolding Load [of la] unfolding cs Let_def option.case s1 [symmetric]
    by (cases "sdf_int sdf ''rtpPort''") simp_all
  obtain s2 where s2: "s2 = readTransport sdf port s1" by simp
  have r2: "\<not> controlRegistered s2" "50 \<le> vbvBufferMilliseconds s2" "vbvBufferMilliseconds s2 \<le> 2000"
    using r1 by (simp_all add: s2 readTransport_def clampInt_def Let_def)
  obtain policy where policy: "ParseSnapshotJpegPolicy
      (SDFValue (sdf_string sdf) ''snapshotJpegBackend'' ''auto'') = Some policy"
    using assms(1) r2 unfolding Load [of la] unfolding cs Let_def option.case s1 [symmetric] port s2 [symmetric]
    by (cases "ParseSnapshotJpegPolicy (SDFValue (sdf_string sdf) ''snapshotJpegBackend'' ''auto'')") simp_all
  obtain s3 where s3: "s3 = selectSnapshotJpeg (la_loader la) (la_library la) (la_turbo la) policy s2" by simp
  have r3: "\<not> controlRegistered s3" "vbvBufferMilliseconds s3 = vbvBufferMilliseconds s2"
    using r2 by (simp_all add: s3 selectSnapshotJpeg_def split: prod.split)
  obtain s4 where s4: "s4 = readROS sdf s3" by simp
  have r4: "\<not> controlRegistered s4" "vbvBufferMilliseconds s4 = vbvBufferMilliseconds s2"
    "1 \<le> rosPublisherQueueCapacity s4" "rosPublisherQueueCapacity s4 \<le> 128"
    "snapshotJpegBackend s4 = snapshotJpegBackend s3"
    using r3 by (auto simp: s4 readROS_def clampInt_def)
  have all: "Load la' parent sdf s = (if \<not> bd_available (snapshotJpegBackend s3)
      then complain (m4 @ bd_error (snapshotJpegBackend s3)
        @ (if snapshotJpegHardwarePreflightError s3 \<noteq> [] then m5 @ snapshotJpegHardwarePreflightError s3 else [])) s3
      else if invalidConfiguration cs s4 then complain m6 s4
      else if maxBitrate s4 < bitrate s4 \<or> pacingBitrate s4 < maxBitrate s4 then complain m7 s4
      else loadServices la' cs s4)"
    if "la_loader la' = la_loader la" "la_library la' = la_library la" "la_turbo la' = la_turbo la" for la'
    unfolding Load [of la'] unfolding cs option.case Let_def s1 [symmetric] port s2 [symmetric] policy that
      s3 [symmetric] s4 [symmetric] by (rule refl)
  have ok: "bd_available (snapshotJpegBackend s3)" "\<not> invalidConfiguration cs s4"
    "bitrate s4 \<le> maxBitrate s4" "maxBitrate s4 \<le> pacingBitrate s4"
    using assms(1) r3(1) r4(1) unfolding all [of la, OF refl refl refl] by (auto split: if_splits)
  then have "validConfiguration cs s4" using r2 r4 by (simp add: validConfiguration_def)
  moreover have "Load la' parent sdf s = loadServices la' cs s4"
    if "la_loader la' = la_loader la" "la_library la' = la_library la" "la_turbo la' = la_turbo la" for la'
    unfolding all [OF that] using ok by simp
  ultimately show ?thesis using cs r4(1) by (intro exI [of _ cs] exI [of _ s4]) simp
qed

text \<open>The state that \<open>loadControl\<close> gives to the control server.\<close>

definition beforeControl :: "load_answers \<Rightarrow> camera_sensor \<Rightarrow> 'z plugin_scheme \<Rightarrow> 'z plugin_scheme" where
  "beforeControl la cs s =
     (snd (StartROSPublisher (initStream (case la_epoch la of (now, pid, self) \<Rightarrow> InitialEpochToken now pid self)
        cs s)))\<lparr>sensorActive := False, postRenderConnection := True\<rparr>"

lemma loadControl_cases:
  "loadControl la cs s = (case StartControlServer (la_host la) (beforeControl la cs s) of
     (True, t) \<Rightarrow> t
   | (False, t) \<Rightarrow> closeSocket (stopPacer (stopEncoder (complain ''xgc_media_camera XRPC startup failed'' t))))"
  by (simp only: loadControl_def beforeControl_def Let_def)

lemma beforeControl_fields [simp]:
  "sourceID (beforeControl la cs s) = sourceID s" "pluginObject (beforeControl la cs s) = pluginObject s"
  "configuration (beforeControl la cs s) = configuration s"
  "controlRegistered (beforeControl la cs s) = controlRegistered s"
  "streamWidth (beforeControl la cs s) = cs_width cs" "streamHeight (beforeControl la cs s) = cs_height cs"
  "streamFrameRate (beforeControl la cs s) = frameRate s"
  "streamKeyframeIntervalFrames (beforeControl la cs s) = gopLength s"
  "streamEpoch (beforeControl la cs s) = (case la_epoch la of (now, pid, self) \<Rightarrow> InitialEpochToken now pid self)"
  "rtpSocket (beforeControl la cs s) = rtpSocket s" "rtpDestination (beforeControl la cs s) = rtpDestination s"
  "rtpPacerThread (beforeControl la cs s) = rtpPacerThread s"
  "snapshotEncoderThread (beforeControl la cs s) = snapshotEncoderThread s"
  "diagnosticThread (beforeControl la cs s) = diagnosticThread s"
  "postRenderConnection (beforeControl la cs s)"
  "rosRegistration (beforeControl la cs s) = (rosRegistration s \<or> rosPublishingEnabled s)"
  by (simp_all add: beforeControl_def StartROSPublisher_def initStream_def configuration_def Let_def)

lemma configuration_server [simp]:
  "configuration (s\<lparr>controlHost := h, controlWakeHost := b, desiredConfig := c, appliedConfig := c'\<rparr>) = configuration s"
  "configuration (s\<lparr>controlRegistered := r\<rparr>) = configuration s"
  "configuration (controlHost_update f s) = configuration s"
  by (simp_all add: configuration_def)

lemma servicesUp_fields [simp]:
  "configuration (servicesUp la s) = configuration s" "sourceID (servicesUp la s) = sourceID s"
  "pluginObject (servicesUp la s) = pluginObject s"
  "controlRegistered (servicesUp la s) = controlRegistered s" "frameRate (servicesUp la s) = frameRate s"
  "gopLength (servicesUp la s) = gopLength s" "rtpSocket (servicesUp la s) = la_socket la"
  "rtpDestination (servicesUp la s) = Some (word_of_int (rtpPort s))"
  "rtpPacerThread (servicesUp la s)" "snapshotEncoderThread (servicesUp la s)"
  "diagnosticThread (servicesUp la s)" "rosPublishingEnabled (servicesUp la s) = rosPublishingEnabled s"
  "rosRegistration (servicesUp la s) = rosRegistration s"
  by (simp_all add: servicesUp_def configuration_def frameRate_def gopLength_def)

lemma StartControlServer_registered:
  assumes "StartControlServer acquired s = (ok, t)" and "\<not> controlRegistered s"
  shows "controlRegistered t = ok
    \<and> (ok \<longrightarrow> (\<exists>host h'. acquired = Inr host \<and> Register (sourceID s) (pluginObject s) host = Inr h'
         \<and> t = s\<lparr>controlHost := h', controlWakeHost := True, desiredConfig := startConfig s,
                appliedConfig := startConfig s, controlRegistered := True\<rparr>))"
  using assms by (auto simp: StartControlServer_def Let_def split: sum.splits)

text \<open>Everything a successful \<open>Load\<close> went through.\<close>

lemma Load_registered:
  assumes "controlRegistered (Load la parent sdf s)" and "\<not> controlRegistered s"
  obtains cs u host h' where "parent = Some cs" "validConfiguration cs u" "\<not> controlRegistered u"
    "la_socket la \<ge> 0" "la_host la = Inr host" "Register (sourceID u) (pluginObject u) host = Inr h'"
    "Load la parent sdf s = (beforeControl la cs (servicesUp la u))
       \<lparr>controlHost := h', controlWakeHost := True,
        desiredConfig := startConfig (beforeControl la cs (servicesUp la u)),
        appliedConfig := startConfig (beforeControl la cs (servicesUp la u)), controlRegistered := True\<rparr>"
    "\<forall>h. Load (la\<lparr>la_host := h\<rparr>) parent sdf s
       = loadControl (la\<lparr>la_host := h\<rparr>) cs (servicesUp (la\<lparr>la_host := h\<rparr>) u)"
proof -
  obtain cs u where u: "parent = Some cs" "validConfiguration cs u" "\<not> controlRegistered u"
    and all: "\<forall>h. Load (la\<lparr>la_host := h\<rparr>) parent sdf s = loadServices (la\<lparr>la_host := h\<rparr>) cs u"
    and load: "Load la parent sdf s = loadServices la cs u"
    using Load_reaches [OF assms] by blast
  then have up: "la_loopback la" "la_socket la \<ge> 0" "la_pacer la" "la_encoder la" "la_reporter la"
    using loadServices_reaches [of la cs u] assms(1) by simp_all
  then have load': "Load la parent sdf s = loadControl la cs (servicesUp la u)"
    using load loadServices_up by simp
  obtain b where b: "b = beforeControl la cs (servicesUp la u)" by simp
  obtain ok t where t: "StartControlServer (la_host la) b = (ok, t)"
    by (cases "StartControlServer (la_host la) b")
  have "\<not> controlRegistered b" using u(3) by (simp add: b)
  note started = StartControlServer_registered [OF t this]
  have "controlRegistered (case (ok, t) of (True, t) \<Rightarrow> t | (False, t) \<Rightarrow>
      closeSocket (stopPacer (stopEncoder (complain m t)))) = controlRegistered t" for m
    by (simp split: bool.split)
  then have "ok" using assms(1) started unfolding load' loadControl_cases b [symmetric] t by simp
  then have "Load la parent sdf s = t" unfolding load' loadControl_cases b [symmetric] t by simp
  moreover have "Load (la\<lparr>la_host := h\<rparr>) parent sdf s
      = loadControl (la\<lparr>la_host := h\<rparr>) cs (servicesUp (la\<lparr>la_host := h\<rparr>) u)" for h
    using all up loadServices_up [of "la\<lparr>la_host := h\<rparr>" cs u] by simp
  ultimately show ?thesis
    using that [of cs u] u up started \<open>ok\<close> by (auto simp: b)
qed

lemma frameRate_least: "0.1 \<le> frameRate s"
  by (simp add: frameRate_def)

lemma gopLength_pos: "1 \<le> gopLength s"
  by (simp add: gopLength_def)

text \<open>
  C29: A source that \<open>Load\<close> registers has a checked configuration: identifiers that are safe in routes,
  an image of 16 to 4096 by 16 to 2160 pixels, a JPEG quality of 50 to 100, an RTP port that fits in
  16 bits and is the one sent to, bit rates in order, and queue and buffer sizes in their ranges; its
  stream has a nonzero epoch, a positive frame rate and a key frame interval; its threads run, its
  socket is open, and the host routes to it.
\<close>

theorem load_serves_valid_source:
  assumes "controlRegistered (Load la parent sdf s)" and "\<not> controlRegistered s"
    and "\<forall>host. la_host la = Inr host \<longrightarrow> hostInv host"
  shows "let t = Load la parent sdf s in
    SafeSourceIdentifier (sourceID t) \<and> SafeSourceIdentifier (controlTargetID t)
    \<and> 16 \<le> streamWidth t \<and> streamWidth t \<le> 4096 \<and> 16 \<le> streamHeight t \<and> streamHeight t \<le> 2160
    \<and> 50 \<le> jpegQuality t \<and> jpegQuality t \<le> 100
    \<and> (\<exists>port. rtpDestination t = Some port \<and> uint port = rtpPort t \<and> port \<noteq> 0)
    \<and> 128000 \<le> bitrate t \<and> bitrate t \<le> maxBitrate t \<and> maxBitrate t \<le> pacingBitrate t
    \<and> 50 \<le> vbvBufferMilliseconds t \<and> vbvBufferMilliseconds t \<le> 2000
    \<and> 1 \<le> rosPublisherQueueCapacity t \<and> rosPublisherQueueCapacity t \<le> 128
    \<and> bd_available (snapshotJpegBackend t)
    \<and> streamEpoch t \<noteq> 0 \<and> 0.1 \<le> streamFrameRate t \<and> 1 \<le> streamKeyframeIntervalFrames t
    \<and> rtpSocket t \<ge> 0 \<and> rtpPacerThread t \<and> snapshotEncoderThread t \<and> diagnosticThread t
    \<and> roster (controlHost t) (sourceID t) = Some (pluginObject t)"
proof -
  from Load_registered [OF assms(1,2)] obtain cs u host h' where
    u: "validConfiguration cs u" "\<not> controlRegistered u" and socket: "la_socket la \<ge> 0"
    and host: "la_host la = Inr host" "Register (sourceID u) (pluginObject u) host = Inr h'"
    and load: "Load la parent sdf s = (beforeControl la cs (servicesUp la u))
       \<lparr>controlHost := h', controlWakeHost := True,
        desiredConfig := startConfig (beforeControl la cs (servicesUp la u)),
        appliedConfig := startConfig (beforeControl la cs (servicesUp la u)), controlRegistered := True\<rparr>" .
  obtain t where t: "t = Load la parent sdf s" by simp
  have same: "configuration t = configuration u"
    unfolding t load by simp
  note c = same [unfolded configuration_def prod.inject]
  have valid: "\<not> invalidConfiguration cs u" using u(1) by (simp add: validConfiguration_def)
  have port: "uint (word_of_int (rtpPort u) :: u16) = rtpPort u"
    using valid by (simp add: invalidConfiguration_def uint_word_of_int)
  have routed: "roster h' (sourceID u) = Some (pluginObject u)"
    using Register_Inr [OF _ host(2)] assms(3) host(1) by auto
  have stream: "streamWidth t = cs_width cs" "streamHeight t = cs_height cs" "streamEpoch t \<noteq> 0"
    "0.1 \<le> streamFrameRate t" "1 \<le> streamKeyframeIntervalFrames t"
    "rtpDestination t = Some (word_of_int (rtpPort u))" "rtpSocket t = la_socket la" "rtpPacerThread t"
    "snapshotEncoderThread t" "diagnosticThread t" "controlHost t = h'"
    unfolding t load using frameRate_least [of u] gopLength_pos [of u]
    by (simp_all split: prod.split)
  show ?thesis
    unfolding t [symmetric] Let_def
    using c stream valid port routed socket u(1)
    by (auto simp: validConfiguration_def invalidConfiguration_def IsSafeIdentifier_Safe not_le not_less)
qed

text \<open>
  C39: When everything but the control host works, \<open>Load\<close> reports the error and stops the pacer, the
  JPEG worker and the socket, but leaves the diagnostic reporter, the render callback and, if ROS is
  enabled, the ROS registration of the source running, although no source is served.
\<close>

theorem failed_control_server_leaves_services:
  assumes "controlRegistered (Load la parent sdf s)" and "\<not> controlRegistered s"
  shows "let t = Load (la\<lparr>la_host := Inl e\<rparr>) parent sdf s in
    \<not> controlRegistered t \<and> \<not> rtpPacerThread t \<and> \<not> snapshotEncoderThread t \<and> rtpSocket t = - 1
    \<and> diagnosticThread t \<and> postRenderConnection t \<and> (rosPublishingEnabled t \<longrightarrow> rosRegistration t)"
proof -
  obtain m where m: "m = ''xgc_media_camera XRPC startup failed''" by simp
  from Load_registered [OF assms] obtain cs u where u: "\<not> controlRegistered u"
    and load: "\<forall>h. Load (la\<lparr>la_host := h\<rparr>) parent sdf s
       = loadControl (la\<lparr>la_host := h\<rparr>) cs (servicesUp (la\<lparr>la_host := h\<rparr>) u)" by blast
  obtain b where b: "b = beforeControl (la\<lparr>la_host := Inl e\<rparr>) cs (servicesUp (la\<lparr>la_host := Inl e\<rparr>) u)"
    by simp
  have f: "\<not> controlRegistered b" "diagnosticThread b" "postRenderConnection b"
    "rosPublishingEnabled b \<longrightarrow> rosRegistration b"
    using u by (simp_all add: b) (simp add: beforeControl_def StartROSPublisher_def initStream_def servicesUp_def Let_def)
  have l: "Load (la\<lparr>la_host := Inl e\<rparr>) parent sdf s
      = loadControl (la\<lparr>la_host := Inl e\<rparr>) cs (servicesUp (la\<lparr>la_host := Inl e\<rparr>) u)"
    using load by blast
  have "Load (la\<lparr>la_host := Inl e\<rparr>) parent sdf s = closeSocket (stopPacer (stopEncoder (complain m b)))"
    unfolding l loadControl_cases b [symmetric] m [symmetric] by (simp add: StartControlServer_def)
  with f show ?thesis
    by (simp add: Let_def closeSocket_def stopPacer_def stopEncoder_def complain_def StopRTPPacer_def
        StopSnapshotEncoder_def)
qed

section \<open>The destructor\<close>

lemma removeWatchers_answered:
  "answered (removeWatchers s) = answered s + heldWatchers (controlWatchers s)"
proof -
  have "answered (fold (\<lambda>slot t. case slot of None \<Rightarrow> t | Some w \<Rightarrow> completeReply (cw_reply w) removed t) ws u)
      = answered u + heldWatchers ws" for ws and u :: "'a ctl_scheme"
  proof (induction ws arbitrary: u)
    case (Cons w ws)
    then show ?case by (cases w) simp_all
  qed simp
  then show ?thesis by (simp add: removeWatchers_def)
qed

lemma StopControlServer_answered: "answered (StopControlServer s) = custody s"
  by (simp add: StopControlServer_def Let_def removeWatchers_answered custody_def split: option.split)

lemma leaveHost_outcome:
  "answered (leaveHost s) = custody s" "captureSlotHeld (leaveHost s) = captureSlotHeld s"
  "controlWakeHost (leaveHost s) = controlWakeHost s" "rtpSocket (leaveHost s) = rtpSocket s"
  "\<not> postRenderConnection (leaveHost s)" "stopping (leaveHost s)" "sourceID (leaveHost s) = sourceID s"
  "pluginObject (leaveHost s) = pluginObject s"
  "\<not> controlRegistered (leaveHost s)" "captureReply (leaveHost s) = None"
  "controlHost (leaveHost s)
     = (if controlRegistered s then Unregister (sourceID s) (controlHost s) else controlHost s)"
  using sk.StopControlServer [of "s\<lparr>stopping := True, postRenderConnection := False, listening := False\<rparr>"]
  by (simp_all add: leaveHost_def sensorKey_def StopControlServer_slots StopControlServer_answered)
    (simp add: custody_def answered_def)

lemma releaseServices_outcome:
  "answered (releaseServices s) = answered s" "roster (controlHost (releaseServices s)) = roster (controlHost s)"
  "hs_capture_reserved (controlHost (releaseServices s))
     \<longleftrightarrow> hs_capture_reserved (controlHost s) \<and> \<not> (captureSlotHeld s \<and> controlWakeHost s)"
  "captureSlotHeld (releaseServices s) \<longleftrightarrow> captureSlotHeld s \<and> \<not> controlWakeHost s"
  "\<not> rtpPacerThread (releaseServices s)" "\<not> snapshotEncoderThread (releaseServices s)"
  "\<not> diagnosticThread (releaseServices s)" "\<not> rosPublisherThread (releaseServices s)"
  "\<not> rosRegistration (releaseServices s)" "\<not> rosDataRuntime (releaseServices s)"
  "rosTopics (releaseServices s) = []" "postRenderConnection (releaseServices s) = postRenderConnection s"
  "rtpSocket (releaseServices s) < 0"
  "controlWakeHost (releaseServices s) = controlWakeHost s" "pluginObject (releaseServices s) = pluginObject s"
  "controlRegistered (releaseServices s) = controlRegistered s" "sourceID (releaseServices s) = sourceID s"
  "captureReply (releaseServices s) = captureReply s" "stopping (releaseServices s) = stopping s"
  "hs_sources (controlHost (releaseServices s)) = hs_sources (controlHost s)"
  "rtpSocket s \<ge> 0 \<Longrightarrow> rtpSocket s \<in> set (closedSockets (releaseServices s))"
  by (simp_all add: releaseServices_def stopEncoder_def StopSnapshotEncoder_def ReleaseCapture_def
      stopPacer_def stopROS_def StopRTPPacer_def StopROSPublisher_def closeSocket_def stopReporter_def
      StopDiagnosticReporter_def answered_def roster_def fun_eq_iff Let_def) blast

text \<open>
  C28: Removing the plugin answers every request it still holds (the pending mutation, all observers and
  the capture), each once; it takes the source out of the host's table, gives back the capture
  slot if it holds it, joins every thread, ends the ROS registration and closes the socket.
\<close>

theorem destructor_releases_everything:
  "let t = DestroyPlugin s in
     answered t = custody s
     \<and> (controlRegistered s \<and> hostInv (controlHost s) \<longrightarrow>
          roster (controlHost t) = (roster (controlHost s))(sourceID s := None))
     \<and> (captureSlotHeld s \<and> controlWakeHost s \<longrightarrow> \<not> hs_capture_reserved (controlHost t) \<and> \<not> captureSlotHeld t)
     \<and> \<not> rtpPacerThread t \<and> \<not> snapshotEncoderThread t \<and> \<not> diagnosticThread t \<and> \<not> rosPublisherThread t
     \<and> \<not> rosRegistration t \<and> \<not> rosDataRuntime t \<and> rosTopics t = [] \<and> \<not> postRenderConnection t
     \<and> rtpSocket t < 0
     \<and> (rtpSocket s \<ge> 0 \<longrightarrow> rtpSocket s \<in> set (closedSockets t))"
proof -
  have table: "roster (controlHost (leaveHost s)) = (roster (controlHost s))(sourceID s := None)"
    if "controlRegistered s" "hostInv (controlHost s)"
    using that Unregister_inv [OF that(2)] by (simp add: leaveHost_outcome)
  show ?thesis
    using table releaseServices_outcome(21) [of "leaveHost s"]
    by (simp add: DestroyPlugin_def Let_def releaseServices_outcome(1-13) leaveHost_outcome(1-5))
qed

section \<open>A new plugin\<close>

text \<open>
  The members' initial values. A null host pointer is an empty host; what Gazebo holds (the state of
  its OpenGL context, and the sensor, which is not known yet) is arbitrary or zero.
\<close>

definition noHost :: "nat host" where
  "noHost = \<lparr>hs_sources = [], hs_path = [], hs_instance_id = [], hs_target_id = [],
     hs_capture_reserved = False, hs_stopping = False\<rparr>"

definition newPlugin :: "gl_state \<Rightarrow> plugin" where
  "newPlugin gl =
    \<lparr>diagnosticMutexHeld = False, pendingDiagnostics = [], diagnosticStopping = True,
      lastEncoderError = [], lastEncoderErrorAt = 0, consoleWarnings = [],
      forceKeyframe = True, desiredActive = False, rosConsumersActive = False,
      controlWakeHost = False, hostWakes = 0, sensorUpdateRate = 0, rtpSocket = - 1,
      rtpSequence = 0, rtpQueue = [], rtpPacerStopping = False, rtpQueuedBytes = 0,
      rtpQueueGeneration = 0, rtpInFlight = False, pacingBitrate = 0, rtpDatagrams = [],
      rtpWakeups = [], sourceID = [], frameID = [], bitrate = 0, maxBitrate = 0,
      rosPublishingEnabled = True,
      rosPublisherQueueCapacity = kDefaultROSPublisherQueueCapacity, rosTopics = [],
      rosPublisherThread = False,
      calibrationMetadata = \<lparr>cal_revision = 1, cal_width = 0, cal_height = 0, cal_model = 0,
        cal_distortionCount = 0, cal_matrix = replicate 9 0, cal_distortion = replicate 8 0\<rparr>,
      rosCameraInfoPending = False, publishedCalibrationRevision = 0,
      rosSubscriberCallbacksEnabled = False, rosSubscriberConnectionCount = 0,
      rosFrameQueue = [], rosPublisherStopping = False, rosStreamInfoPending = False,
      rosWaitingForIDR = True, rosDroppedFramesBeforeIDR = 0, rosPublisherGeneration = 0,
      streamEpoch = 1, nextPublishedFrameSequence = 0,
      pendingDiscontinuity = DISCONTINUITY_STREAM_START, streamWidth = 0, streamHeight = 0,
      streamFrameRate = 0, streamKeyframeIntervalFrames = 0, rosFreshRenderGeneration = 0,
      rosVideo = [], rosFrameTiming = [], rosStreamInfo = [], rosCameraInfo = [],
      jpegQuality = 90, snapshotJpegPolicy = kAuto,
      snapshotJpegBackend = \<lparr>bd_available = False, bd_useHardware = False, bd_allowCPUFallback = False,
        bd_backend = [], bd_hardwareState = [], bd_error = []\<rparr>,
      snapshotJpegHardware = closedHardware, snapshotJpegHardwarePreflightError = [],
      snapshotJpegHardwareFusedOff = False, snapshotPoseFrameID = [], renderFrameSequence = 0,
      captureKeyframeGeneration = 0, nativeCaptureKeyframePending = 0,
      nativeCaptureKeyframeApplied = 0, nativeCaptureKeyframeFailed = 0,
      captureSlotHeld = False, snapshot = SnapshotResult, snapshotGeneration = 0,
      snapshotRenderPassesToSkip = 0, snapshotReadbackPending = False,
      snapshotPBOAvailable = True, snapshotPBOFailureReason = [], snapshotReadbackBuffer = 0,
      snapshotReadFramebuffer = 0, snapshotReadbackFence = False,
      snapshotReadbackBufferBytes = 0, snapshotReadbackResult = None,
      snapshotEncodeJob = None, snapshotEncoderStopping = False, glewInitialized = False,
      glState = gl, glFences = 0, stopping = False, sensorActive = False,
      lastMeasurementTime = (0, 0), cameraFound = False, listening = False,
      nativeAppliedActive = False, nativeLifecycleState = 0, cleanupEncoderRequested = False,
      encoderResourcesActive = False,
      rosFreshRenderGate = \<lparr>observedGeneration = 0, sourceTimeFloor = None\<rparr>,
      nativeCommand = None, awaitingNativeControl = None, nativeFailedRevision = 0,
      nativeAppliedRevision = 1, nativeAppliedTime = 0, nativeSensorActive = False,
      vbvBufferMilliseconds = 500, nvencLibrary = False, nvencApi = emptyTable,
      encoderOpen = False, registeredInput = False, bitstream = False, encoderTexture = 0,
      readFramebuffer = 0, drawFramebuffer = 0, encoderTextureWidth = 0,
      encoderTextureHeight = 0, encoderWidth = 0, encoderHeight = 0, encodedFrameIndex = 0,
      sourceFrameSequence = 0, pendingEncodedFrames = [], lastSourceTimeNanoseconds = None,
      encoderEverInitialized = False, nvencCalls = [], rtpHost = [], rtpPort = 0,
      controlSocketPath = [], rosCameraInfoTopic = [], pluginObject = 0, controlHost = noHost,
      controlRegistered = False, pendingControl = None,
      controlWatchers = replicate kWatchers None, controlReceipts = replicate kReceipts JNull,
      nextControlReceipt = 0, desiredRevision = 1, appliedRevision = 1,
      controlEventRevision = 0, desiredConfig = JNull, appliedConfig = JNull,
      appliedTimeNanoseconds = 0, captureReply = None, captureRequestID = [],
      captureDeadline = 0, controlReplies = [], controlTargetID = [], controlInstanceID = [],
      rosVideoTopic = [], rosFrameTimingTopic = [], rosStreamInfoTopic = [],
      rosDataRuntime = False, rosRegistration = False, postRenderConnection = False,
      rtpPacerThread = False, snapshotEncoderThread = False, diagnosticThread = False,
      rtpDestination = None, closedSockets = [], consoleErrors = []\<rparr>"


section \<open>A concrete load\<close>

definition demoSdf :: sdf where
  "demoSdf = \<lparr>sdf_string = [''controlTargetId'' \<mapsto> ''t'', ''controlEndpoint'' \<mapsto> ''/run/x'',
     ''snapshotJpegBackend'' \<mapsto> ''cpu''], sdf_int = [''rtpPort'' \<mapsto> 5004], sdf_bool = Map.empty\<rparr>"

definition demoSensor :: camera_sensor where
  "demoSensor = \<lparr>cs_width = 640, cs_height = 480, cs_updateRate = 30, cs_projection = (\<lambda>i j. 1),
     cs_lens = None\<rparr>"

definition emptyHost :: "nat host" where
  "emptyHost = noHost\<lparr>hs_sources := replicate kSources freeSource\<rparr>"

definition demoLoad :: load_answers where
  "demoLoad = \<lparr>la_loader = \<lparr>ld_opens = False, ld_error = None, ld_factory = False, ld_factoryError = False,
       ld_create = (1, \<lparr>hw_abi_version = 0, hw_struct_size = 0, hw_backend_name = None, hw_context = None,
         hw_encode_rgb = None, hw_release_jpeg = False, hw_destroy = False\<rparr>, [])\<rparr>,
     la_library = [], la_turbo = True, la_loopback = True, la_socket = 5, la_socketError = [], la_pacer = True,
     la_encoder = True, la_reporter = True, la_epoch = (1, 2, 3), la_host = Inr emptyHost\<rparr>"

lemma emptyHost_inv: "hostInv emptyHost"
  by (simp add: hostInv_def emptyHost_def freeSource_def kSources_def list_all_iff)

lemma demoLoad_registers_at:
  assumes "hostInv host" and "roster host = Map.empty"
  shows "controlRegistered (Load (demoLoad\<lparr>la_host := Inr host\<rparr>) (Some demoSensor) demoSdf s)"
proof -
  obtain la where la: "la = demoLoad\<lparr>la_host := Inr host\<rparr>" by simp
  obtain s1 where s1: "s1 = readIdentity demoSdf (s\<lparr>sensorUpdateRate := cs_updateRate demoSensor\<rparr>)" by simp
  have f1: "sourceID s1 = ''usb_cam''" "frameID s1 \<noteq> []" "snapshotPoseFrameID s1 \<noteq> []"
    "rtpHost s1 = ''127.0.0.1''"
    by (simp_all add: s1 readIdentity_def SDFValue_def demoSdf_def)
  obtain s2 where s2: "s2 = readTransport demoSdf 5004 s1" by simp
  have f2: "sourceID s2 = ''usb_cam''" "frameID s2 \<noteq> []" "snapshotPoseFrameID s2 \<noteq> []"
    "rtpHost s2 = ''127.0.0.1''" "rtpPort s2 = 5004" "controlSocketPath s2 \<noteq> []" "controlTargetID s2 = ''t''"
    "bitrate s2 = 6000000" "maxBitrate s2 = 9000000" "pacingBitrate s2 = 9000000" "jpegQuality s2 = 90"
    using f1 by (simp_all add: s2 readTransport_def SDFValue_def demoSdf_def signed_divide_int_def)
  obtain s3 where s3: "s3 = selectSnapshotJpeg (la_loader la) (la_library la) (la_turbo la) kCPU s2"
    by simp
  have f3: "bd_available (snapshotJpegBackend s3)" by (simp add: s3 selectSnapshotJpeg_def SelectSnapshotJpegBackend_def)
  obtain s4 where s4: "s4 = readROS demoSdf s3" by simp
  have f4: "sourceID s4 = ''usb_cam''" "frameID s4 \<noteq> []" "snapshotPoseFrameID s4 \<noteq> []"
    "rtpHost s4 = ''127.0.0.1''" "rtpPort s4 = 5004" "controlSocketPath s4 \<noteq> []" "controlTargetID s4 = ''t''"
    "bitrate s4 = 6000000" "maxBitrate s4 = 9000000" "pacingBitrate s4 = 9000000" "jpegQuality s4 = 90"
    "rosVideoTopic s4 \<noteq> []" "rosFrameTimingTopic s4 \<noteq> []" "rosStreamInfoTopic s4 \<noteq> []"
    using f2 by (simp_all add: s4 s3 readROS_def selectSnapshotJpeg_def SDFValue_def demoSdf_def)
  have safe: "IsSafeIdentifier ''usb_cam''" "IsSafeIdentifier ''t''" by code_simp+
  have "\<not> invalidConfiguration demoSensor s4"
    using f4 safe by (simp add: invalidConfiguration_def demoSensor_def)
  moreover have "sdf_int demoSdf ''rtpPort'' = Some 5004"
    "ParseSnapshotJpegPolicy (SDFValue (sdf_string demoSdf) ''snapshotJpegBackend'' ''auto'') = Some kCPU"
    by (simp_all add: demoSdf_def SDFValue_def ParseSnapshotJpegPolicy_def)
  ultimately have "Load la (Some demoSensor) demoSdf s = loadServices la demoSensor s4"
    using f3 f4(8-10) by (simp add: Load_def s1 [symmetric] s2 [symmetric] s3 [symmetric] s4 [symmetric] Let_def)
  also have "\<dots> = loadControl la demoSensor (servicesUp la s4)"
    by (rule loadServices_up) (simp_all add: la demoLoad_def)
  finally have l: "Load la (Some demoSensor) demoSdf s = loadControl la demoSensor (servicesUp la s4)" .
  obtain h' where "Register (sourceID s4) (pluginObject s4) host = Inr h'"
    using Register_ok [OF assms(1), of "sourceID s4" "pluginObject s4"] assms(2) safe f4(1)
    by (auto simp: IsSafeIdentifier_Safe kSources_def)
  then have "fst (StartControlServer (la_host la) (beforeControl la demoSensor (servicesUp la s4)))
      \<and> controlRegistered (snd (StartControlServer (la_host la)
           (beforeControl la demoSensor (servicesUp la s4))))"
    by (simp add: StartControlServer_def la Let_def)
  then show ?thesis unfolding la [symmetric] l loadControl_cases by (auto split: prod.split bool.split)
qed

lemma demoLoad_registers:
  "controlRegistered (Load demoLoad (Some demoSensor) demoSdf s)"
proof -
  have "roster emptyHost = Map.empty"
    by (auto simp: roster_def emptyHost_def noHost_def freeSource_def kSources_def fun_eq_iff numeral_eq_Suc)
  from demoLoad_registers_at [OF emptyHost_inv this] show ?thesis by (simp add: demoLoad_def)
qed

definition plainGL :: gl_state where
  "plainGL = \<lparr>gl_readFramebuffer = 0, gl_packBuffer = 0, gl_packAlignment = 4, gl_packRowLength = 0,
     gl_packSkipRows = 0, gl_packSkipPixels = 0\<rparr>"

theorem load_serves_valid_source_witness:
  "\<not> controlRegistered (newPlugin plainGL)
    \<and> SafeSourceIdentifier (sourceID (Load demoLoad (Some demoSensor) demoSdf (newPlugin plainGL)))"
proof -
  have "\<not> controlRegistered (newPlugin plainGL)" by (simp add: newPlugin_def)
  moreover have "\<forall>host. la_host demoLoad = Inr host \<longrightarrow> hostInv host"
    by (simp add: demoLoad_def emptyHost_inv)
  ultimately show ?thesis
    using load_serves_valid_source [OF demoLoad_registers, of "newPlugin plainGL"] by (simp add: Let_def)
qed

theorem failed_control_server_leaves_services_witness:
  "diagnosticThread (Load (demoLoad\<lparr>la_host := Inl (RuntimeError [])\<rparr>) (Some demoSensor) demoSdf
     (newPlugin plainGL))"
proof -
  have "\<not> controlRegistered (newPlugin plainGL)" by (simp add: newPlugin_def)
  from failed_control_server_leaves_services [OF demoLoad_registers this, of "RuntimeError []"]
  show ?thesis by (simp add: Let_def)
qed

theorem destructor_releases_everything_witness:
  "rtpSocket (DestroyPlugin (ctl.extend ctlStart (plugin.fields ''t'' [] [] [] [] True True True True True True
     (Some 5004) [] []))) < 0"
  using destructor_releases_everything [of "ctl.extend ctlStart (plugin.fields ''t'' [] [] [] [] True True True
     True True True (Some 5004) [] [])"] by (simp add: Let_def)

end
