(* ===== verification/Camera_Process.thy ===== *)
theory Camera_Process
  imports Plugin_Lifecycle
begin

text \<open>
  The cameras of one Gazebo process on the control host they share: loading, requests, flushes, frames
  and removal of any number of cameras, in any order. The theorems show that the host never calls into a
  removed plugin, that the capture slot excludes the cameras from each other and is never lost, and
  that a request touches the one camera it is addressed to.
\<close>

section \<open>The process\<close>

text \<open>
  \<open>pr_host\<close> is what \<open>shared_host.lock()\<close> gives; \<open>pr_cameras\<close> lists the plugins in the order they were
  created, \<open>None\<close> once a plugin is deleted; \<open>pr_replies\<close> are the answers the host gives itself. While
  a plugin holds the host, its \<open>controlHost\<close> stands for the shared object.
\<close>

record process =
  pr_host :: "nat host option"
  pr_cameras :: "plugin option list"
  pr_replies :: "(nat \<times> control_response) list"

definition camera :: "process \<Rightarrow> nat \<Rightarrow> plugin option" where
  "camera w i = (if i < length (pr_cameras w) then pr_cameras w ! i else None)"

definition putCamera :: "nat \<Rightarrow> plugin \<Rightarrow> process \<Rightarrow> process" where
  "putCamera i t w =
     w\<lparr>pr_cameras := (pr_cameras w)[i := Some t], pr_host := map_option (\<lambda>h. controlHost t) (pr_host w)\<rparr>"

definition atHost :: "process \<Rightarrow> plugin \<Rightarrow> plugin" where
  "atHost w s = (case pr_host w of None \<Rightarrow> s | Some h \<Rightarrow> s\<lparr>controlHost := h\<rparr>)"

definition onCamera :: "nat \<Rightarrow> (plugin \<Rightarrow> plugin) \<Rightarrow> process \<Rightarrow> process" where
  "onCamera i f w = (case camera w i of None \<Rightarrow> w | Some s \<Rightarrow> putCamera i (f (atHost w s)) w)"

text \<open>A request at the host; a handler is called with the plugin it captured.\<close>

definition serveProcess ::
  "(string \<Rightarrow> json option) \<Rightarrow> ros_master \<Rightarrow> int \<Rightarrow> control_request \<Rightarrow> nat \<Rightarrow> process \<Rightarrow> process" where
  "serveProcess parse master now request reply w =
     (case pr_host w of
        None \<Rightarrow> w
      | Some host \<Rightarrow>
          Dispatch parse (\<lambda>response v. v\<lparr>pr_replies := pr_replies v @ [(reply, response)]\<rparr>)
            (\<lambda>i operation req input v. case camera v i of
                None \<Rightarrow> (None, v)
              | Some s \<Rightarrow> (case HandleControlRequest master now operation req input reply (atHost v s) of
                  Inl e \<Rightarrow> (Some e, v) | Inr t \<Rightarrow> (None, putCamera i t v)))
            request host w)"

definition flushProcess ::
  "(json \<Rightarrow> string) \<Rightarrow> string \<Rightarrow> ros_master \<Rightarrow> int \<Rightarrow> (nat \<Rightarrow> bool) \<Rightarrow> bool \<Rightarrow> process \<Rightarrow> process" where
  "flushProcess printJson identifier master now cancelled locked w =
     (case pr_host w of
        None \<Rightarrow> w
      | Some host \<Rightarrow>
          FlushSources (\<lambda>i. onCamera i (FlushControl printJson identifier master now cancelled locked)) host w)"

text \<open>A new plugin is loaded; \<open>server\<close> and \<open>fresh\<close> are the answers for a new host.\<close>

definition loadCamera ::
  "gl_state \<Rightarrow> load_answers \<Rightarrow> camera_sensor option \<Rightarrow> sdf \<Rightarrow> string option \<Rightarrow> string \<Rightarrow> process \<Rightarrow> process" where
  "loadCamera gl la parent sdf server fresh w =
     (let acquired = Acquire server fresh (SDFValue (sdf_string sdf) ''controlEndpoint'' [])
            (SDFValue (sdf_string sdf) ''controlTargetId'' []) (SDFValue (sdf_string sdf) ''controlInstanceId'' [])
            (pr_host w);
          t = Load (la\<lparr>la_host := acquired\<rparr>) parent sdf ((newPlugin gl)\<lparr>pluginObject := length (pr_cameras w)\<rparr>)
      in w\<lparr>pr_cameras := pr_cameras w @ [Some t],
           pr_host := (if controlWakeHost t then Some (controlHost t) else pr_host w)\<rparr>)"

text \<open>
  The destructor, in two parts, between which the other cameras go on; the last plugin that holds
  the host takes it with it.
\<close>

definition removeCamera :: "nat \<Rightarrow> process \<Rightarrow> process" where
  "removeCamera i w =
     (let w1 = onCamera i releaseServices w;
          cameras = (pr_cameras w1)[i := None]
      in w1\<lparr>pr_cameras := cameras,
            pr_host := (if list_ex (\<lambda>c. case c of None \<Rightarrow> False | Some s \<Rightarrow> controlWakeHost s) cameras
                        then pr_host w1 else None)\<rparr>)"

definition emptyProcess :: process where
  "emptyProcess = \<lparr>pr_host = None, pr_cameras = [], pr_replies = []\<rparr>"

lemma camera_put [simp]:
  "camera w i = Some s \<Longrightarrow> camera (putCamera i t w) j = (if j = i then Some t else camera w j)"
  by (auto simp: camera_def putCamera_def split: if_splits)

lemma put_fields [simp]:
  "pr_host (putCamera i t w) = map_option (\<lambda>h. controlHost t) (pr_host w)"
  "pr_replies (putCamera i t w) = pr_replies w"
  "length (pr_cameras (putCamera i t w)) = length (pr_cameras w)"
  by (simp_all add: putCamera_def)

section \<open>What a step of one camera does to the host\<close>

text \<open>The part of a camera that the host and the other cameras depend on.\<close>

definition hostKey :: "'z ctl_scheme \<Rightarrow> (string \<times> nat \<times> bool \<times> bool \<times> bool) \<times> nat host \<times> bool \<times> bool" where
  "hostKey s = ((sourceID s, pluginObject s, controlRegistered s, controlWakeHost s, stopping s),
     controlHost s, captureSlotHeld s, captureReply s = None)"

interpretation hk: render_view hostKey
  by unfold_locales (simp_all add: hostKey_def LogEncoderError_def WakeControl_def Let_def)

lemma hostKey_updates [simp]:
  "hostKey (controlReplies_update f1 s) = hostKey s"
  "hostKey (controlWatchers_update f3 s) = hostKey s"
  "hostKey (captureRequestID_update f6 s) = hostKey s"
  "hostKey (captureDeadline_update f7 s) = hostKey s"
  "hostKey (nativeCaptureKeyframePending_update f8 s) = hostKey s"
  "hostKey (forceKeyframe_update f9 s) = hostKey s"
  "hostKey (controlReceipts_update f10 s) = hostKey s"
  "hostKey (nextControlReceipt_update f11 s) = hostKey s"
  "hostKey (controlEventRevision_update f12 s) = hostKey s"
  "hostKey (appliedRevision_update f13 s) = hostKey s"
  "hostKey (appliedConfig_update f14 s) = hostKey s"
  "hostKey (appliedTimeNanoseconds_update f15 s) = hostKey s"
  "hostKey (snapshotGeneration_update f16 s) = hostKey s"
  "hostKey (captureKeyframeGeneration_update f18 s) = hostKey s"
  "hostKey (pendingControl_update f20 s) = hostKey s"
  "hostKey (desiredRevision_update f21 s) = hostKey s"
  "hostKey (desiredConfig_update f22 s) = hostKey s"
  by (simp_all add: hostKey_def)

lemma hostKey_steps [simp]:
  "hostKey (completeReply r x s) = hostKey s"
  "hostKey (snd (RememberReceipt i oper stage error s)) = hostKey s"
  "hostKey (armSnapshot i b k s) = hostKey s"
  "hostKey (snd (takeSnapshot expired s)) = hostKey s"
  "hostKey (acceptMutation oper request desired metadata r s) = hostKey s"
  by (simp_all add: completeReply_def RememberReceipt_def armSnapshot_def takeSnapshot_def
      acceptMutation_def Let_def)

text \<open>
  A step of the control executor on a camera leaves the key alone, or takes the free slot for a capture,
  or answers a capture and gives the slot back.
\<close>

definition takesSlot :: "'z ctl_scheme \<Rightarrow> 'z ctl_scheme \<Rightarrow> bool" where
  "takesSlot s t \<longleftrightarrow> fst (hostKey t) = fst (hostKey s) \<and> \<not> hs_capture_reserved (controlHost s)
     \<and> controlHost t = (controlHost s)\<lparr>hs_capture_reserved := True\<rparr> \<and> captureSlotHeld t
     \<and> captureReply t \<noteq> None"

definition givesSlot :: "'z ctl_scheme \<Rightarrow> 'z ctl_scheme \<Rightarrow> bool" where
  "givesSlot s t \<longleftrightarrow> fst (hostKey t) = fst (hostKey s) \<and> captureReply s \<noteq> None
     \<and> controlHost t = (controlHost s)\<lparr>hs_capture_reserved := False\<rparr> \<and> \<not> captureSlotHeld t
     \<and> captureReply t = None"

definition slotStep :: "'z ctl_scheme \<Rightarrow> 'z ctl_scheme \<Rightarrow> bool" where
  "slotStep s t \<longleftrightarrow> hostKey t = hostKey s \<or> takesSlot s t \<or> givesSlot s t"

definition slotHandled :: "'z ctl_scheme \<Rightarrow> control_exn + 'z ctl_scheme \<Rightarrow> bool" where
  "slotHandled s result \<longleftrightarrow> (\<forall>t. result = Inr t \<longrightarrow> slotStep s t)"

lemma slotHandled_throw: "slotHandled s (Inl e)"
  by (simp add: slotHandled_def)

lemma slotHandled_still: "hostKey t = hostKey s \<Longrightarrow> slotHandled s (Inr t)"
  by (simp add: slotHandled_def slotStep_def)

lemma slotHandled_if:
  "(b \<Longrightarrow> slotHandled s x) \<Longrightarrow> (\<not> b \<Longrightarrow> slotHandled s y) \<Longrightarrow> slotHandled s (if b then x else y)"
  by simp

lemma slotHandled_option:
  "(m = None \<Longrightarrow> slotHandled s x) \<Longrightarrow> (\<And>a. m = Some a \<Longrightarrow> slotHandled s (f a))
     \<Longrightarrow> slotHandled s (case m of None \<Rightarrow> x | Some a \<Rightarrow> f a)"
  by (cases m) simp_all

lemma slotHandled_reply: "slotHandled s (Inr (completeReply r x s))"
  by (simp add: slotHandled_still)

lemma handleMutation_slot: "slotHandled s (handleMutation oper request input r s)"
proof -
  have mutation: "slotHandled s (case m of Rejected e \<Rightarrow> Inl e | Refused x \<Rightarrow> Inr (completeReply r x s)
    | Accepted desired metadata \<Rightarrow> Inr (acceptMutation oper request desired metadata r s))" for m
    by (cases m) (simp_all add: slotHandled_throw slotHandled_still)
  show ?thesis
    unfolding handleMutation_def Let_def
    by (intro slotHandled_if slotHandled_option slotHandled_reply mutation)
qed

lemma handleCapture_slot: "slotHandled s (handleCapture now request input r s)"
proof -
  obtain b host where h: "ReserveCapture (controlHost s) = (b, host)"
    by (cases "ReserveCapture (controlHost s)")
  have taken: "\<not> hs_capture_reserved (controlHost s)" "host = (controlHost s)\<lparr>hs_capture_reserved := True\<rparr>" if b
    using h that by (auto simp: ReserveCapture_def split: if_splits)
  have arm: "takesSlot s (u\<lparr>captureSlotHeld := True, captureReply := Some r, captureRequestID := i,
      captureDeadline := d\<rparr>)" if b and "hostKey u = hostKey (s\<lparr>controlHost := host\<rparr>)" for u i d
    using that taken by (simp add: takesSlot_def hostKey_def)
  show ?thesis
    unfolding handleCapture_def Let_def h prod.case
    by (intro slotHandled_if slotHandled_option slotHandled_throw; cases b;
        simp add: slotHandled_still slotHandled_def slotStep_def arm)
qed

lemma HandleControlRequest_slot:
  "slotHandled s (HandleControlRequest master now oper request input r s)"
proof -
  have receipt: "slotHandled s (Inr (handleReceipt i r s))" for i
    by (rule slotHandled_still) (simp add: handleReceipt_def split: option.split)
  have observe: "slotHandled s (handleObserve master sq request r s)" for sq
    unfolding handleObserve_def
    by (rule slotHandled_option [OF slotHandled_throw], rule slotHandled_still) (simp split: option.split)
  show ?thesis
    unfolding HandleControlRequest_def Let_def
    by (intro slotHandled_if slotHandled_option slotHandled_throw receipt observe
        handleMutation_slot handleCapture_slot) (rule slotHandled_still, simp)+
qed

lemma givesSlot_key:
  "givesSlot s t \<Longrightarrow> hostKey s = hostKey s' \<Longrightarrow> givesSlot s' t"
  by (auto simp: givesSlot_def hostKey_def)

lemma answerCapture_slot:
  assumes "captureReply s \<noteq> None"
  shows "givesSlot s (answerCapture printJson i r response s)"
proof -
  obtain x stage e u where u: "u = completeReply r x (snd (RememberReceipt (captureRequestID s) ''capture''
      stage e (s\<lparr>captureReply := None\<rparr>)))"
    "answerCapture printJson i r response s
       = u\<lparr>controlHost := ReleaseCapture (controlHost u), captureSlotHeld := False\<rparr>"
    using answerCapture_form [of printJson i r response s] by (auto simp: Let_def)
  have "hostKey u = hostKey (s\<lparr>captureReply := None\<rparr>)" by (simp add: u(1))
  with assms show ?thesis by (simp add: givesSlot_def hostKey_def u(2) ReleaseCapture_def)
qed

interpretation hq: reply_view hostKey
  by unfold_locales simp_all

lemma flushPending_host: "hostKey (flushPending master now cancelled locked s) = hostKey s"
proof -
  have "hostKey (completePending master p u) = hostKey u" for p and u :: "'a ctl_scheme"
    using completePending_form [of master p u] by auto
  then show ?thesis by (simp add: flushPending_def failPending_def split: option.split)
qed

lemma FlushControl_slot: "slotStep s (FlushControl printJson i master now cancelled locked s)"
proof -
  obtain s1 where s1: "s1 = flushPending master now cancelled locked s" by simp
  have k1: "hostKey s1 = hostKey s" using flushPending_host by (simp add: s1)
  show ?thesis
  proof (cases "captureReply s1")
    case None
    then show ?thesis using k1 by (simp add: slotStep_def hq.FlushControl s1 [symmetric] Let_def)
  next
    case (Some r)
    obtain x v where t: "takeSnapshot (cancelled r \<or> now \<ge> captureDeadline s1) s1 = (x, v)"
      by (cases "takeSnapshot (cancelled r \<or> now \<ge> captureDeadline s1) s1")
    have v: "hostKey v = hostKey s"
      using hostKey_steps(4) [of "cancelled r \<or> now \<ge> captureDeadline s1" s1, unfolded t] k1 by simp
    have r: "captureReply v \<noteq> None" using takeSnapshot_control(4) [OF t] Some by simp
    note u = hq.FlushControl [of printJson i master now cancelled locked s]
    show ?thesis
    proof (cases x)
      case None
      then show ?thesis using v Some t
        by (simp add: slotStep_def u s1 [symmetric] Let_def FlushCapture_def)
    next
      case (Some response)
      then have "hostKey (FlushControl printJson i master now cancelled locked s)
          = hostKey (answerCapture printJson i r response v)"
        using \<open>captureReply s1 = Some r\<close> t by (simp add: u s1 [symmetric] Let_def FlushCapture_def)
      with givesSlot_key [OF answerCapture_slot [OF r] v]
      show ?thesis by (auto simp: slotStep_def givesSlot_def hostKey_def)
    qed
  qed
qed

section \<open>The invariant of the process\<close>

definition cameraOk :: "nat \<Rightarrow> plugin \<Rightarrow> bool" where
  "cameraOk i s \<longleftrightarrow> pluginObject s = i \<and> (captureReply s \<noteq> None \<longrightarrow> captureSlotHeld s)
     \<and> (captureSlotHeld s \<or> controlRegistered s \<longrightarrow> controlWakeHost s)
     \<and> (stopping s \<longrightarrow> \<not> controlRegistered s \<and> captureReply s = None)"

definition hostOk :: "process \<Rightarrow> nat host option \<Rightarrow> bool" where
  "hostOk w m \<longleftrightarrow>
     (case m of
        None \<Rightarrow> \<forall>i s. camera w i = Some s \<longrightarrow> \<not> controlWakeHost s
      | Some host \<Rightarrow> hostInv host
          \<and> (\<forall>j i. roster host j = Some i
               \<longleftrightarrow> (\<exists>s. camera w i = Some s \<and> controlRegistered s \<and> sourceID s = j))
          \<and> (hs_capture_reserved host \<longleftrightarrow> (\<exists>i s. camera w i = Some s \<and> captureSlotHeld s)))"

definition processOk :: "process \<Rightarrow> bool" where
  "processOk w \<longleftrightarrow> (\<forall>i s. camera w i = Some s \<longrightarrow> cameraOk i s) \<and> hostOk w (pr_host w)
     \<and> (\<forall>i j s t. camera w i = Some s \<and> camera w j = Some t \<and> captureSlotHeld s \<and> captureSlotHeld t \<longrightarrow> i = j)"

lemma hostInv_reserved [simp]: "hostInv (h\<lparr>hs_capture_reserved := b\<rparr>) = hostInv h"
  by (simp add: hostInv_def)

lemma roster_reserved [simp]: "roster (h\<lparr>hs_capture_reserved := b\<rparr>) = roster h"
  by (simp add: roster_def fun_eq_iff)

lemma atHost_fields [simp]:
  "hostKey (atHost w s) = (fst (hostKey s), (case pr_host w of None \<Rightarrow> controlHost s | Some h \<Rightarrow> h),
     captureSlotHeld s, captureReply s = None)"
  by (simp add: atHost_def hostKey_def split: option.split)

lemma processOkD:
  assumes "processOk w" and "camera w i = Some s"
  shows "cameraOk i s" "pr_host w = None \<Longrightarrow> \<not> controlWakeHost s"
    "pr_host w = Some h \<Longrightarrow> hostInv h"
    "pr_host w = Some h \<Longrightarrow> roster h j = Some i \<longleftrightarrow> controlRegistered s \<and> sourceID s = j"
    "pr_host w = Some h \<Longrightarrow> captureSlotHeld s \<Longrightarrow> hs_capture_reserved h"
    "captureSlotHeld s \<Longrightarrow> camera w k = Some t \<Longrightarrow> captureSlotHeld t \<Longrightarrow> k = i"
  using assms by (auto simp: processOk_def hostOk_def)

text \<open>
  A camera changes together with the host: only its own entry of the table may, and it keeps, takes or
  gives the slot.
\<close>

lemma putCamera_keeps:
  assumes ok: "processOk w" and cam: "camera w i = Some s" and host: "pr_host w = Some h"
    and new: "cameraOk i t" "hostInv (controlHost t)"
    and entry: "\<And>k j. roster (controlHost t) k = Some j
      \<longleftrightarrow> (if j = i then controlRegistered t \<and> sourceID t = k else roster h k = Some j)"
    and slot: "captureSlotHeld t = captureSlotHeld s \<and> hs_capture_reserved (controlHost t) = hs_capture_reserved h
      \<or> \<not> hs_capture_reserved h \<and> hs_capture_reserved (controlHost t) \<and> captureSlotHeld t
      \<or> captureSlotHeld s \<and> \<not> hs_capture_reserved (controlHost t) \<and> \<not> captureSlotHeld t"
  shows "processOk (putCamera i t w)"
proof -
  have table: "roster h k = Some j \<longleftrightarrow> (\<exists>u. camera w j = Some u \<and> controlRegistered u \<and> sourceID u = k)" for j k
    using ok host by (simp add: processOk_def hostOk_def)
  have held: "hs_capture_reserved h \<longleftrightarrow> (\<exists>j u. camera w j = Some u \<and> captureSlotHeld u)"
    using ok host by (simp add: processOk_def hostOk_def)
  have one: "j = k" if "camera w j = Some u" "camera w k = Some v" "captureSlotHeld u" "captureSlotHeld v" for j k u v
    using ok that by (auto simp: processOk_def)
  have "roster (controlHost t) k = Some j
      \<longleftrightarrow> (\<exists>u. camera (putCamera i t w) j = Some u \<and> controlRegistered u \<and> sourceID u = k)" for j k
    using table [of k j] cam by (auto simp: entry)
  moreover have "hs_capture_reserved (controlHost t)
      \<longleftrightarrow> (\<exists>j u. camera (putCamera i t w) j = Some u \<and> captureSlotHeld u)"
  proof -
    obtain others where others: "others = (\<exists>j u. j \<noteq> i \<and> camera w j = Some u \<and> captureSlotHeld u)" by simp
    have "hs_capture_reserved h \<longleftrightarrow> captureSlotHeld s \<or> others" using held cam others by (metis option.inject)
    moreover have "\<not> (captureSlotHeld s \<and> others)" using one cam others by blast
    moreover have "(\<exists>j u. camera (putCamera i t w) j = Some u \<and> captureSlotHeld u) \<longleftrightarrow> captureSlotHeld t \<or> others"
      using cam others by (metis camera_put option.inject)
    ultimately show ?thesis using slot by blast
  qed
  moreover have "\<forall>j k u v. camera (putCamera i t w) j = Some u \<and> camera (putCamera i t w) k = Some v
      \<and> captureSlotHeld u \<and> captureSlotHeld v \<longrightarrow> j = k"
    using slot held cam one by (auto split: if_splits)
  moreover have "\<forall>j u. camera (putCamera i t w) j = Some u \<longrightarrow> cameraOk j u"
    using ok cam new(1) by (auto simp: processOk_def)
  ultimately show ?thesis using host new(2) unfolding processOk_def by (simp add: hostOk_def)
qed

text \<open>A step of a camera that is served, or one that leaves the key alone.\<close>

lemma putCamera_ok:
  assumes ok: "processOk w" and cam: "camera w i = Some s"
    and step: "hostKey t = hostKey (atHost w s) \<or> controlRegistered s \<and> slotStep (atHost w s) t"
  shows "processOk (putCamera i t w)"
proof (cases "pr_host w")
  case None
  note d = processOkD(1,2) [OF ok cam]
  have "hostKey t = hostKey s" using step d(2) [OF None] d(1) None
    by (auto simp: cameraOk_def atHost_def)
  then have t: "cameraOk i t" "\<not> controlWakeHost t" "\<not> captureSlotHeld t"
    using d None by (auto simp: cameraOk_def hostKey_def)
  show ?thesis
    using ok cam None t unfolding processOk_def hostOk_def by (auto split: if_splits)
next
  case (Some h)
  note d = processOkD [OF ok cam]
  have at: "hostKey (atHost w s) = (fst (hostKey s), h, captureSlotHeld s, captureReply s = None)"
    "controlHost (atHost w s) = h" "captureReply (atHost w s) = captureReply s"
    by (simp_all add: Some atHost_def hostKey_def)
  have same: "fst (hostKey t) = fst (hostKey s)"
    using step by (auto simp: slotStep_def takesSlot_def givesSlot_def at)
  then have fields: "sourceID t = sourceID s" "controlRegistered t = controlRegistered s"
    "pluginObject t = pluginObject s" "controlWakeHost t = controlWakeHost s" "stopping t = stopping s"
    by (simp_all add: hostKey_def)
  have still: "hostKey t = hostKey (atHost w s) \<Longrightarrow> controlHost t = h \<and> captureSlotHeld t = captureSlotHeld s
      \<and> (captureReply t = None \<longleftrightarrow> captureReply s = None)"
    unfolding at(1) by (simp add: hostKey_def)
  have entry: "roster g k = Some j \<longleftrightarrow> (if j = i then controlRegistered t \<and> sourceID t = k else roster h k = Some j)"
    if "roster g = roster h" for g k j
    using that d(4) [OF Some] fields by simp
  consider "controlHost t = h" "captureSlotHeld t = captureSlotHeld s" "captureReply t = None \<longleftrightarrow> captureReply s = None"
    | "controlRegistered s" "\<not> hs_capture_reserved h" "controlHost t = h\<lparr>hs_capture_reserved := True\<rparr>"
      "captureSlotHeld t"
    | "controlRegistered s" "captureReply s \<noteq> None" "controlHost t = h\<lparr>hs_capture_reserved := False\<rparr>"
      "\<not> captureSlotHeld t" "captureReply t = None"
    using step still by (auto simp: slotStep_def takesSlot_def givesSlot_def at(2,3))
  then show ?thesis
  proof cases
    case 1
    then show ?thesis using d(1) d(3) [OF Some] fields
      by (intro putCamera_keeps [OF ok cam Some] entry) (auto simp: cameraOk_def)
  next
    case 2
    then show ?thesis using d(1) d(3) [OF Some] fields
      by (intro putCamera_keeps [OF ok cam Some] entry) (auto simp: cameraOk_def)
  next
    case 3
    then show ?thesis using d(1) d(3) [OF Some] fields
      by (intro putCamera_keeps [OF ok cam Some] entry) (auto simp: cameraOk_def)
  qed
qed

lemma onCamera_ok:
  assumes "processOk w" and "\<And>s. camera w i = Some s \<Longrightarrow>
    hostKey (f (atHost w s)) = hostKey (atHost w s) \<or> controlRegistered s \<and> slotStep (atHost w s) (f (atHost w s))"
  shows "processOk (onCamera i f w)"
  using putCamera_ok [OF assms(1)] assms by (auto simp: onCamera_def split: option.split)

section \<open>The steps keep the invariant\<close>

lemma camera_reply [simp]: "camera (w\<lparr>pr_replies := rs\<rparr>) i = camera w i"
  by (simp add: camera_def)

lemma processOk_replies [simp]: "processOk (w\<lparr>pr_replies := rs\<rparr>) = processOk w"
  by (cases "pr_host w") (simp_all add: processOk_def hostOk_def)

lemma answerException_replies:
  "\<exists>x. answerException (\<lambda>response v. v\<lparr>pr_replies := pr_replies v @ [(reply, response)]\<rparr>) e w
     = w\<lparr>pr_replies := pr_replies w @ [(reply, x)]\<rparr>"
  by (cases e) (auto simp: answerException_def)

text \<open>
  A request is answered by the host, or it is handed to the camera that is registered under the
  identifier in its target, and that camera's reply slots account for it.
\<close>

lemma serveProcess_cases:
  assumes ok: "processOk w" and host: "pr_host w = Some h"
  obtains x where "serveProcess parse master now q r w = w\<lparr>pr_replies := pr_replies w @ [(r, x)]\<rparr>"
  | i s operation input t where "camera w i = Some s" "controlRegistered s"
      "rq_target q = sourcesPrefix @ sourceID s @ CHR ''/'' # operation"
      "HandleControlRequest master now operation q input r (atHost w s) = Inr t"
      "serveProcess parse master now q r w = putCamera i t w"
proof (cases "route parse q h")
  case (Respond x)
  then show ?thesis using that(1) [of x] by (simp add: serveProcess_def Dispatch_def host)
next
  case (Throw e)
  then show ?thesis using that(1) answerException_replies [of r e w]
    by (auto simp: serveProcess_def Dispatch_def host)
next
  case (Handle i operation input)
  from Handle obtain j where j: "rq_target q = sourcesPrefix @ j @ CHR ''/'' # operation" "roster h j = Some i"
    using route_handles [of parse q h i operation input] by blast
  then obtain s where s: "camera w i = Some s" "controlRegistered s" "sourceID s = j"
    using ok host by (auto simp: processOk_def hostOk_def)
  show ?thesis
  proof (cases "HandleControlRequest master now operation q input r (atHost w s)")
    case (Inl e)
    then show ?thesis using that(1) answerException_replies [of r e w] Handle s(1)
      by (auto simp: serveProcess_def Dispatch_def host)
  next
    case (Inr t)
    then show ?thesis using that(2) [OF s(1,2) _ Inr] j(1) s(3) Handle s(1)
      by (simp add: serveProcess_def Dispatch_def host)
  qed
qed

lemma serveProcess_ok:
  assumes "processOk w"
  shows "processOk (serveProcess parse master now q r w)"
proof (cases "pr_host w")
  case None
  then show ?thesis using assms by (simp add: serveProcess_def)
next
  case (Some h)
  from assms Some show ?thesis
  proof (cases rule: serveProcess_cases [of w h parse master now q r])
    case (2 i s operation input t)
    have "slotStep (atHost w s) t"
      using HandleControlRequest_slot [of "atHost w s" master now operation q input r] 2(4)
      by (simp add: slotHandled_def)
    then show ?thesis using putCamera_ok [OF assms 2(1)] 2(2,5) by simp
  qed (use assms in simp)
qed

text \<open>The sources that \<open>FlushSources\<close> goes through stay registered.\<close>

definition registeredHere :: "process \<Rightarrow> nat \<Rightarrow> bool" where
  "registeredHere w i \<longleftrightarrow> (\<exists>s. camera w i = Some s \<and> controlRegistered s)"

lemma flushCamera_ok:
  assumes "processOk w" and "registeredHere w i"
  shows "processOk (onCamera i (FlushControl printJson b master now cancelled locked) w)
    \<and> (\<forall>j. registeredHere (onCamera i (FlushControl printJson b master now cancelled locked) w) j
         \<longleftrightarrow> registeredHere w j)"
proof -
  from assms(2) obtain s where s: "camera w i = Some s" "controlRegistered s"
    by (auto simp: registeredHere_def)
  obtain t where t: "t = FlushControl printJson b master now cancelled locked (atHost w s)" by simp
  have step: "slotStep (atHost w s) t" unfolding t by (rule FlushControl_slot)
  then have "fst (hostKey t) = fst (hostKey (atHost w s))"
    by (auto simp: slotStep_def takesSlot_def givesSlot_def)
  then have "controlRegistered t" using s(2) by (simp add: hostKey_def atHost_def split: option.splits)
  then show ?thesis
    using putCamera_ok [OF assms(1) s(1), of t] step s
    by (auto simp: onCamera_def registeredHere_def t [symmetric])
qed

lemma FlushSources_ok:
  assumes "processOk w" and "\<forall>source \<in> set sources. \<forall>i. src_handler source = Some i \<longrightarrow> registeredHere w i"
  shows "processOk (fold (\<lambda>source t. case src_handler source of None \<Rightarrow> t
    | Some i \<Rightarrow> onCamera i (FlushControl printJson b master now cancelled locked) t) sources w)"
  using assms
proof (induction sources arbitrary: w)
  case (Cons source sources)
  show ?case
  proof (cases "src_handler source")
    case None
    with Cons show ?thesis by simp
  next
    case (Some i)
    with Cons.prems have "registeredHere w i" by simp
    from flushCamera_ok [OF Cons.prems(1) this, of printJson b master now cancelled locked] Cons.prems(2)
    show ?thesis using Some by (simp add: Cons.IH)
  qed
qed simp

lemma host_sources_registered:
  assumes "processOk w" and "pr_host w = Some h" and "source \<in> set (hs_sources h)" and "src_handler source = Some i"
  shows "registeredHere w i"
proof -
  have inv: "hostInv h" using assms(1,2) by (simp add: processOk_def hostOk_def)
  with assms(3,4) have named: "src_id source \<noteq> []"
    by (cases "src_id source = []") (auto simp: hostInv_def list_all_iff freeSource_def)
  have "(src_id source, the (src_handler source)) \<in> set (entries (hs_sources h))"
    unfolding entries_def set_map by (rule imageI) (simp add: assms(3) named)
  then have "(src_id source, i) \<in> set (entries (hs_sources h))" by (simp add: assms(4))
  from map_of_is_SomeI [OF hostInv_distinct [OF inv] this] have "roster h (src_id source) = Some i"
    using hostInv_roster [OF inv] by simp
  then show ?thesis using assms(1,2) by (auto simp: processOk_def hostOk_def registeredHere_def)
qed

lemma flushProcess_ok:
  assumes "processOk w"
  shows "processOk (flushProcess printJson b master now cancelled locked w)"
proof (cases "pr_host w")
  case None
  then show ?thesis using assms by (simp add: flushProcess_def)
next
  case (Some h)
  have "\<forall>source \<in> set (hs_sources h). \<forall>i. src_handler source = Some i \<longrightarrow> registeredHere w i"
    using host_sources_registered [OF assms Some] by blast
  from FlushSources_ok [OF assms this] show ?thesis by (simp add: flushProcess_def Some FlushSources_def)
qed

section \<open>Frames\<close>

text \<open>
  The render thread, and whatever the other threads of a camera do, between the executor's steps: no step
  writes what the host depends on.
\<close>

inductive camera_turn :: "plugin \<Rightarrow> plugin \<Rightarrow> bool" where
  post_render: "camera_turn s (OnPostRender c p x y s)"
| target_update: "keeps (paired hostKey) (fa_between fa) \<Longrightarrow> keeps (paired hostKey) (fa_enqueue fa) \<Longrightarrow>
    \<forall>i. keeps (paired hostKey) (env i) \<Longrightarrow>
    camera_turn s (postRenderTargetUpdate cam
      (\<lambda>u. snd (CaptureSnapshot cam gl mp blit ms env u)) fa s)"
| other_thread: "hostKey s' = hostKey s \<Longrightarrow> camera_turn s s'"

lemma camera_turn_key:
  assumes "camera_turn s s'"
  shows "hostKey s' = hostKey s"
  using assms
proof cases
  case (post_render c p x y)
  then show ?thesis using hk.OnPostRender_turned [of s c p x y] by (simp add: turned_def)
next
  case (target_update fa env cam gl mp blit ms)
  have "keeps (paired hostKey) (\<lambda>u. snd (CaptureSnapshot cam gl mp blit ms env u))"
    unfolding keeps_def [of _ "\<lambda>u. snd (CaptureSnapshot cam gl mp blit ms env u)"]
    using hk.pair.CaptureSnapshot_view [OF target_update(4)] by blast
  with target_update show ?thesis
    using hk.postRenderTargetUpdate_turned [of fa "\<lambda>u. snd (CaptureSnapshot cam gl mp blit ms env u)" s cam]
    by (simp add: turned_def)
qed

section \<open>Loading and removing a camera\<close>

text \<open>What a plugin that is loaded has become for the host.\<close>

definition linkKey :: "'z ctl_scheme \<Rightarrow> (nat \<times> bool \<times> nat option \<times> bool) \<times> bool \<times> bool \<times> string \<times> nat host" where
  "linkKey s = ((pluginObject s, captureSlotHeld s, captureReply s, stopping s), controlWakeHost s,
     controlRegistered s, sourceID s, controlHost s)"

definition idleLink :: "'z ctl_scheme \<Rightarrow> bool" where
  "idleLink s \<longleftrightarrow> captureReply s = None \<and> \<not> controlWakeHost s \<and> \<not> controlRegistered s"

definition linked :: "control_exn + nat host \<Rightarrow> 'z ctl_scheme \<Rightarrow> 'z ctl_scheme \<Rightarrow> bool" where
  "linked acquired s t \<longleftrightarrow> fst (linkKey t) = fst (linkKey s) \<and>
     (if controlWakeHost t
      then \<exists>host. acquired = Inr host
        \<and> (if controlRegistered t then Register (sourceID t) (pluginObject t) host = Inr (controlHost t)
            else controlHost t = host)
      else \<not> controlRegistered t)"

lemma linked_key: "linkKey t' = linkKey t \<Longrightarrow> linked acquired s t' = linked acquired s t"
  by (simp add: linked_def linkKey_def)

lemma linkKey_stops [simp]:
  "linkKey (complain m s) = linkKey s" "linkKey (closeSocket s) = linkKey s"
  "linkKey (stopPacer s) = linkKey s" "linkKey (stopEncoder s) = linkKey s"
  by (simp_all add: linkKey_def complain_def closeSocket_def stopPacer_def stopEncoder_def StopRTPPacer_def
      StopSnapshotEncoder_def)

lemma linked_stops [simp]:
  "linked a s (complain m t) = linked a s t" "linked a s (closeSocket t) = linked a s t"
  "linked a s (stopPacer t) = linked a s t" "linked a s (stopEncoder t) = linked a s t"
  by (rule linked_key, simp)+

definition linkStart :: "'z ctl_scheme \<Rightarrow> (nat \<times> bool \<times> nat option \<times> bool) \<times> bool \<times> bool" where
  "linkStart s = (fst (linkKey s), controlWakeHost s, controlRegistered s)"

lemma linkStart_key: "linkKey t = linkKey s \<Longrightarrow> linkStart t = linkStart s"
  by (simp add: linkStart_def linkKey_def)

lemma linkStart_steps [simp]:
  "linkStart (readIdentity sdf s) = linkStart s" "linkStart (readTransport sdf port s) = linkStart s"
  "linkStart (selectSnapshotJpeg ld lib turbo policy s) = linkStart s" "linkStart (readROS sdf s) = linkStart s"
  "linkStart (s\<lparr>sensorUpdateRate := r\<rparr>) = linkStart s" "linkStart (s\<lparr>rtpSocket := n\<rparr>) = linkStart s"
  "linkStart (s\<lparr>rtpDestination := d\<rparr>) = linkStart s"
  "linkStart (snd (startPacer ok s)) = linkStart s" "linkStart (snd (startEncoder ok s)) = linkStart s"
  "linkStart (snd (startReporter ok s)) = linkStart s"
  "linkStart (beforeControl la cs s) = linkStart s"
  "linkStart (complain m s) = linkStart s" "linkStart (closeSocket s) = linkStart s"
  "linkStart (stopPacer s) = linkStart s" "linkStart (stopEncoder s) = linkStart s"
  by (simp_all add: linkStart_def linkKey_def readIdentity_def readTransport_def selectSnapshotJpeg_def readROS_def
      startPacer_def startEncoder_def startReporter_def StartRTPPacer_def StartSnapshotEncoder_def
      StartDiagnosticReporter_def beforeControl_def StartROSPublisher_def initStream_def complain_def
      closeSocket_def stopPacer_def stopEncoder_def StopRTPPacer_def StopSnapshotEncoder_def Let_def
      split: prod.split)

lemma linked_start:
  assumes "idleLink s" and "linkStart t = linkStart s"
  shows "linked acquired s t"
  using assms by (auto simp: linked_def linkStart_def idleLink_def)

lemma StopControlServer_start:
  assumes "idleLink s"
  shows "linkStart (StopControlServer (t :: 'z plugin_scheme)) = linkStart s \<longleftrightarrow>
    fst (linkKey (t\<lparr>captureReply := None\<rparr>)) = fst (linkKey s) \<and> \<not> controlWakeHost t"
  using assms sk.StopControlServer [of t]
  by (auto simp: linkStart_def linkKey_def idleLink_def sensorKey_def StopControlServer_slots)

lemma StartControlServer_linked:
  assumes "idleLink s" and "linkStart b = linkStart s"
  shows "linked acquired s (snd (StartControlServer acquired b))"
  using assms by (auto simp: linked_def linkStart_def linkKey_def idleLink_def StartControlServer_def Let_def
      split: sum.split)

lemma loadControl_linked:
  assumes "idleLink s" and "linkStart b = linkStart s"
  shows "linked (la_host la) s (loadControl la cs b)"
proof -
  obtain m where m: "m = ''xgc_media_camera XRPC startup failed''" by simp
  have "linkStart (beforeControl la cs b) = linkStart s" by (simp add: assms(2))
  from StartControlServer_linked [OF assms(1) this, of "la_host la"] show ?thesis
    unfolding loadControl_cases m [symmetric] by (auto split: prod.split bool.split)
qed

lemma linked_if: "linked a s x \<Longrightarrow> linked a s y \<Longrightarrow> linked a s (if b then x else y)"
  by simp

lemma linked_service:
  assumes "\<And>t. fst p = False \<Longrightarrow> t = snd p \<Longrightarrow> linked a s (f t)"
    and "\<And>t. fst p = True \<Longrightarrow> t = snd p \<Longrightarrow> linked a s (g t)"
  shows "linked a s (case p of (False, t) \<Rightarrow> f t | (True, t) \<Rightarrow> g t)"
  using assms by (auto split: prod.split bool.split)

lemma loadServices_linked:
  fixes s :: "'z plugin_scheme"
  assumes "idleLink s" and "linkStart b = linkStart s"
  shows "linked (la_host la) s (loadServices la cs b)"
proof -
  have idle: "linkStart (StopControlServer t) = linkStart s" if "linkStart t = linkStart s" for t :: "'z plugin_scheme"
    using that assms(1) by (simp add: StopControlServer_start) (auto simp: linkStart_def linkKey_def idleLink_def)
  obtain m1 m2 where m: "m1 = ''xgc_media_camera could not resolve loopback RTP target''"
    "m2 = ''xgc_media_camera could not create RTP socket: ''" by simp
  show ?thesis
    unfolding loadServices_def Let_def m [symmetric]
    by (intro linked_if linked_service loadControl_linked assms(1)) (simp_all add: linked_start assms idle)
qed

lemma linked_option:
  "linked a s x \<Longrightarrow> (\<And>c. linked a s (f c)) \<Longrightarrow> linked a s (case m of None \<Rightarrow> x | Some c \<Rightarrow> f c)"
  by (simp split: option.split)

lemma Load_linked:
  assumes "idleLink s"
  shows "linked (la_host la) s (Load la parent sdf s)"
proof -
  obtain m1 m2 m3 m4 m5 m6 m7 where m: "m1 = ''xgc_media_camera requires a Gazebo CameraSensor''"
    "m2 = ''xgc_media_camera requires the allocated RTP port''"
    "m3 = ''xgc_media_camera snapshotJpegBackend must be auto, hardware, or cpu''"
    "m4 = ''xgc_media_camera ''" "m5 = '': ''"
    "m6 = ''xgc_media_camera has invalid private media source configuration''"
    "m7 = ''xgc_media_camera requires bitrate <= maxBitrate <= pacingBitrate''" by simp
  show ?thesis
    unfolding Load_def Let_def m [symmetric]
    by (intro linked_if linked_option loadServices_linked linked_start assms) simp_all
qed

text \<open>The host that a plugin acquires serves the cameras as they are.\<close>

lemma newHost_ok:
  assumes "newHost server fresh path target_id instance_id = Inr host"
  shows "hostInv host \<and> roster host = Map.empty \<and> \<not> hs_capture_reserved host"
proof -
  have host: "hs_sources host = replicate kSources freeSource" "\<not> hs_capture_reserved host"
    using assms by (auto simp: newHost_def split: option.splits)
  then have inv: "hostInv host" by (simp add: hostInv_def freeSource_def list_all_iff)
  have "entries (hs_sources host) = []" by (simp add: host(1) entries_def freeSource_def)
  then show ?thesis using hostInv_roster [OF inv] inv host(2) by simp
qed

lemma Acquire_ok:
  assumes "processOk w" and "Acquire server fresh path target_id instance_id (pr_host w) = Inr host"
  shows "hostOk w (Some host)"
proof (cases "pr_host w")
  case (Some h)
  then have "host = h" using assms(2) by (auto simp: Acquire_def split: if_splits)
  then show ?thesis using assms(1) Some by (simp add: processOk_def)
next
  case None
  then have "newHost server fresh path target_id instance_id = Inr host"
    using assms(2) by (auto simp: Acquire_def split: if_splits)
  note new = newHost_ok [OF this]
  have "\<not> controlRegistered s \<and> \<not> captureSlotHeld s" if "camera w i = Some s" for i s
    using processOkD(1,2) [OF assms(1) that] None by (auto simp: cameraOk_def)
  then show ?thesis using new by (auto simp: hostOk_def)
qed

lemma camera_append:
  "camera (w\<lparr>pr_cameras := pr_cameras w @ [Some t], pr_host := m\<rparr>) i
     = (if i = length (pr_cameras w) then Some t else camera w i)"
  by (auto simp: camera_def nth_append)

lemma camera_bound: "camera w i = Some s \<Longrightarrow> i < length (pr_cameras w)"
  by (simp add: camera_def split: if_splits)

lemma Register_reserved: "Register i h host = Inr host' \<Longrightarrow> hs_capture_reserved host' = hs_capture_reserved host"
  by (auto simp: Register_def split: if_splits option.splits)

lemma addCamera_host:
  assumes host: "hostOk w (Some host)" and t: "pluginObject t = n" "\<not> captureSlotHeld t"
    and link: "if controlRegistered t then Register (sourceID t) (pluginObject t) host = Inr (controlHost t)
      else controlHost t = host"
    and fresh: "camera w n = None" and cam: "\<And>i. camera v i = (if i = n then Some t else camera w i)"
  shows "hostOk v (Some (controlHost t))"
proof -
  have inv: "hostInv host"
    and table: "roster host k = Some j \<longleftrightarrow> (\<exists>s. camera w j = Some s \<and> controlRegistered s \<and> sourceID s = k)" for j k
    using host by (simp_all add: hostOk_def)
  have same: "camera v i = Some s \<and> captureSlotHeld s \<longleftrightarrow> camera w i = Some s \<and> captureSlotHeld s" for i s
    using t(2) fresh by (auto simp: cam)
  have held: "hs_capture_reserved host \<longleftrightarrow> (\<exists>i s. camera v i = Some s \<and> captureSlotHeld s)"
    using host by (simp add: hostOk_def same)
  have "hostInv (controlHost t) \<and> hs_capture_reserved (controlHost t) = hs_capture_reserved host
    \<and> (\<forall>k j. roster (controlHost t) k = Some j
          \<longleftrightarrow> (\<exists>s. camera v j = Some s \<and> controlRegistered s \<and> sourceID s = k))"
  proof (cases "controlRegistered t")
    case False
    then have "controlHost t = host" using link by simp
    then show ?thesis using False inv table fresh by (auto simp: cam)
  next
    case reg: True
    then have r: "Register (sourceID t) (pluginObject t) host = Inr (controlHost t)" using link by simp
    have "roster host (sourceID t) = None" using Register_ok [OF inv, of "sourceID t" "pluginObject t"] r by blast
    then have "roster (controlHost t) k = Some j
        \<longleftrightarrow> (\<exists>s. camera v j = Some s \<and> controlRegistered s \<and> sourceID s = k)" for j k
      using table [of k j] table [of "sourceID t" j] Register_Inr [OF inv r] reg t(1) fresh by (auto simp: cam)
    then show ?thesis using Register_Inr [OF inv r] Register_reserved [OF r] by blast
  qed
  with held show ?thesis by (simp add: hostOk_def)
qed

lemma addCamera_ok:
  assumes ok: "processOk w" and t: "pluginObject t = length (pr_cameras w)" "\<not> captureSlotHeld t"
      "captureReply t = None" "\<not> stopping t"
    and link: "if controlWakeHost t
      then \<exists>host. hostOk w (Some host)
        \<and> (if controlRegistered t then Register (sourceID t) (pluginObject t) host = Inr (controlHost t)
            else controlHost t = host)
      else \<not> controlRegistered t"
  shows "processOk (w\<lparr>pr_cameras := pr_cameras w @ [Some t],
    pr_host := (if controlWakeHost t then Some (controlHost t) else pr_host w)\<rparr>)"
proof -
  obtain v where v: "v = w\<lparr>pr_cameras := pr_cameras w @ [Some t],
    pr_host := (if controlWakeHost t then Some (controlHost t) else pr_host w)\<rparr>" by simp
  have cam: "camera v i = (if i = length (pr_cameras w) then Some t else camera w i)" for i
    unfolding v by (rule camera_append)
  have vhost: "pr_host v = (if controlWakeHost t then Some (controlHost t) else pr_host w)" by (simp add: v)
  have fresh: "camera w (length (pr_cameras w)) = None" by (simp add: camera_def)
  have cams: "cameraOk i s" if "camera v i = Some s" for i s
    using that ok t link by (auto simp: cam cameraOk_def processOk_def split: if_splits)
  have one: "i = j" if "camera v i = Some s" "camera v j = Some u" "captureSlotHeld s" "captureSlotHeld u" for i j s u
    using that ok t(2) by (auto simp: cam processOk_def split: if_splits)
  have host: "hostOk v (pr_host v)"
  proof (cases "controlWakeHost t")
    case True
    then obtain host where host: "hostOk w (Some host)"
      "if controlRegistered t then Register (sourceID t) (pluginObject t) host = Inr (controlHost t)
       else controlHost t = host" using link by auto
    have "hostOk v (Some (controlHost t))" by (rule addCamera_host [OF host(1) t(1,2) host(2) fresh cam])
    with True show ?thesis by (simp add: vhost)
  next
    case False
    then have "\<not> controlRegistered t" using link by simp
    then have same: "camera v i = Some s \<and> captureSlotHeld s \<longleftrightarrow> camera w i = Some s \<and> captureSlotHeld s"
      "camera v i = Some s \<and> controlRegistered s \<and> sourceID s = k
        \<longleftrightarrow> camera w i = Some s \<and> controlRegistered s \<and> sourceID s = k" for i s k
      using fresh t(2) by (auto simp: cam)
    have w: "hostOk w (pr_host w)" using ok by (simp add: processOk_def)
    show ?thesis
    proof (cases "pr_host w")
      case None
      with w False show ?thesis by (auto simp: hostOk_def vhost cam split: if_splits)
    qed (use False w in \<open>simp add: hostOk_def vhost same\<close>)
  qed
  show ?thesis unfolding v [symmetric] using cams host one by (auto simp: processOk_def)
qed

lemma loadCamera_ok:
  assumes "processOk w"
  shows "processOk (loadCamera gl la parent sdf server fresh w)"
proof -
  obtain s where s: "s = (newPlugin gl)\<lparr>pluginObject := length (pr_cameras w)\<rparr>" by simp
  obtain acquired where acquired: "acquired = Acquire server fresh (SDFValue (sdf_string sdf) ''controlEndpoint'' [])
            (SDFValue (sdf_string sdf) ''controlTargetId'' []) (SDFValue (sdf_string sdf) ''controlInstanceId'' [])
            (pr_host w)" by simp
  obtain t where t: "t = Load (la\<lparr>la_host := acquired\<rparr>) parent sdf s" by simp
  have "idleLink s" and new: "fst (linkKey s) = (length (pr_cameras w), False, None, False)"
    by (simp_all add: s idleLink_def linkKey_def newPlugin_def)
  from Load_linked [OF this(1), of "la\<lparr>la_host := acquired\<rparr>" parent sdf] have link: "linked acquired s t"
    by (simp add: t)
  then have "pluginObject t = length (pr_cameras w)" "\<not> captureSlotHeld t" "captureReply t = None" "\<not> stopping t"
    using new by (simp_all add: linked_def linkKey_def)
  moreover have "hostOk w (Some host)" if "acquired = Inr host" for host
    using Acquire_ok [OF assms] that by (simp add: acquired)
  ultimately have "processOk (w\<lparr>pr_cameras := pr_cameras w @ [Some t],
    pr_host := (if controlWakeHost t then Some (controlHost t) else pr_host w)\<rparr>)"
    using link unfolding linked_def by (intro addCamera_ok [OF assms]) (auto split: if_splits)
  then show ?thesis
    unfolding loadCamera_def Let_def acquired [symmetric] s [symmetric] t [symmetric] .
qed

lemma leaveCamera_ok:
  assumes "processOk w"
  shows "processOk (onCamera i leaveHost w)"
proof (cases "camera w i")
  case None
  then show ?thesis using assms by (simp add: onCamera_def)
next
  case cam: (Some s)
  note d = processOkD [OF assms cam]
  obtain t where t: "t = leaveHost (atHost w s)" by simp
  have at: "sourceID (atHost w s) = sourceID s" "pluginObject (atHost w s) = pluginObject s"
    "captureSlotHeld (atHost w s) = captureSlotHeld s" "controlWakeHost (atHost w s) = controlWakeHost s"
    "controlRegistered (atHost w s) = controlRegistered s"
    by (simp_all add: atHost_def split: option.split)
  note left = leaveHost_outcome [of "atHost w s", folded t, unfolded at]
  have tOk: "cameraOk i t" using d(1) left by (auto simp: cameraOk_def)
  have "processOk (putCamera i t w)"
  proof (cases "pr_host w")
    case None
    then show ?thesis
      using assms cam tOk d(1) d(2) [OF None] left
      unfolding processOk_def hostOk_def by (auto simp: cameraOk_def split: if_splits)
  next
    case (Some h)
    have h: "controlHost t = (if controlRegistered s then Unregister (sourceID s) h else h)"
      using left(11) by (simp add: atHost_def Some)
    have entry: "roster (controlHost t) k = Some j
        \<longleftrightarrow> (if j = i then controlRegistered t \<and> sourceID t = k else roster h k = Some j)" for j k
      using d(4) [OF Some, of k] d(4) [OF Some, of "sourceID s"] Unregister_inv [OF d(3) [OF Some], of "sourceID s"]
        left(9) h by auto
    show ?thesis
      using d(3) [OF Some] Unregister_inv [OF d(3) [OF Some], of "sourceID s"] h left(2)
      by (intro putCamera_keeps [OF assms cam Some tOk _ entry]) (auto simp: Unregister_def)
  qed
  then show ?thesis by (simp add: onCamera_def cam t)
qed

lemma camera_removed:
  "camera (w\<lparr>pr_cameras := (pr_cameras v)[i := None], pr_host := m\<rparr>) j = (if j = i then None else camera v j)"
  by (auto simp: camera_def nth_list_update)

lemma some_camera:
  "list_ex (\<lambda>c. case c of None \<Rightarrow> False | Some s \<Rightarrow> P s) (pr_cameras w) \<longleftrightarrow> (\<exists>i s. camera w i = Some s \<and> P s)"
proof -
  have "(case pr_cameras w ! i of None \<Rightarrow> False | Some s \<Rightarrow> P s) \<longleftrightarrow> (\<exists>s. camera w i = Some s \<and> P s)"
    if "i < length (pr_cameras w)" for i
    using that by (simp add: camera_def split: option.split)
  then show ?thesis unfolding list_ex_length using camera_bound by blast
qed

lemma removeCamera_host:
  assumes ok: "processOk w" and cam: "camera w i = Some s" and stopping: "stopping s"
    and h: "pr_host w = Some h" and vcam: "\<And>j. camera v j = (if j = i then None else camera w j)"
  shows "hostOk v (Some (controlHost (releaseServices (atHost w s))))"
proof -
  note d = processOkD [OF ok cam]
  have at: "controlHost (atHost w s) = h" "captureSlotHeld (atHost w s) = captureSlotHeld s"
    "controlWakeHost (atHost w s) = controlWakeHost s"
    by (simp_all add: atHost_def h)
  obtain g where g: "g = controlHost (releaseServices (atHost w s))" by simp
  note released = releaseServices_outcome [of "atHost w s", folded g, unfolded at]
  have "hostInv g" using d(3) [OF h] released(20) by (simp add: hostInv_def)
  moreover have "roster g k = Some m \<longleftrightarrow> (\<exists>x. camera v m = Some x \<and> controlRegistered x \<and> sourceID x = k)" for k m
    using ok d(1) stopping cam h released(2) by (auto simp: vcam processOk_def hostOk_def cameraOk_def)
  moreover have "hs_capture_reserved g \<longleftrightarrow> (\<exists>m x. camera v m = Some x \<and> captureSlotHeld x)"
  proof -
    have "hs_capture_reserved h \<longleftrightarrow> (\<exists>m x. camera w m = Some x \<and> captureSlotHeld x)"
      using ok h by (simp add: processOk_def hostOk_def)
    moreover have "captureSlotHeld s \<longrightarrow> controlWakeHost s" using d(1) by (simp add: cameraOk_def)
    moreover have "camera v m = Some x \<and> captureSlotHeld x \<longleftrightarrow> m \<noteq> i \<and> camera w m = Some x \<and> captureSlotHeld x" for m x
      by (simp add: vcam)
    then have "(\<exists>m x. camera v m = Some x \<and> captureSlotHeld x)
        \<longleftrightarrow> (\<exists>m x. camera w m = Some x \<and> captureSlotHeld x) \<and> \<not> captureSlotHeld s"
      using d(6) cam by (metis option.inject)
    ultimately show ?thesis using released(3) by blast
  qed
  ultimately show ?thesis by (simp add: hostOk_def g [symmetric])
qed

lemma removeCamera_ok:
  assumes ok: "processOk w" and cam: "camera w i = Some s" and stopping: "stopping s"
  shows "processOk (removeCamera i w)"
proof -
  obtain t where t: "t = releaseServices (atHost w s)" by simp
  obtain v where v: "v = removeCamera i w" by simp
  have form: "v = (putCamera i t w)\<lparr>pr_cameras := (pr_cameras (putCamera i t w))[i := None], pr_host := pr_host v\<rparr>"
    by (simp add: v removeCamera_def onCamera_def cam t Let_def)
  have vcam: "camera v j = (if j = i then None else camera w j)" for j
    by (subst form) (simp add: camera_removed cam)
  have vhost: "pr_host v = (if \<exists>j u. camera v j = Some u \<and> controlWakeHost u
      then map_option (\<lambda>h. controlHost t) (pr_host w) else None)"
    using some_camera [of controlWakeHost v]
    by (subst (asm) form) (simp add: v removeCamera_def onCamera_def cam t Let_def)
  have host: "hostOk v (pr_host v)"
  proof (cases "\<exists>j u. camera v j = Some u \<and> controlWakeHost u")
    case False
    then show ?thesis unfolding vhost by (auto simp: hostOk_def)
  next
    case True
    then obtain j u where u: "camera w j = Some u" "controlWakeHost u" by (auto simp: vcam split: if_splits)
    then obtain h where h: "pr_host w = Some h" using processOkD(2) [OF ok u(1)] by (cases "pr_host w") auto
    have "pr_host v = Some (controlHost t)" unfolding vhost using True h by simp
    with removeCamera_host [OF ok cam stopping h vcam] show ?thesis by (simp add: t)
  qed
  show ?thesis
    unfolding v [symmetric] using ok host by (auto simp: processOk_def vcam split: if_splits)
qed

section \<open>Every reachable process\<close>

text \<open>
  The steps: a camera is loaded, the executor serves a request or flushes the sources, a camera's
  threads run, a camera leaves the host, and a camera that has left is removed.
\<close>

inductive process_step :: "process \<Rightarrow> process \<Rightarrow> bool" where
  load: "process_step w (loadCamera gl la parent sdf server fresh w)"
| serve: "process_step w (serveProcess parse master now request reply w)"
| flush: "process_step w (flushProcess printJson identifier master now cancelled locked w)"
| turn: "camera w i = Some s \<Longrightarrow> camera_turn (atHost w s) t \<Longrightarrow> process_step w (putCamera i t w)"
| leave: "process_step w (onCamera i leaveHost w)"
| remove: "camera w i = Some s \<Longrightarrow> stopping s \<Longrightarrow> process_step w (removeCamera i w)"

lemma process_step_ok: "process_step w v \<Longrightarrow> processOk w \<Longrightarrow> processOk v"
proof (induction rule: process_step.induct)
  case (turn w i s t)
  then show ?case using camera_turn_key putCamera_ok by blast
qed (simp_all add: loadCamera_ok serveProcess_ok flushProcess_ok leaveCamera_ok removeCamera_ok)

lemma emptyProcess_ok: "processOk emptyProcess"
  by (simp add: processOk_def hostOk_def emptyProcess_def camera_def)

lemma process_reachable_ok: "process_step\<^sup>*\<^sup>* emptyProcess w \<Longrightarrow> processOk w"
  by (induction rule: rtranclp_induct) (simp_all add: emptyProcess_ok process_step_ok)

text \<open>
  C7: Whatever the cameras of a process do, in any order: the host calls exactly into the plugins that
  are alive and registered, each under its own identifier, and into none once its destructor runs; at most
  one camera holds the capture slot, the host's flag says whether one does, and only a camera
  that holds it owes a client an image. So the slot is never lost with a removed camera, and without a
  host there is nothing left to answer.
\<close>

theorem process_shares_host_safely:
  assumes "process_step\<^sup>*\<^sup>* emptyProcess w"
  shows "(case pr_host w of
        None \<Rightarrow> \<not> (\<exists>i s. camera w i = Some s \<and> (controlRegistered s \<or> captureSlotHeld s))
      | Some host \<Rightarrow>
          (\<forall>j i. roster host j = Some i \<longleftrightarrow> (\<exists>s. camera w i = Some s \<and> controlRegistered s \<and> sourceID s = j))
          \<and> (hs_capture_reserved host \<longleftrightarrow> (\<exists>i s. camera w i = Some s \<and> captureSlotHeld s)))
    \<and> (\<forall>i j s t. camera w i = Some s \<and> camera w j = Some t \<and> captureSlotHeld s \<and> captureSlotHeld t \<longrightarrow> i = j)
    \<and> (\<forall>i s. camera w i = Some s \<longrightarrow> pluginObject s = i \<and> (captureReply s \<noteq> None \<longrightarrow> captureSlotHeld s)
          \<and> (stopping s \<longrightarrow> \<not> controlRegistered s))"
proof -
  have ok: "processOk w" by (rule process_reachable_ok) fact
  then have "case pr_host w of None \<Rightarrow> \<not> (\<exists>i s. camera w i = Some s \<and> (controlRegistered s \<or> captureSlotHeld s))
      | Some host \<Rightarrow>
          (\<forall>j i. roster host j = Some i \<longleftrightarrow> (\<exists>s. camera w i = Some s \<and> controlRegistered s \<and> sourceID s = j))
          \<and> (hs_capture_reserved host \<longleftrightarrow> (\<exists>i s. camera w i = Some s \<and> captureSlotHeld s))"
    by (cases "pr_host w") (auto simp: processOk_def hostOk_def cameraOk_def)
  with ok show ?thesis by (auto simp: processOk_def cameraOk_def)
qed

lemma putCamera_others: "j \<noteq> i \<Longrightarrow> camera (putCamera i t w) j = camera w j"
  by (simp add: camera_def putCamera_def)

text \<open>
  C13: A request is either answered by the host itself, without any camera changing, or it is handed to
  the registered camera that its target names. That camera then accounts for the reply exactly once,
  answered or in one of its slots; the other cameras do not change, and the host answers nothing.
\<close>

theorem request_stays_with_its_camera:
  assumes "process_step\<^sup>*\<^sup>* emptyProcess w" and "pr_host w \<noteq> None"
  shows "let v = serveProcess parse master now q r w in
    (\<exists>x. v = w\<lparr>pr_replies := pr_replies w @ [(r, x)]\<rparr>)
    \<or> (\<exists>i s t operation. camera w i = Some s \<and> controlRegistered s
          \<and> rq_target q = sourcesPrefix @ sourceID s @ CHR ''/'' # operation
          \<and> camera v i = Some t \<and> custody t = add_mset r (custody s) \<and> sourceID t = sourceID s
          \<and> (\<forall>j. j \<noteq> i \<longrightarrow> camera v j = camera w j) \<and> pr_replies v = pr_replies w)"
proof -
  have ok: "processOk w" by (rule process_reachable_ok) fact
  obtain h where h: "pr_host w = Some h" using assms(2) by blast
  show ?thesis
  proof (cases rule: serveProcess_cases [OF ok h, of parse master now q r])
    case (1 x)
    then show ?thesis by (auto simp: Let_def)
  next
    case (2 i s operation input t)
    have at: "custody (atHost w s) = custody s" "fst (hostKey (atHost w s)) = fst (hostKey s)"
      by (simp_all add: atHost_def h custody_def answered_def hostKey_def)
    have "slotInv (atHost w s)"
      using processOkD(1,5) [OF ok 2(1)] h by (auto simp: slotInv_def atHost_def cameraOk_def)
    note HandleControlRequest_custody [OF this 2(4)]
    moreover have "fst (hostKey t) = fst (hostKey s)"
      using HandleControlRequest_slot [of "atHost w s" master now operation q input r] 2(4)
      by (auto simp: slotHandled_def slotStep_def takesSlot_def givesSlot_def at(2))
    ultimately show ?thesis
      using 2 putCamera_others by (auto simp: Let_def at(1) hostKey_def)
  qed
qed

section \<open>A concrete process\<close>

definition demoProcess :: process where
  "demoProcess = loadCamera plainGL demoLoad (Some demoSensor) demoSdf None ''i'' emptyProcess"

definition demoStray :: control_request where
  "demoStray = \<lparr>rq_method = ''GET'', rq_target = ''/v1/x'', rq_body = [], rq_request_id = [], rq_deadline = 1\<rparr>"

lemma demoProcess_reachable: "process_step\<^sup>*\<^sup>* emptyProcess demoProcess"
  unfolding demoProcess_def by (rule r_into_rtranclp [of process_step], rule process_step.load)

lemma demoProcess_serves:
  "\<exists>s. camera demoProcess 0 = Some s \<and> controlRegistered s"
proof -
  obtain host :: "nat host" where host: "Acquire None ''i'' ''/run/x'' ''t'' [] None = Inr host" "newHost None ''i'' ''/run/x'' ''t'' [] = Inr host"
    by (auto simp: Acquire_def newHost_def SafeSourceIdentifier_def less_eq_char_def)
  have "controlRegistered (Load (demoLoad\<lparr>la_host := Inr host\<rparr>) (Some demoSensor) demoSdf s)" for s
    using newHost_ok [OF host(2)] by (intro demoLoad_registers_at) simp_all
  then show ?thesis
    by (simp add: demoProcess_def loadCamera_def camera_def emptyProcess_def demoSdf_def SDFValue_def host Let_def)
qed

theorem process_shares_host_safely_witness:
  "\<exists>s host. camera demoProcess 0 = Some s \<and> pr_host demoProcess = Some host \<and> roster host (sourceID s) = Some 0"
proof -
  obtain s where "camera demoProcess 0 = Some s" "controlRegistered s" using demoProcess_serves by blast
  with process_shares_host_safely [OF demoProcess_reachable] show ?thesis
    by (cases "pr_host demoProcess") auto
qed

theorem request_stays_with_its_camera_witness:
  "\<exists>x. serveProcess (\<lambda>body. None) demoMaster 0 demoStray 7 demoProcess
    = demoProcess\<lparr>pr_replies := pr_replies demoProcess @ [(7, x)]\<rparr>"
proof -
  obtain s where "camera demoProcess 0 = Some s" "controlRegistered s" using demoProcess_serves by blast
  then have "pr_host demoProcess \<noteq> None"
    using processOkD(1,2) [OF process_reachable_ok [OF demoProcess_reachable], of 0 s]
    by (auto simp: cameraOk_def)
  from request_stays_with_its_camera [OF demoProcess_reachable this, of "\<lambda>body. None" demoMaster 0 demoStray 7]
  show ?thesis by (simp add: Let_def sourcesPrefix_def demoStray_def)
qed

end
