(* ===== verification/Capture_Progress.thy ===== *)
theory Capture_Progress
  imports Snapshot_Capture
begin

text \<open>
  A capture that is armed comes to an end: every frame brings it closer to an answer, whatever OpenGL,
  the readback and the JPEG encoders report, except a frame on which the fence of the readback
  has not been signalled yet.
\<close>

section \<open>A frame and the pass of the JPEG worker after it\<close>



text \<open>What the progress depends on; the other threads leave it alone while the capture is under way.\<close>

definition progressView :: "'z snap_scheme \<Rightarrow> (snapshot_result \<times> bool \<times> snapshot_result option \<times> bool
    \<times> snapshot_result option \<times> bool) \<times> bool \<times> u32" where
  "progressView s = ((snapshot s, snapshotReadbackPending s, snapshotReadbackResult s, snapshotReadbackFence s,
     snapshotEncodeJob s, snapshotEncoderStopping s), snapshotPBOAvailable s, snapshotRenderPassesToSkip s)"






section \<open>What the parts of a frame do\<close>


text \<open>A readback that cannot be issued leaves all but the flag that it is available.\<close>

definition waitsLike :: "'z snap_scheme \<Rightarrow> 'z snap_scheme \<Rightarrow> bool" where
  "waitsLike s t \<longleftrightarrow> fst (progressView t) = fst (progressView s) \<and> snd (snd (progressView t)) = snd (snd (progressView s))"

lemma waitsLike_view [simp]: "progressView t = progressView s \<Longrightarrow> waitsLike s t"
  by (simp add: waitsLike_def)




















lemma describeSnapshot_same [simp]: "sameCapture (describeSnapshot cam x s) y = sameCapture x y"
  by (simp add: describeSnapshot_def sameCapture_def Let_def)

















end
