(* ===== verification/ROS_Runtime.thy ===== *)
theory ROS_Runtime
  imports Prelude
begin

text \<open>
  The owner of the ROS callback queue (\<open>CameraROSDataRuntime\<close>), which all cameras of a process share:
  it lives while a camera holds it, initializes ROS once, and spins with one thread however often the
  registration of the cameras is repeated. The spinner of roscpp is counted.
\<close>

section \<open>The runtime\<close>

text \<open>
  \<open>rt_owner\<close> is whether the weak pointer locks, \<open>rt_started\<close> the once flag and \<open>rt_spinners\<close> the
  threads of the spinners that exist; \<open>rt_holders\<close> lists the plugins that hold the shared pointer.
  \<open>rt_inits\<close> counts the calls of \<open>ros::init\<close>.
\<close>

record ros_runtime =
  rt_initialized :: bool
  rt_inits :: nat
  rt_owner :: bool
  rt_started :: bool
  rt_spinners :: nat
  rt_holders :: "nat list"

text \<open>The constructor, and \<open>Acquire\<close> by a plugin; a plugin that holds the runtime gets it again.\<close>

definition newRuntime :: "ros_runtime \<Rightarrow> ros_runtime" where
  "newRuntime r =
     (let r1 = (if rt_initialized r then r else r\<lparr>rt_initialized := True, rt_inits := Suc (rt_inits r)\<rparr>)
      in r1\<lparr>rt_owner := True, rt_started := False\<rparr>)"

definition AcquireRuntime :: "nat \<Rightarrow> ros_runtime \<Rightarrow> ros_runtime" where
  "AcquireRuntime i r =
     (let r1 = (if rt_owner r then r else newRuntime r)
      in r1\<lparr>rt_holders := List.insert i (rt_holders r1)\<rparr>)"

text \<open>\<open>Start\<close>: \<open>std::call_once\<close> makes the spinner, with one thread.\<close>

definition StartRuntime :: "ros_runtime \<Rightarrow> ros_runtime" where
  "StartRuntime r =
     (if rt_started r then r else r\<lparr>rt_started := True, rt_spinners := Suc (rt_spinners r)\<rparr>)"

text \<open>A plugin resets its pointer; the last one destroys the runtime and its spinner.\<close>

definition ReleaseRuntime :: "nat \<Rightarrow> ros_runtime \<Rightarrow> ros_runtime" where
  "ReleaseRuntime i r =
     (let holders = removeAll i (rt_holders r)
      in if rt_owner r \<and> holders = []
         then r\<lparr>rt_holders := [], rt_owner := False, rt_started := False,
                rt_spinners := (if rt_started r then rt_spinners r - 1 else rt_spinners r)\<rparr>
         else r\<lparr>rt_holders := holders\<rparr>)"

section \<open>One spinner for all cameras\<close>

text \<open>
  A plugin registers only while it holds the runtime; other code of the process may initialize ROS.
\<close>

inductive runtime_step :: "ros_runtime \<Rightarrow> ros_runtime \<Rightarrow> bool" where
  acquire: "runtime_step r (AcquireRuntime i r)"
| start: "i \<in> set (rt_holders r) \<Longrightarrow> runtime_step r (StartRuntime r)"
| release: "runtime_step r (ReleaseRuntime i r)"
| initialized: "runtime_step r (r\<lparr>rt_initialized := True\<rparr>)"

definition noRuntime :: "bool \<Rightarrow> ros_runtime" where
  "noRuntime initialized = \<lparr>rt_initialized = initialized, rt_inits = 0, rt_owner = False, rt_started = False,
     rt_spinners = 0, rt_holders = []\<rparr>"

definition runtimeInv :: "ros_runtime \<Rightarrow> bool" where
  "runtimeInv r \<longleftrightarrow> rt_spinners r = of_bool (rt_started r) \<and> (rt_owner r \<longleftrightarrow> rt_holders r \<noteq> [])
     \<and> (rt_started r \<longrightarrow> rt_owner r) \<and> (rt_owner r \<longrightarrow> rt_initialized r)
     \<and> (rt_inits r = 0 \<or> rt_inits r = 1 \<and> rt_initialized r)"

lemma AcquireRuntime_inv: "runtimeInv r \<Longrightarrow> runtimeInv (AcquireRuntime i r)"
  by (auto simp: runtimeInv_def AcquireRuntime_def newRuntime_def Let_def List.insert_def split: if_splits)

lemma ReleaseRuntime_inv: "runtimeInv r \<Longrightarrow> runtimeInv (ReleaseRuntime i r)"
  by (auto simp: runtimeInv_def ReleaseRuntime_def Let_def split: if_splits)

lemma runtime_step_inv: "runtime_step r r' \<Longrightarrow> runtimeInv r \<Longrightarrow> runtimeInv r'"
proof (induction rule: runtime_step.induct)
  case (start i r)
  then show ?case by (auto simp: runtimeInv_def StartRuntime_def)
next
  case (initialized r)
  then show ?case by (auto simp: runtimeInv_def)
qed (simp_all add: AcquireRuntime_inv ReleaseRuntime_inv)

text \<open>
  In every interleaving of the cameras the process has a runtime exactly while a camera holds it, at most
  one spinner, which exists only with the runtime, and \<open>ros::init\<close> is called at most once, however
  often the runtime is destroyed and made again.
\<close>

theorem runtime_spins_once:
  assumes "runtime_step\<^sup>*\<^sup>* (noRuntime b) r"
  shows "rt_spinners r \<le> 1 \<and> (rt_owner r \<longleftrightarrow> rt_holders r \<noteq> []) \<and> (rt_spinners r = 1 \<longrightarrow> rt_holders r \<noteq> [])
    \<and> rt_inits r \<le> 1 \<and> (b \<longrightarrow> rt_inits r = 0)"
proof -
  have "runtimeInv r \<and> (b \<longrightarrow> rt_initialized r \<and> rt_inits r = 0)"
    using assms
  proof (induction rule: rtranclp_induct)
    case base
    then show ?case by (simp add: runtimeInv_def noRuntime_def)
  next
    case (step r r')
    have "rt_initialized r \<Longrightarrow> rt_initialized r' \<and> rt_inits r' = rt_inits r"
      using step.hyps(2) by cases (simp_all add: AcquireRuntime_def newRuntime_def StartRuntime_def ReleaseRuntime_def Let_def)
    moreover have "runtimeInv r'" using runtime_step_inv step by blast
    ultimately show ?case using step.IH by simp
  qed
  then show ?thesis by (auto simp: runtimeInv_def)
qed

theorem runtime_spins_once_witness:
  "rt_spinners (StartRuntime (StartRuntime (AcquireRuntime 0 (noRuntime False)))) \<le> 1"
proof -
  obtain r where r: "r = AcquireRuntime 0 (noRuntime False)" by simp
  have s1: "runtime_step (noRuntime False) r" unfolding r by (rule runtime_step.acquire)
  have s2: "runtime_step r (StartRuntime r)" by (rule runtime_step.start [of 0]) (simp add: r AcquireRuntime_def Let_def)
  have s3: "runtime_step (StartRuntime r) (StartRuntime (StartRuntime r))"
    by (rule runtime_step.start [of 0]) (simp add: r AcquireRuntime_def StartRuntime_def Let_def)
  have "runtime_step\<^sup>*\<^sup>* (noRuntime False) (StartRuntime (StartRuntime r))"
    by (rule converse_rtranclp_into_rtranclp [of runtime_step, OF s1
          converse_rtranclp_into_rtranclp [of runtime_step, OF s2 r_into_rtranclp [of runtime_step, OF s3]]])
  from runtime_spins_once [OF this] show ?thesis by (simp add: r)
qed

end
