(* ===== verification/Nvjpeg.thy ===== *)
theory Nvjpeg
  imports Snapshot_Jpeg Control_Json
begin

text \<open>
  The nvJPEG module (\<open>snapshot_jpeg_nvjpeg.cpp\<close>): its factory, one encode, and the destruction of a
  context. CUDA, nvJPEG and the allocator are parameters; a log records what is acquired and released.
  The lemmas show when an encode succeeds, that its result is accepted by the backend that loads the
  module, and that every session releases what it acquired.
\<close>

section \<open>State\<close>

text \<open>Handles are flags (not null).\<close>

record nvjpeg_context =
  nx_device :: int
  nx_handle :: bool
  nx_state :: bool
  nx_params :: bool
  nx_stream :: bool
  nx_deviceRGB :: bool
  nx_deviceCapacity :: nat

definition newContext :: nvjpeg_context where
  "newContext = \<lparr>nx_device = 0, nx_handle = False, nx_state = False, nx_params = False,
     nx_stream = False, nx_deviceRGB = False, nx_deviceCapacity = 0\<rparr>"

datatype nvjpeg_call = ContextNew | ContextDelete | HandleCreate | HandleDestroy | StateCreate
  | StateDestroy | ParamsCreate | ParamsDestroy | StreamCreate | StreamDestroy | StreamSynchronize
  | DeviceMalloc | DeviceFree | HostMalloc | HostFree

text \<open>The error buffer of the caller (none for a null pointer) and the log.\<close>

record nvjpeg_world =
  nw_error :: "string option"
  nw_log :: "nvjpeg_call list"

definition logNv :: "nvjpeg_call list \<Rightarrow> nvjpeg_world \<Rightarrow> nvjpeg_world" where
  "logNv calls w = w\<lparr>nw_log := nw_log w @ calls\<rparr>"

definition WriteError :: "nat \<Rightarrow> string \<Rightarrow> nvjpeg_world \<Rightarrow> nvjpeg_world" where
  "WriteError errorSize message w =
     (if nw_error w = None \<or> errorSize = 0 then w
      else w\<lparr>nw_error := Some (take (errorSize - 1) message)\<rparr>)"

text \<open>A status is a number, 0 is success; \<open>cudaGetErrorString\<close> is a parameter.\<close>

definition CUDAError :: "(nat \<Rightarrow> string) \<Rightarrow> string \<Rightarrow> nat \<Rightarrow> string" where
  "CUDAError errorString operation status = operation @ '': '' @ errorString status"

definition NvjpegError :: "string \<Rightarrow> nat \<Rightarrow> string" where
  "NvjpegError operation status = operation @ '' failed with nvJPEG status '' @ decimal status"

definition DestroyContext :: "nvjpeg_context \<Rightarrow> nvjpeg_world \<Rightarrow> nvjpeg_world" where
  "DestroyContext context w = logNv (
     (if nx_stream context then [StreamSynchronize] else [])
     @ (if nx_deviceRGB context then [DeviceFree] else [])
     @ (if nx_params context then [ParamsDestroy] else [])
     @ (if nx_state context then [StateDestroy] else [])
     @ (if nx_handle context then [HandleDestroy] else [])
     @ (if nx_stream context then [StreamDestroy] else [])
     @ [ContextDelete]) w"

definition DestroyNvjpeg :: "nvjpeg_context option \<Rightarrow> nvjpeg_world \<Rightarrow> nvjpeg_world" where
  "DestroyNvjpeg opaque w = (case opaque of None \<Rightarrow> w | Some context \<Rightarrow> DestroyContext context w)"

definition ReleaseJPEG :: "bytes option \<Rightarrow> nvjpeg_world \<Rightarrow> nvjpeg_world" where
  "ReleaseJPEG jpeg w = (case jpeg of None \<Rightarrow> w | Some b \<Rightarrow> logNv [HostFree] w)"

section \<open>One encode\<close>

text \<open>
  The statuses of the calls in their order; \<open>nq_length\<close> is the length the first retrieval reports,
  \<open>nq_capacity\<close> and \<open>nq_memory\<close> the length and the memory after the second.
\<close>

record nvjpeg_encode_answers =
  nq_device :: nat
  nq_malloc :: nat
  nq_copy :: nat
  nq_quality :: nat
  nq_sampling :: nat
  nq_encode :: nat
  nq_query :: nat
  nq_length :: nat
  nq_synchronize :: nat
  nq_allocate :: bool
  nq_retrieve :: nat
  nq_capacity :: nat
  nq_synchronizeOutput :: nat
  nq_memory :: "nat \<Rightarrow> 8 word"

definition validNvjpegInput :: "nat \<Rightarrow> u32 \<Rightarrow> u32 \<Rightarrow> int \<Rightarrow> bool" where
  "validNvjpegInput rgbSize width height quality \<longleftrightarrow>
     \<not> (width < 16 \<or> height < 16 \<or> width > 8192 \<or> height > 8192 \<or> quality < 1 \<or> quality > 100
        \<or> unat width > (2 ^ 64 - 1) div unat height div 3 \<or> rgbSize \<noteq> unat width * unat height * 3)"

definition ensureDeviceRGB ::
  "nat \<Rightarrow> nat \<Rightarrow> nvjpeg_context \<Rightarrow> nvjpeg_world \<Rightarrow> bool \<times> nvjpeg_context \<times> nvjpeg_world" where
  "ensureDeviceRGB allocated rgbSize context w =
     (if nx_deviceCapacity context < rgbSize then
        (let (c1, w1) = (if nx_deviceRGB context
               then (context\<lparr>nx_deviceRGB := False, nx_deviceCapacity := 0\<rparr>, logNv [DeviceFree] w)
               else (context, w))
         in if allocated \<noteq> 0 then (False, c1, w1)
            else (True, c1\<lparr>nx_deviceRGB := True, nx_deviceCapacity := rgbSize\<rparr>, logNv [DeviceMalloc] w1))
      else (True, context, w))"

text \<open>From the copy of the input on: the status, the buffer that is handed out, and the log.\<close>

definition encodeOnDevice ::
  "(nat \<Rightarrow> string) \<Rightarrow> nvjpeg_encode_answers \<Rightarrow> nat \<Rightarrow> nvjpeg_world \<Rightarrow> int \<times> bytes option \<times> nvjpeg_world" where
  "encodeOnDevice errorString a errorSize w =
     (let fail = (\<lambda>message v. (1, None, WriteError errorSize message v));
          drained = logNv [StreamSynchronize];
          freed = logNv [HostFree];
          capacity = nq_capacity a
      in if nq_copy a \<noteq> 0 then fail (CUDAError errorString ''cudaMemcpyAsync RGB'' (nq_copy a)) w
         else if nq_quality a \<noteq> 0 then fail (NvjpegError ''set JPEG quality'' (nq_quality a)) (drained w)
         else if nq_sampling a \<noteq> 0 then fail (NvjpegError ''set JPEG sampling'' (nq_sampling a)) (drained w)
         else if nq_encode a \<noteq> 0 then fail (NvjpegError ''encode RGB'' (nq_encode a)) (drained w)
         else if nq_query a \<noteq> 0 then fail (NvjpegError ''query bitstream size'' (nq_query a)) (drained w)
         else if nq_synchronize a \<noteq> 0
         then fail (CUDAError errorString ''synchronize encode'' (nq_synchronize a)) (drained w)
         else if nq_length a < 4 \<or> int (nq_length a) > maximumJpegBytes
         then fail ''nvJPEG returned an invalid bitstream size'' (drained w)
         else if \<not> nq_allocate a then fail ''allocate nvJPEG output failed'' (drained w)
         else (let w1 = logNv [HostMalloc] (drained w)
               in if nq_retrieve a \<noteq> 0
                  then fail (NvjpegError ''retrieve bitstream'' (nq_retrieve a)) (freed (drained w1))
                  else if nq_synchronizeOutput a \<noteq> 0
                  then fail (CUDAError errorString ''synchronize bitstream'' (nq_synchronizeOutput a))
                         (freed (drained w1))
                  else if capacity < 4 \<or> capacity > nq_length a \<or> nq_memory a 0 \<noteq> 0xff
                    \<or> nq_memory a 1 \<noteq> 0xd8 \<or> nq_memory a (capacity - 2) \<noteq> 0xff
                    \<or> nq_memory a (capacity - 1) \<noteq> 0xd9
                  then fail ''nvJPEG returned invalid JPEG markers'' (freed (drained w1))
                  else (0, Some (map (nq_memory a) [0..<capacity]), drained w1)))"

definition EncodeRGBImpl ::
  "(nat \<Rightarrow> string) \<Rightarrow> nvjpeg_encode_answers \<Rightarrow> nvjpeg_context option \<Rightarrow> bytes option \<Rightarrow> nat \<Rightarrow> u32 \<Rightarrow> u32
     \<Rightarrow> int \<Rightarrow> bool \<Rightarrow> nat \<Rightarrow> nvjpeg_world
     \<Rightarrow> int \<times> bytes option \<times> nvjpeg_context option \<times> nvjpeg_world" where
  "EncodeRGBImpl errorString a opaque rgb rgbSize width height quality outputs errorSize w =
     (case opaque of
        None \<Rightarrow> (1, None, None, WriteError errorSize ''nvJPEG received invalid RGB input'' w)
      | Some context \<Rightarrow>
        if rgb = None \<or> \<not> outputs \<or> \<not> validNvjpegInput rgbSize width height quality
        then (1, None, Some context, WriteError errorSize ''nvJPEG received invalid RGB input'' w)
        else if nq_device a \<noteq> 0
        then (1, None, Some context,
              WriteError errorSize (CUDAError errorString ''select CUDA device'' (nq_device a)) w)
        else (case ensureDeviceRGB (nq_malloc a) rgbSize context w of
          (False, c, w1) \<Rightarrow>
            (1, None, Some c, WriteError errorSize (CUDAError errorString ''cudaMalloc RGB'' (nq_malloc a)) w1)
        | (True, c, w1) \<Rightarrow> (case encodeOnDevice errorString a errorSize w1 of
            (status, jpeg, w2) \<Rightarrow> (status, jpeg, Some c, w2))))"

section \<open>The factory\<close>

text \<open>
  A creating call answers its status and whether it set the handle; \<open>nf_count\<close> is the status and the
  number of devices.
\<close>

record nvjpeg_factory_answers =
  nf_count :: "nat \<times> int"
  nf_new :: bool
  nf_device :: "nat \<times> int"
  nf_stream :: "nat \<times> bool"
  nf_handle :: "nat \<times> bool"
  nf_state :: "nat \<times> bool"
  nf_params :: "nat \<times> bool"
  nf_encoding :: nat
  nf_huffman :: nat
  nf_sampling :: nat
  nf_synchronize :: nat
  nf_probe :: nvjpeg_encode_answers

definition acquired :: "nvjpeg_call \<Rightarrow> bool \<Rightarrow> nvjpeg_world \<Rightarrow> nvjpeg_world" where
  "acquired call handle w = (if handle then logNv [call] w else w)"

definition configureStatus :: "nvjpeg_factory_answers \<Rightarrow> nat" where
  "configureStatus f =
     (if nf_encoding f = 0 then (if nf_huffman f = 0 then nf_sampling f else nf_huffman f)
      else nf_encoding f)"

definition probeRGB :: bytes where "probeRGB = replicate (16 * 16 * 3) 0"

text \<open>\<open>encode\<close> is the entry of the encoder table that calls back into this module.\<close>

definition createEncoder ::
  "(nat \<Rightarrow> string) \<Rightarrow> nvjpeg_factory_answers \<Rightarrow> u32 \<Rightarrow> bool
     \<Rightarrow> (bytes \<Rightarrow> u32 \<Rightarrow> u32 \<Rightarrow> int \<Rightarrow> int \<times> bytes option \<times> string) \<Rightarrow> nat \<Rightarrow> nat \<Rightarrow> nvjpeg_world
     \<Rightarrow> int \<times> (hw_encoder \<times> nvjpeg_context) option \<times> nvjpeg_world" where
  "createEncoder errorString f requestedAbi encoder encode name errorSize w =
     (if \<not> encoder \<or> requestedAbi \<noteq> XGC_SNAPSHOT_JPEG_HARDWARE_ABI_V1
      then (1, None, WriteError errorSize ''unsupported snapshot JPEG hardware ABI'' w)
      else if fst (nf_count f) \<noteq> 0 \<or> snd (nf_count f) < 1
      then (1, None, WriteError errorSize
        (if fst (nf_count f) = 0 then ''no CUDA device is available''
         else CUDAError errorString ''enumerate CUDA devices'' (fst (nf_count f))) w)
      else if \<not> nf_new f then (1, None, WriteError errorSize ''allocate nvJPEG context failed'' w)
      else (let w0 = logNv [ContextNew] w;
                fail = (\<lambda>message c v. (1, None, DestroyContext c (WriteError errorSize message v)));
                c0 = newContext\<lparr>nx_device := snd (nf_device f)\<rparr>
            in if fst (nf_device f) \<noteq> 0
               then fail (CUDAError errorString ''select current CUDA device'' (fst (nf_device f))) c0 w0
               else (let c1 = c0\<lparr>nx_stream := snd (nf_stream f)\<rparr>;
                         w1 = acquired StreamCreate (snd (nf_stream f)) w0
               in if fst (nf_stream f) \<noteq> 0
                  then fail (CUDAError errorString ''create CUDA stream'' (fst (nf_stream f))) c1 w1
                  else (let c2 = c1\<lparr>nx_handle := snd (nf_handle f)\<rparr>;
                            w2 = acquired HandleCreate (snd (nf_handle f)) w1
                  in if fst (nf_handle f) \<noteq> 0
                     then fail (NvjpegError ''create nvJPEG handle'' (fst (nf_handle f))) c2 w2
                     else (let c3 = c2\<lparr>nx_state := snd (nf_state f)\<rparr>;
                               w3 = acquired StateCreate (snd (nf_state f)) w2
                     in if fst (nf_state f) \<noteq> 0
                        then fail (NvjpegError ''create encoder state'' (fst (nf_state f))) c3 w3
                        else (let c4 = c3\<lparr>nx_params := snd (nf_params f)\<rparr>;
                                  w4 = acquired ParamsCreate (snd (nf_params f)) w3
                        in if fst (nf_params f) \<noteq> 0
                           then fail (NvjpegError ''create encoder params'' (fst (nf_params f))) c4 w4
                           else if configureStatus f \<noteq> 0
                           then fail (NvjpegError ''configure baseline encoder'' (configureStatus f)) c4 w4
                           else (let w5 = logNv [StreamSynchronize] w4
                           in if nf_synchronize f \<noteq> 0
                              then fail (CUDAError errorString ''preflight encoder params'' (nf_synchronize f)) c4 w5
                              else (case EncodeRGBImpl errorString (nf_probe f) (Some c4) (Some probeRGB)
                                       (length probeRGB) 16 16 90 True errorSize w5 of
                                (status, jpeg, c5, w6) \<Rightarrow>
                                  if status \<noteq> 0 then (1, None, DestroyNvjpeg c5 w6)
                                  else (0, Some (\<lparr>hw_abi_version = XGC_SNAPSHOT_JPEG_HARDWARE_ABI_V1,
                                      hw_struct_size = hwEncoderSize, hw_backend_name = Some ''nvjpeg-cuda'',
                                      hw_context = Some name, hw_encode_rgb = Some encode,
                                      hw_release_jpeg = True, hw_destroy = True\<rparr>, the c5),
                                    ReleaseJPEG jpeg w6)))))))))"

section \<open>Resources\<close>

text \<open>
  What is acquired is released or held: by the context, if there is one, or as one of \<open>k\<close> output
  buffers that have been handed out.
\<close>

definition nxHolds :: "(nvjpeg_context \<Rightarrow> bool) \<Rightarrow> nvjpeg_context option \<Rightarrow> nat" where
  "nxHolds f c = (case c of None \<Rightarrow> 0 | Some c \<Rightarrow> of_bool (f c))"

definition nvjpegBalanced :: "nat \<Rightarrow> nvjpeg_context option \<Rightarrow> nvjpeg_world \<Rightarrow> bool" where
  "nvjpegBalanced k c w \<longleftrightarrow>
     (let n = count_list (nw_log w) in
      n ContextNew = n ContextDelete + nxHolds (\<lambda>c. True) c
      \<and> n StreamCreate = n StreamDestroy + nxHolds nx_stream c
      \<and> n HandleCreate = n HandleDestroy + nxHolds nx_handle c
      \<and> n StateCreate = n StateDestroy + nxHolds nx_state c
      \<and> n ParamsCreate = n ParamsDestroy + nxHolds nx_params c
      \<and> n DeviceMalloc = n DeviceFree + nxHolds nx_deviceRGB c
      \<and> n HostMalloc = n HostFree + k)"

lemma nxHolds_simps [simp]:
  "nxHolds f None = 0" "nxHolds f (Some c) = of_bool (f c)"
  by (simp_all add: nxHolds_def)

lemma nvjpegBalanced_log [simp]:
  "nvjpegBalanced k c (WriteError n m w) = nvjpegBalanced k c w"
  "nvjpegBalanced k c (logNv [StreamSynchronize] w) = nvjpegBalanced k c w"
  "nvjpegBalanced (Suc k) c (logNv [HostMalloc] w) = nvjpegBalanced k c w"
  "nvjpegBalanced k c (logNv [HostFree] w) = nvjpegBalanced (Suc k) c w"
  by (auto simp: nvjpegBalanced_def WriteError_def logNv_def Let_def)

lemma nvjpegBalanced_context [simp]:
  "nvjpegBalanced k (Some (c\<lparr>nx_device := d\<rparr>)) w = nvjpegBalanced k (Some c) w"
  "nvjpegBalanced k (Some (c\<lparr>nx_deviceCapacity := n\<rparr>)) w = nvjpegBalanced k (Some c) w"
  by (simp_all add: nvjpegBalanced_def)

lemma nvjpegBalanced_acquire:
  "nvjpegBalanced k None w \<Longrightarrow> nvjpegBalanced k (Some newContext) (logNv [ContextNew] w)"
  "\<not> nx_stream c \<Longrightarrow> nvjpegBalanced k (Some c) w \<Longrightarrow>
     nvjpegBalanced k (Some (c\<lparr>nx_stream := b\<rparr>)) (acquired StreamCreate b w)"
  "\<not> nx_handle c \<Longrightarrow> nvjpegBalanced k (Some c) w \<Longrightarrow>
     nvjpegBalanced k (Some (c\<lparr>nx_handle := b\<rparr>)) (acquired HandleCreate b w)"
  "\<not> nx_state c \<Longrightarrow> nvjpegBalanced k (Some c) w \<Longrightarrow>
     nvjpegBalanced k (Some (c\<lparr>nx_state := b\<rparr>)) (acquired StateCreate b w)"
  "\<not> nx_params c \<Longrightarrow> nvjpegBalanced k (Some c) w \<Longrightarrow>
     nvjpegBalanced k (Some (c\<lparr>nx_params := b\<rparr>)) (acquired ParamsCreate b w)"
  "\<not> nx_deviceRGB c \<Longrightarrow> nvjpegBalanced k (Some c) w \<Longrightarrow>
     nvjpegBalanced k (Some (c\<lparr>nx_deviceRGB := True\<rparr>)) (logNv [DeviceMalloc] w)"
  "nx_deviceRGB c \<Longrightarrow> nvjpegBalanced k (Some c) w \<Longrightarrow>
     nvjpegBalanced k (Some (c\<lparr>nx_deviceRGB := False\<rparr>)) (logNv [DeviceFree] w)"
  by (auto simp: nvjpegBalanced_def acquired_def logNv_def newContext_def Let_def)

lemma nvjpegBalanced_destroy:
  assumes "nvjpegBalanced k (Some c) w"
  shows "nvjpegBalanced k None (DestroyContext c w)"
  using assms unfolding nvjpegBalanced_def Let_def
  by (cases "nx_stream c"; cases "nx_deviceRGB c"; cases "nx_params c"; cases "nx_state c";
      cases "nx_handle c") (simp_all add: DestroyContext_def logNv_def)

lemma nvjpegBalanced_option:
  "nvjpegBalanced k c w \<Longrightarrow> nvjpegBalanced k None (DestroyNvjpeg c w)"
  by (cases c) (simp_all add: DestroyNvjpeg_def nvjpegBalanced_destroy)

lemma ensureDeviceRGB_balanced:
  assumes "ensureDeviceRGB allocated n c w = (ok, c', w')" and "nvjpegBalanced k (Some c) w"
    and "nx_deviceCapacity c > 0 \<longrightarrow> nx_deviceRGB c"
  shows "nvjpegBalanced k (Some c') w' \<and> (nx_deviceCapacity c' > 0 \<longrightarrow> nx_deviceRGB c')
    \<and> (ok \<longleftrightarrow> n \<le> nx_deviceCapacity c \<or> allocated = 0) \<and> (ok \<longrightarrow> n \<le> nx_deviceCapacity c')"
proof (cases "nx_deviceCapacity c < n")
  case False
  with assms show ?thesis by (auto simp: ensureDeviceRGB_def)
next
  case True
  obtain c1 w1 where c1: "(c1, w1) = (if nx_deviceRGB c
      then (c\<lparr>nx_deviceRGB := False, nx_deviceCapacity := 0\<rparr>, logNv [DeviceFree] w) else (c, w))"
    by (cases "nx_deviceRGB c") auto
  have "nvjpegBalanced k (Some c1) w1" "\<not> nx_deviceRGB c1" "nx_deviceCapacity c1 > 0 \<longrightarrow> nx_deviceRGB c1"
    using c1 assms nvjpegBalanced_acquire(7) [of c k w] by (auto split: if_splits)
  moreover have "ensureDeviceRGB allocated n c w = (if allocated \<noteq> 0 then (False, c1, w1)
      else (True, c1\<lparr>nx_deviceRGB := True, nx_deviceCapacity := n\<rparr>, logNv [DeviceMalloc] w1))"
    unfolding ensureDeviceRGB_def c1 [symmetric] using True by simp
  ultimately show ?thesis
    using assms(1) True nvjpegBalanced_acquire(6) [of c1 k w1] by (auto split: if_splits)
qed

text \<open>The rest of an encode, after the device buffer is there.\<close>

definition nvjpegCallsSucceed :: "nvjpeg_encode_answers \<Rightarrow> bool" where
  "nvjpegCallsSucceed a \<longleftrightarrow> nq_copy a = 0 \<and> nq_quality a = 0 \<and> nq_sampling a = 0 \<and> nq_encode a = 0
     \<and> nq_query a = 0 \<and> nq_synchronize a = 0 \<and> nq_allocate a \<and> nq_retrieve a = 0 \<and> nq_synchronizeOutput a = 0"

definition nvjpegOutput :: "nvjpeg_encode_answers \<Rightarrow> bytes" where
  "nvjpegOutput a = map (nq_memory a) [0..<nq_capacity a]"

lemma jpegImage_output:
  "nq_capacity a \<le> nq_length a \<Longrightarrow> \<not> int (nq_length a) > maximumJpegBytes \<Longrightarrow>
    jpegImage (nvjpegOutput a) \<longleftrightarrow> \<not> nq_capacity a < 4 \<and> nq_memory a 0 = 0xff \<and> nq_memory a 1 = 0xd8
      \<and> nq_memory a (nq_capacity a - 2) = 0xff \<and> nq_memory a (nq_capacity a - 1) = 0xd9"
  by (auto simp: jpegImage_def nvjpegOutput_def)

definition deviceOk :: "nvjpeg_context \<Rightarrow> bool" where
  "deviceOk c \<longleftrightarrow> (nx_deviceCapacity c > 0 \<longrightarrow> nx_deviceRGB c)"

lemma nvjpegBalanced_drained [simp]:
  "nvjpegBalanced k c (logNv [StreamSynchronize] (logNv [HostMalloc] w)) = nvjpegBalanced k c (logNv [HostMalloc] w)"
  by simp

lemma encodeOnDevice_outcome:
  assumes "encodeOnDevice es a size' w = (status, jpeg, w')"
  shows "status = 0 \<longleftrightarrow> jpeg \<noteq> None"
    and "jpeg \<noteq> None \<longleftrightarrow> nvjpegCallsSucceed a \<and> nq_capacity a \<le> nq_length a
      \<and> \<not> int (nq_length a) > maximumJpegBytes \<and> jpegImage (nvjpegOutput a)"
    and "jpeg \<noteq> None \<Longrightarrow> jpeg = Some (nvjpegOutput a)"
    and "nvjpegBalanced k c (ReleaseJPEG jpeg w') = nvjpegBalanced k c w"
proof -
  let ?image = "\<not> (nq_capacity a < 4 \<or> nq_capacity a > nq_length a \<or> nq_memory a 0 \<noteq> 0xff
      \<or> nq_memory a 1 \<noteq> 0xd8 \<or> nq_memory a (nq_capacity a - 2) \<noteq> 0xff
      \<or> nq_memory a (nq_capacity a - 1) \<noteq> 0xd9)"
  have image: "?image \<longleftrightarrow> nq_capacity a \<le> nq_length a \<and> jpegImage (nvjpegOutput a)"
    if "\<not> int (nq_length a) > maximumJpegBytes"
    using jpegImage_output [of a] that by auto
  obtain G where G_def: "G \<longleftrightarrow> nvjpegCallsSucceed a \<and> \<not> (nq_length a < 4 \<or> int (nq_length a) > maximumJpegBytes) \<and> ?image"
    by simp
  obtain F :: "int \<times> bytes option \<times> nvjpeg_world \<Rightarrow> bool" where F_def: "F = (\<lambda>x. (\<exists>m v. x = (1, None, WriteError size' m v)
        \<and> (\<forall>k c. nvjpegBalanced k (c :: nvjpeg_context option) v = nvjpegBalanced k c w) \<and> \<not> G)
    \<or> (x = (0, Some (nvjpegOutput a),
            logNv [StreamSynchronize] (logNv [HostMalloc] (logNv [StreamSynchronize] w))) \<and> G))"
    by simp
  have choice: "(b \<Longrightarrow> F x) \<Longrightarrow> (\<not> b \<Longrightarrow> F y) \<Longrightarrow> F (if b then x else y)" for b x y by simp
  have failing: "(\<And>k c. nvjpegBalanced k c v = nvjpegBalanced k c w) \<Longrightarrow> \<not> G
      \<Longrightarrow> F (1, None, WriteError size' m v)" for m v
    unfolding F_def by blast
  have success: "G \<Longrightarrow> F (0, Some (map (nq_memory a) [0..<nq_capacity a]),
      logNv [StreamSynchronize] (logNv [HostMalloc] (logNv [StreamSynchronize] w)))"
    unfolding F_def nvjpegOutput_def by blast
  have "F (encodeOnDevice es a size' w)"
    unfolding encodeOnDevice_def Let_def
    by (intro choice failing success) (simp_all add: G_def nvjpegCallsSucceed_def)
  then have *: "F (status, jpeg, w')" by (simp only: assms)
  note * = this [unfolded F_def G_def]
  show "status = 0 \<longleftrightarrow> jpeg \<noteq> None" using * by auto
  show "jpeg \<noteq> None \<longleftrightarrow> nvjpegCallsSucceed a \<and> nq_capacity a \<le> nq_length a
      \<and> \<not> int (nq_length a) > maximumJpegBytes \<and> jpegImage (nvjpegOutput a)"
    using * image by auto
  show "jpeg \<noteq> None \<Longrightarrow> jpeg = Some (nvjpegOutput a)" using * by auto
  show "nvjpegBalanced k c (ReleaseJPEG jpeg w') = nvjpegBalanced k c w"
    using * by (auto simp: ReleaseJPEG_def)
qed

text \<open>
  An encode of the nvJPEG module succeeds exactly when its input is a valid image, every call it
  makes succeeds, and what nvJPEG wrote is a JPEG image of at most 32 MiB; then it hands out that
  image, and otherwise nothing.
\<close>

theorem nvjpeg_encode_outcome:
  assumes "EncodeRGBImpl es a (Some c) rgb n width height quality outputs errorSize w = (status, jpeg, c', w')"
    and "deviceOk c"
  shows "(status = 0 \<longleftrightarrow> rgb \<noteq> None \<and> outputs \<and> validNvjpegInput n width height quality
        \<and> nq_device a = 0 \<and> (n \<le> nx_deviceCapacity c \<or> nq_malloc a = 0) \<and> nvjpegCallsSucceed a
        \<and> nq_capacity a \<le> nq_length a \<and> \<not> int (nq_length a) > maximumJpegBytes
        \<and> jpegImage (nvjpegOutput a))
    \<and> jpeg = (if status = 0 then Some (nvjpegOutput a) else None)"
proof (cases "rgb = None \<or> \<not> outputs \<or> \<not> validNvjpegInput n width height quality \<or> nq_device a \<noteq> 0")
  case True
  with assms(1) show ?thesis by (auto simp: EncodeRGBImpl_def split: if_splits)
next
  case False
  obtain ok d w1 where e: "ensureDeviceRGB (nq_malloc a) n c w = (ok, d, w1)"
    by (cases "ensureDeviceRGB (nq_malloc a) n c w") auto
  then have ok: "ok \<longleftrightarrow> n \<le> nx_deviceCapacity c \<or> nq_malloc a = 0"
    by (auto simp: ensureDeviceRGB_def Let_def split: if_splits prod.splits)
  obtain st j w2 where d: "encodeOnDevice es a errorSize w1 = (st, j, w2)"
    by (cases "encodeOnDevice es a errorSize w1") auto
  show ?thesis
  proof (cases ok)
    case False
    then show ?thesis using assms(1) \<open>\<not> (rgb = None \<or> _)\<close> e ok by (auto simp: EncodeRGBImpl_def)
  next
    case True
    then have "status = st" "jpeg = j"
      using assms(1) False e d by (auto simp: EncodeRGBImpl_def)
    with encodeOnDevice_outcome(1-3) [OF d] False ok True show ?thesis by auto
  qed
qed

lemma EncodeRGBImpl_balanced:
  assumes "EncodeRGBImpl es a (Some c) rgb n width height quality outputs errorSize w = (status, jpeg, c', w')"
    and "nvjpegBalanced k (Some c) w" and "deviceOk c"
  shows "\<exists>d. c' = Some d \<and> deviceOk d \<and> nvjpegBalanced k (Some d) (ReleaseJPEG jpeg w')"
proof (cases "rgb = None \<or> \<not> outputs \<or> \<not> validNvjpegInput n width height quality \<or> nq_device a \<noteq> 0")
  case True
  with assms show ?thesis by (auto simp: EncodeRGBImpl_def ReleaseJPEG_def split: if_splits)
next
  case False
  obtain ok d w1 where e: "ensureDeviceRGB (nq_malloc a) n c w = (ok, d, w1)"
    by (cases "ensureDeviceRGB (nq_malloc a) n c w") auto
  obtain st j w2 where o: "encodeOnDevice es a errorSize w1 = (st, j, w2)"
    by (cases "encodeOnDevice es a errorSize w1") auto
  note keep = ensureDeviceRGB_balanced [OF e assms(2) assms(3) [unfolded deviceOk_def]]
  show ?thesis
  proof (cases ok)
    case False
    then show ?thesis using assms(1) \<open>\<not> (rgb = None \<or> _)\<close> e keep
      by (auto simp: EncodeRGBImpl_def ReleaseJPEG_def deviceOk_def)
  next
    case True
    then have "jpeg = j" "c' = Some d" "w' = w2"
      using assms(1) False e o by (auto simp: EncodeRGBImpl_def)
    with encodeOnDevice_outcome(4) [OF o] keep show ?thesis by (simp add: deviceOk_def)
  qed
qed

section \<open>Sessions\<close>

lemma createEncoder_balanced:
  assumes "createEncoder es f abi encoder encode i errorSize w = (status, table, w')" and "nvjpegBalanced k None w"
  shows "(case table of None \<Rightarrow> status = 1 \<and> nvjpegBalanced k None w'
     | Some (e, c) \<Rightarrow> status = 0 \<and> nvjpegBalanced k (Some c) w' \<and> deviceOk c \<and> hwAccepted 0 e
         \<and> hw_encode_rgb e = Some encode \<and> hw_backend_name e = Some ''nvjpeg-cuda'')"
proof -
  obtain F :: "int \<times> (hw_encoder \<times> nvjpeg_context) option \<times> nvjpeg_world \<Rightarrow> bool" where
    F_def: "F = (\<lambda>(status, table, w'). (case table of None \<Rightarrow> status = 1 \<and> nvjpegBalanced k None w'
     | Some (e, c) \<Rightarrow> status = 0 \<and> nvjpegBalanced k (Some c) w' \<and> deviceOk c \<and> hwAccepted 0 e
         \<and> hw_encode_rgb e = Some encode \<and> hw_backend_name e = Some ''nvjpeg-cuda''))" by simp
  have choice: "(b \<Longrightarrow> F x) \<Longrightarrow> (\<not> b \<Longrightarrow> F y) \<Longrightarrow> F (if b then x else y)" for b x y by simp
  have early: "F (1, None, WriteError errorSize m w)" for m
    using assms(2) by (simp add: F_def)
  have late: "F (1, None, DestroyContext c (WriteError errorSize m v))" if "nvjpegBalanced k (Some c) v" for c m v
    using that by (simp add: F_def nvjpegBalanced_destroy)
  obtain c0 where c0: "c0 = newContext\<lparr>nx_device := snd (nf_device f)\<rparr>" by simp
  obtain w0 where w0: "w0 = logNv [ContextNew] w" by simp
  have b0: "nvjpegBalanced k (Some c0) w0" using nvjpegBalanced_acquire(1) [OF assms(2)] by (simp add: c0 w0)
  obtain c1 w1 where c1: "c1 = c0\<lparr>nx_stream := snd (nf_stream f)\<rparr>"
    "w1 = acquired StreamCreate (snd (nf_stream f)) w0" by simp
  have b1: "nvjpegBalanced k (Some c1) w1"
    unfolding c1 by (rule nvjpegBalanced_acquire(2) [OF _ b0]) (simp add: c0 newContext_def)
  obtain c2 w2 where c2: "c2 = c1\<lparr>nx_handle := snd (nf_handle f)\<rparr>"
    "w2 = acquired HandleCreate (snd (nf_handle f)) w1" by simp
  have b2: "nvjpegBalanced k (Some c2) w2"
    unfolding c2 by (rule nvjpegBalanced_acquire(3) [OF _ b1]) (simp add: c1 c0 newContext_def)
  obtain c3 w3 where c3: "c3 = c2\<lparr>nx_state := snd (nf_state f)\<rparr>"
    "w3 = acquired StateCreate (snd (nf_state f)) w2" by simp
  have b3: "nvjpegBalanced k (Some c3) w3"
    unfolding c3 by (rule nvjpegBalanced_acquire(4) [OF _ b2]) (simp add: c2 c1 c0 newContext_def)
  obtain c4 w4 where c4: "c4 = c3\<lparr>nx_params := snd (nf_params f)\<rparr>"
    "w4 = acquired ParamsCreate (snd (nf_params f)) w3" by simp
  have b4: "nvjpegBalanced k (Some c4) w4"
    unfolding c4 by (rule nvjpegBalanced_acquire(5) [OF _ b3]) (simp add: c3 c2 c1 c0 newContext_def)
  have dev: "deviceOk c4" by (simp add: c4 c3 c2 c1 c0 newContext_def deviceOk_def)
  obtain w5 where w5: "w5 = logNv [StreamSynchronize] w4" by simp
  have b5: "nvjpegBalanced k (Some c4) w5" using b4 by (simp add: w5)
  obtain st j c5 w6 where p: "EncodeRGBImpl es (nf_probe f) (Some c4) (Some probeRGB) (length probeRGB) 16 16 90
      True errorSize w5 = (st, j, c5, w6)"
    by (cases "EncodeRGBImpl es (nf_probe f) (Some c4) (Some probeRGB) (length probeRGB) 16 16 90
      True errorSize w5") auto
  from EncodeRGBImpl_balanced [OF p b5 dev] obtain d where
    d: "c5 = Some d" "deviceOk d" "nvjpegBalanced k (Some d) (ReleaseJPEG j w6)" by blast
  have gone: "nvjpegBalanced k None (DestroyNvjpeg c5 w6)" if "st \<noteq> 0"
  proof (rule nvjpegBalanced_option)
    have "j = None" using nvjpeg_encode_outcome [OF p dev] that by simp
    with d show "nvjpegBalanced k c5 w6" by (simp add: ReleaseJPEG_def)
  qed
  have probe: "F (if st \<noteq> 0 then (1, None, DestroyNvjpeg c5 w6)
      else (0, Some (\<lparr>hw_abi_version = XGC_SNAPSHOT_JPEG_HARDWARE_ABI_V1,
          hw_struct_size = hwEncoderSize, hw_backend_name = Some ''nvjpeg-cuda'', hw_context = Some i,
          hw_encode_rgb = Some encode, hw_release_jpeg = True, hw_destroy = True\<rparr>, the c5), ReleaseJPEG j w6))"
    using d gone by (simp add: F_def hwAccepted_def)
  have "F (createEncoder es f abi encoder encode i errorSize w)"
    unfolding createEncoder_def Let_def w0 [symmetric] c0 [symmetric] c1 [symmetric] c2 [symmetric]
      c3 [symmetric] c4 [symmetric] w5 [symmetric] p prod.case
    by (intro choice early late probe b0 b1 b2 b3 b4 b5)
  then show ?thesis unfolding assms(1) F_def by simp
qed

text \<open>
  A session: the factory, encodes whose buffers the caller releases, and the destruction of the
  context. A failed factory ends it.
\<close>

record nvjpeg_job =
  nj_answers :: nvjpeg_encode_answers
  nj_rgb :: "bytes option"
  nj_size :: nat
  nj_width :: u32
  nj_height :: u32
  nj_quality :: int
  nj_outputs :: bool

fun nvjpegJobs ::
  "(nat \<Rightarrow> string) \<Rightarrow> nat \<Rightarrow> nvjpeg_job list \<Rightarrow> nvjpeg_context option \<Rightarrow> nvjpeg_world
     \<Rightarrow> nvjpeg_context option \<times> nvjpeg_world" where
  "nvjpegJobs es errorSize [] c w = (c, w)"
| "nvjpegJobs es errorSize (x # xs) c w =
     (case EncodeRGBImpl es (nj_answers x) c (nj_rgb x) (nj_size x) (nj_width x) (nj_height x)
             (nj_quality x) (nj_outputs x) errorSize w of
        (status, jpeg, c', w') \<Rightarrow> nvjpegJobs es errorSize xs c' (ReleaseJPEG jpeg w'))"

definition nvjpegSession ::
  "(nat \<Rightarrow> string) \<Rightarrow> nvjpeg_factory_answers \<Rightarrow> u32 \<Rightarrow> hw_encode \<Rightarrow> nat \<Rightarrow> nvjpeg_job list \<Rightarrow> nvjpeg_world
     \<Rightarrow> nvjpeg_world" where
  "nvjpegSession es f abi encode errorSize xs w =
     (case createEncoder es f abi True encode 0 errorSize w of
        (status, None, w') \<Rightarrow> w'
      | (status, Some (e, c), w') \<Rightarrow>
          (case nvjpegJobs es errorSize xs (Some c) w' of (c', w'') \<Rightarrow> DestroyNvjpeg c' w''))"

lemma nvjpegJobs_balanced:
  assumes "nvjpegBalanced k (Some c) w" and "deviceOk c" and "nvjpegJobs es errorSize xs (Some c) w = (c', w')"
  shows "nvjpegBalanced k c' w'"
  using assms
proof (induction xs arbitrary: c w)
  case (Cons x xs)
  obtain st j c1 w1 where e: "EncodeRGBImpl es (nj_answers x) (Some c) (nj_rgb x) (nj_size x) (nj_width x)
      (nj_height x) (nj_quality x) (nj_outputs x) errorSize w = (st, j, c1, w1)"
    by (cases "EncodeRGBImpl es (nj_answers x) (Some c) (nj_rgb x) (nj_size x) (nj_width x)
      (nj_height x) (nj_quality x) (nj_outputs x) errorSize w") auto
  from EncodeRGBImpl_balanced [OF e Cons.prems(1,2)] obtain d where
    "c1 = Some d" "deviceOk d" "nvjpegBalanced k (Some d) (ReleaseJPEG j w1)" by blast
  with Cons.IH Cons.prems(3) e show ?case by simp
qed simp

text \<open>
  C16: Whatever the CUDA and nvJPEG calls answer, in the factory (its probe encode included) or in any
  later encode, a session releases every context, stream, handle, encoder state, parameter set,
  device buffer and output buffer exactly as often as it acquired one.
\<close>

theorem nvjpeg_session_releases:
  "let n = count_list (nw_log (nvjpegSession es f abi encode errorSize xs \<lparr>nw_error = err, nw_log = []\<rparr>)) in
     n ContextNew = n ContextDelete \<and> n StreamCreate = n StreamDestroy \<and> n HandleCreate = n HandleDestroy
     \<and> n StateCreate = n StateDestroy \<and> n ParamsCreate = n ParamsDestroy
     \<and> n DeviceMalloc = n DeviceFree \<and> n HostMalloc = n HostFree"
proof -
  let ?w = "\<lparr>nw_error = err, nw_log = []\<rparr>"
  have start: "nvjpegBalanced 0 None ?w" by (simp add: nvjpegBalanced_def)
  obtain st table w1 where c: "createEncoder es f abi True encode 0 errorSize ?w = (st, table, w1)"
    by (cases "createEncoder es f abi True encode 0 errorSize ?w") auto
  note created = createEncoder_balanced [OF c start]
  have "nvjpegBalanced 0 None (nvjpegSession es f abi encode errorSize xs ?w)"
  proof (cases table)
    case None
    with created show ?thesis by (simp add: nvjpegSession_def c)
  next
    case (Some ec)
    obtain e d where ec: "ec = (e, d)" by (cases ec)
    obtain d' w2 where j: "nvjpegJobs es errorSize xs (Some d) w1 = (d', w2)"
      by (cases "nvjpegJobs es errorSize xs (Some d) w1")
    have "nvjpegBalanced 0 d' w2"
      using created Some ec by (intro nvjpegJobs_balanced [OF _ _ j]) simp_all
    then show ?thesis by (simp add: nvjpegSession_def c Some ec j nvjpegBalanced_option)
  qed
  then show ?thesis by (simp add: nvjpegBalanced_def Let_def)
qed

section \<open>The module behind the backend\<close>

text \<open>
  C18: When the factory succeeds, the backend that loaded the module accepts its table and is
  available under the name nvjpeg-cuda; and an encode of the module that succeeds passes the
  backend's own checks of the image and comes out unchanged.
\<close>

theorem nvjpeg_module_serves_backend:
  assumes "createEncoder es f abi True encode i errorSize w = (0, Some (e, c), w')"
    and "ld_opens ld" and "ld_factory ld" and "\<not> ld_factoryError ld" and "ld_create ld = (0, e, m)" and "library \<noteq> []"
    and "EncodeRGBImpl es a (Some d) (Some rgb) (length rgb) width height quality True errorSize u
      = (0, jpeg, d', u')" and "deviceOk d" and "encode rgb width height quality = (0, jpeg, [])"
    and "nvjpegBalanced 0 None w"
  shows "let s' = snd (OpenHardware ld library s) in
    fst (OpenHardware ld library s) \<and> hardwareAvailable s' \<and> jh_backend s' = ''nvjpeg-cuda''
    \<and> fst (EncodeHardware b rgb width height quality s')
        = \<lparr>jr_bytes = nvjpegOutput a, jr_backend = ''nvjpeg-cuda'', jr_error = []\<rparr>"
proof -
  have e: "hwAccepted 0 e" "hw_encode_rgb e = Some encode"
    and name: "hw_backend_name e = Some ''nvjpeg-cuda''"
    using createEncoder_balanced [OF assms(1,10)] by simp_all
  obtain s' where s': "OpenHardware ld library s = (True, s')" "jh_encoder s' = Some e"
    "jh_backend s' = ''nvjpeg-cuda''" "jh_library s'"
    using assms(2-6) e name by (simp add: OpenHardware_def Let_def)
  have "jpeg = Some (nvjpegOutput a)" "jpegImage (nvjpegOutput a)"
    using nvjpeg_encode_outcome [OF assms(7,8)] by simp_all
  with s' e assms(9) show ?thesis by (simp add: EncodeHardware_def hardwareAvailable_def Let_def)
qed

section \<open>Concrete runs\<close>

definition demoImage :: "nat \<Rightarrow> 8 word" where
  "demoImage i = [0xff, 0xd8, 0xff, 0xd9] ! i"

definition demoEncode :: nvjpeg_encode_answers where
  "demoEncode = \<lparr>nq_device = 0, nq_malloc = 0, nq_copy = 0, nq_quality = 0, nq_sampling = 0, nq_encode = 0,
     nq_query = 0, nq_length = 4, nq_synchronize = 0, nq_allocate = True, nq_retrieve = 0, nq_capacity = 4,
     nq_synchronizeOutput = 0, nq_memory = demoImage\<rparr>"

lemma demoEncode_image: "nvjpegOutput demoEncode = [0xff, 0xd8, 0xff, 0xd9]"
  by (simp add: nvjpegOutput_def demoEncode_def demoImage_def upt_rec)

definition demoContext :: nvjpeg_context where
  "demoContext = newContext\<lparr>nx_handle := True, nx_state := True, nx_params := True, nx_stream := True\<rparr>"

definition demoWorld :: nvjpeg_world where
  "demoWorld = \<lparr>nw_error = Some [], nw_log = []\<rparr>"

definition demoFactory :: nvjpeg_factory_answers where
  "demoFactory = \<lparr>nf_count = (0, 1), nf_new = True, nf_device = (0, 0), nf_stream = (0, True),
     nf_handle = (0, True), nf_state = (0, True), nf_params = (0, True), nf_encoding = 0, nf_huffman = 0,
     nf_sampling = 0, nf_synchronize = 0, nf_probe = demoEncode\<rparr>"

lemma demoEncode_succeeds:
  assumes "deviceOk c"
  shows "\<exists>c' w'. EncodeRGBImpl es demoEncode (Some c) (Some probeRGB) (length probeRGB) 16 16 90 True n w
    = (0, Some (nvjpegOutput demoEncode), c', w')"
proof -
  obtain st j c' w' where e: "EncodeRGBImpl es demoEncode (Some c) (Some probeRGB) (length probeRGB) 16 16 90 True n w
      = (st, j, c', w')"
    by (cases "EncodeRGBImpl es demoEncode (Some c) (Some probeRGB) (length probeRGB) 16 16 90 True n w") auto
  have "jpegImage (nvjpegOutput demoEncode)"
    by (simp add: demoEncode_image jpegImage_def maximumJpegBytes_def)
  moreover have "nvjpegCallsSucceed demoEncode" "nq_device demoEncode = 0" "nq_malloc demoEncode = 0"
    "nq_capacity demoEncode = 4" "nq_length demoEncode = 4" "validNvjpegInput (length probeRGB) 16 16 90"
    by (simp_all add: demoEncode_def nvjpegCallsSucceed_def validNvjpegInput_def probeRGB_def)
  ultimately have "st = 0 \<and> j = Some (nvjpegOutput demoEncode)"
    using nvjpeg_encode_outcome [OF e assms] by (simp add: maximumJpegBytes_def)
  with e show ?thesis by simp
qed

theorem nvjpeg_encode_outcome_witness:
  "\<exists>c' w'. EncodeRGBImpl (\<lambda>s. ''fault'') (demoEncode\<lparr>nq_copy := 2\<rparr>) (Some demoContext) (Some probeRGB)
     (length probeRGB) 16 16 90 True 512 demoWorld = (1, None, c', w')"
proof -
  let ?a = "demoEncode\<lparr>nq_copy := 2\<rparr>"
  obtain st j c' w' where e: "EncodeRGBImpl (\<lambda>s. ''fault'') ?a (Some demoContext) (Some probeRGB)
      (length probeRGB) 16 16 90 True 512 demoWorld = (st, j, c', w')"
    by (cases "EncodeRGBImpl (\<lambda>s. ''fault'') ?a (Some demoContext) (Some probeRGB)
      (length probeRGB) 16 16 90 True 512 demoWorld") auto
  have "deviceOk demoContext" by (simp add: deviceOk_def demoContext_def newContext_def)
  from nvjpeg_encode_outcome [OF e this] have "st \<noteq> 0" "j = None"
    by (simp_all add: nvjpegCallsSucceed_def)
  moreover have "st = 0 \<or> st = 1"
    using e by (auto simp: EncodeRGBImpl_def encodeOnDevice_def Let_def split: option.splits prod.splits if_splits bool.splits)
  ultimately show ?thesis using e by auto
qed

lemma demoFactory_serves:
  "\<exists>e c w'. createEncoder es demoFactory 1 True encode i n demoWorld = (0, Some (e, c), w')"
proof -
  obtain c4 w4 where c4: "c4 = newContext\<lparr>nx_device := 0, nx_stream := True, nx_handle := True, nx_state := True,
      nx_params := True\<rparr>" "w4 = logNv [StreamSynchronize] (logNv [ParamsCreate] (logNv [StateCreate]
      (logNv [HandleCreate] (logNv [StreamCreate] (logNv [ContextNew] demoWorld)))))" by simp
  have "deviceOk c4" by (simp add: c4 newContext_def deviceOk_def)
  from demoEncode_succeeds [OF this, of es n w4] obtain c' w' where
    "EncodeRGBImpl es demoEncode (Some c4) (Some probeRGB) (length probeRGB) 16 16 90 True n w4
      = (0, Some (nvjpegOutput demoEncode), c', w')" by blast
  then show ?thesis
    by (simp add: createEncoder_def demoFactory_def acquired_def configureStatus_def
        XGC_SNAPSHOT_JPEG_HARDWARE_ABI_V1_def c4 [symmetric] Let_def)
qed

theorem nvjpeg_module_serves_backend_witness:
  "\<exists>e. hardwareAvailable (snd (OpenHardware \<lparr>ld_opens = True, ld_error = None, ld_factory = True,
     ld_factoryError = False, ld_create = (0, e, [])\<rparr> ''libnv.so''
     \<lparr>jh_library = False, jh_encoder = None, jh_backend = [], jh_error = [], jh_calls = []\<rparr>))"
proof -
  let ?encode = "\<lambda>rgb w h q. (0, Some (nvjpegOutput demoEncode), [])"
  obtain e c w' where c: "createEncoder (\<lambda>s. []) demoFactory 1 True ?encode 7 512 demoWorld
      = (0, Some (e, c), w')" using demoFactory_serves by blast
  have "deviceOk demoContext" by (simp add: deviceOk_def demoContext_def newContext_def)
  from demoEncode_succeeds [OF this] obtain c' u where
    e: "EncodeRGBImpl (\<lambda>s. []) demoEncode (Some demoContext) (Some probeRGB) (length probeRGB) 16 16 90 True 512
      demoWorld = (0, Some (nvjpegOutput demoEncode), c', u)" by blast
  have "nvjpegBalanced 0 None demoWorld" by (simp add: nvjpegBalanced_def demoWorld_def)
  from nvjpeg_module_serves_backend [OF c, of "\<lparr>ld_opens = True, ld_error = None, ld_factory = True,
      ld_factoryError = False, ld_create = (0, e, [])\<rparr>" "[]" "''libnv.so''", OF _ _ _ _ _ e
      \<open>deviceOk demoContext\<close> _ this]
  show ?thesis by (auto simp: Let_def)
qed

end
