(* ===== verification/Spec2Isabelle.thy ===== *)
theory Spec2Isabelle
  imports Camera_Process Capture_Progress ROS_Runtime Nvjpeg
begin

text \<open>
  The native Gazebo camera plugin: a sensor plugin (\<open>xgc_media_camera_plugin.cpp\<close>) that encodes the
  frames a simulated camera renders with NVENC, sends them paced over RTP and publishes them over
  ROS, takes JPEG snapshots, and is controlled over one HTTP host that all cameras of a Gazebo
  process share (\<open>camera_source_control\<close>). The optional hardware JPEG encoder is a module of its own
  behind a C interface (\<open>snapshot_jpeg_hardware_abi.h\<close>, \<open>snapshot_jpeg_nvjpeg.cpp\<close>).

  \<^bold>\<open>Threads.\<close> The plugin's state is one record that grows from theory to theory; the operations of the
  threads are functions on it, one for every critical section of the code, and interleavings are
  step relations or an argument \<open>env\<close> for what the other threads do between two sections. The
  control executor handles requests and flushes; the render thread runs \<open>OnPostRender\<close> and
  \<open>postRenderTargetUpdate\<close>; a pacing thread, a ROS publisher thread, a JPEG worker and a diagnostic
  reporter consume queues. Condition variables are the guard of a loop body: \<open>LoopWaits\<close>,
  \<open>LoopContinues\<close> and \<open>LoopReturns\<close> are its three outcomes.

  \<^bold>\<open>Theories and code.\<close> Names are those of the code, fields without the trailing underscore; the
  functions are methods of \<open>XGCMediaCameraPlugin\<close> unless another file is named.

    \<^item> \<open>Annex_B\<close>: \<open>SplitAnnexB\<close>, with the scan for start codes as a function of its own.
    \<^item> \<open>RTP_Packets\<close>: \<open>AppendRTPPacket\<close> and the packetizing loops of \<open>SendH264AccessUnit\<close>; a receiver of
      RFC 6184 is the reference.
    \<^item> \<open>Shared_State\<close>: the diagnostic queue (\<open>LogEncoderError\<close>, \<open>DiagnosticReporterLoop\<close>) and the atomics.
    \<^item> \<open>Fenced_Queue\<close>: the interface of the two transmit queues, a locale.
    \<^item> \<open>RTP_Pacer\<close>: \<open>EnqueueRTPAccessUnit\<close>, \<open>ClearRTPQueue\<close>, \<open>RTPPacerLoop\<close>, \<open>SendPacedRTPAccessUnit\<close>.
    \<^item> \<open>ROS_Publisher\<close>: epochs, subscriber callbacks, registration, \<open>EnqueueROSAccessUnit\<close>,
      \<open>ROSPublisherLoop\<close> and what it publishes.
    \<^item> \<open>ROS_Runtime\<close>: \<open>CameraROSDataRuntime\<close>, the owner of the callback queue that the cameras share.
    \<^item> \<open>Snapshot_Jpeg\<close>: \<open>snapshot_jpeg_backend.cpp\<close>, the policies, the loaded module, libjpeg's input.
    \<^item> \<open>Snapshot_Capture\<close>: arming, readback through a pixel buffer object or synchronously, the worker
      and the collection; the OpenGL bindings the code saves and restores are part of the state.
    \<^item> \<open>Encoder_Session\<close>: \<open>fresh_render_gate.h\<close>, the NVENC session and its texture, the native commands and
      the two render callbacks. \<open>Encoder_Lifetime\<close> and \<open>Encoder_Time\<close> hold its theorems.
    \<^item> \<open>Control_Json\<close>, \<open>Source_Control\<close>: JSON values, responses, decimals; \<open>CameraSourceControlHost\<close>.
    \<^item> \<open>Camera_Control\<close>: \<open>HandleControlRequest\<close> with all its routes, \<open>FlushControl\<close>, \<open>FlushCapture\<close>.
      \<open>Control_Requests\<close>, \<open>Control_Handover\<close> and \<open>Control_Mutations\<close> hold its theorems.
    \<^item> \<open>Capture_Progress\<close>: a frame and the pass of the JPEG worker after it, until a capture ends.
    \<^item> \<open>Plugin_Lifecycle\<close>: \<open>Load\<close>, the destructor, the initial state.
    \<^item> \<open>Camera_Process\<close>: any number of plugins on the host they share. The table of the host holds the
      numbers of the plugins that its callbacks capture; a handler or a flush is called with the state
      of that plugin, and the host the plugin changes is the one of the process.
    \<^item> \<open>Nvjpeg\<close>: \<open>snapshot_jpeg_nvjpeg.cpp\<close>, the factory, one encode, the destruction.

  \<^bold>\<open>Numbers.\<close> RTP sequence numbers, time stamps, revisions, generations and epochs are words of their
  width and wrap. Sizes of containers are natural numbers, times integers in nanoseconds, rates and
  intrinsics reals (the code uses \<open>double\<close>, so rounding is not modelled). Where a theorem needs that a 64 bit
  counter does not wrap, a premise says so.

  \<^bold>\<open>What is shown.\<close> Round trips and partition of the byte stream through splitting and packetizing; the
  queues' invariants and that nothing taken before a clearing leaves after it; continuity of the
  published stream over every interleaving; one capture in flight, answered with its own image and
  completed after a bounded number of frames;
  nothing that is acquired from NVENC, OpenGL, the linker, CUDA or nvJPEG leaks on any path; the
  table of the host refines a bounded partial map; the cameras of a process never share the capture
  slot, never lose it, and are never called once they are removed; every request is answered at most once and held
  in exactly one slot until then; the way of a mutation through the render thread refines a
  hand-over protocol; a source that is served has a valid configuration, and removing it releases
  everything.

  \<^bold>\<open>Fuel and bounds.\<close> No definition has fuel. The loops of the code are total functions with measures:
  the scans by the bytes that remain, the fragments by the octets that remain, the batches by their
  number; the scan lines are a list; a worker loop is a single pass. The rank of a capture bounds the
  frames it needs.

  \<^bold>\<open>Parameters.\<close> Code that is not in the repository is an argument: the answers of NVENC, OpenGL,
  CUDA, nvJPEG, sockets and threads are records of results, the JSON text parser and the printer, the
  clock, the ROS calls that may throw, the exception of the HTTP server. Their calls are logged in the
  state where a property is about them.

  \<^bold>\<open>Not modelled.\<close> What the spinner of roscpp does (only that it exists) and the watcher that calls the
  ROS registration again belong to libraries; allocation failures, and with them the catch clauses around
  the nvJPEG entry points; the pixels that OpenGL blits; the text of log lines with numbers in them.
  The Python scripts, launch files and robot description around the plugin are not part of its
  implementation. The error branch of \<open>EncodeSnapshotJpegCPU\<close> reads locals that changed after
  \<open>setjmp\<close>; the model takes the values last written.
\<close>

end
